theory Spec2Isabelle
  imports
    Main
    "HOL-Library.Word"
    "HOL-Library.AList"
    "HOL-Library.Sublist"
    "HOL-Library.Multiset"
    "HOL-Library.Product_Lexorder"
    "HOL-Library.Option_ord"
begin

section \<open>karabo\_data.reader2: the file index and query engine\<close>

text \<open>
  A shallow embedding of \<^verbatim>\<open>src/karabo_data/reader2.py\<close>.  Python exceptions are
  values of the type \<open>error\<close>; a method that can raise returns \<open>error + 'a\<close>.  A
  method that also writes to \<^verbatim>\<open>self\<close> returns the receiver after the call next to its
  result.  Python sets and dicts are lists (a dict is an association list): the code
  iterates over them, with early exits and exceptions in the loop bodies, so the
  iteration order is part of the behaviour.  The theorems hold for every such order.
\<close>

subsection \<open>Exceptions\<close>

datatype error =
    ValueError_UnknownCategory string
  | ValueError_SourceNotInRun string
  | ValueError_NoMatches string string
  | ValueError_BeforeRun int int
  | ValueError_AfterRun int int
  | ValueError_MoreThanOne string string
  | ValueError_Unpack
  | ValueError_Repeats
  | ValueError_TooBig
  | ValueError_Broadcast
  | ValueError_SliceStepZero
  | ValueError_Coords
  | ValueError_Dims
  | ValueError_NoObjects
  | TypeError_Range
  | TypeError_Compare
  | TypeError_NoneKeys
  | ReError
  | KeyError string
  | IndexError
  | AssertionError
  | SourceNameError string
  | PropertyNameError string string
  | Exception_UnableToGetData string string
  | Exception_UnknownSourceCategory

subsection \<open>Numbers\<close>

text \<open>
  Train IDs are uint64 values in the files; the code only compares them, so they are
  modelled by the integers they denote.  First offsets and counts are uint64 arrays on
  which the code does arithmetic and a cast to a signed type: they are 64-bit words.
\<close>

type_synonym train_id = int
type_synonym u64 = "64 word"

text \<open>
  An endpoint of a by-ID range is whatever the caller put in the slice: a Python int
  (\<^verbatim>\<open>by_id[100:200]\<close>) or a numpy integer scalar.  The two differ in the comparison
  with a Python list.
\<close>

datatype pynum = PyInt int | NpInt int

fun num_val :: "pynum \<Rightarrow> int" where
  "num_val (PyInt v) = v"
| "num_val (NpInt v) = v"

subsection \<open>Expanding train IDs by counts\<close>

text \<open>\<^verbatim>\<open>counts.astype(np.intp)\<close>: the 64 bits read as two's complement.\<close>

definition astype_intp :: "u64 list \<Rightarrow> int list" where
  "astype_intp cs = map sint cs"

text \<open>
  \<^verbatim>\<open>np.repeat(a, repeats)\<close> on one-dimensional arrays: a negative repeat count is a
  ValueError, a single repeat count is broadcast, any other length mismatch is a
  ValueError.  The result is a new array of as many elements as the repeat counts add up
  to; numpy refuses to build an array of more than \<open>2^63 - 1 = 9223372036854775807\<close>
  bytes ("array is too big", a ValueError), so the size in bytes of an element of \<open>a\<close>
  is an argument here.
  Below that limit the allocation succeeds or raises MemoryError depending on the memory
  of the machine; as for every other allocation of the program, the model is that of a
  machine with the memory for it.
\<close>

definition np_repeat :: "int \<Rightarrow> 'a list \<Rightarrow> int list \<Rightarrow> error + 'a list" where
  "np_repeat itemsize a repeats =
     (if list_ex (\<lambda>r. r < 0) repeats then Inl ValueError_Repeats
      else if length repeats = length a
        then (if 9223372036854775807 < itemsize * sum_list repeats then Inl ValueError_TooBig
              else Inr (concat (map2 (\<lambda>x r. replicate (nat r) x) a repeats)))
      else if length repeats = 1
        then (if 9223372036854775807 < itemsize * (int (length a) * hd repeats)
              then Inl ValueError_TooBig
              else Inr (concat (map (replicate (nat (hd repeats))) a)))
      else Inl ValueError_Broadcast)"

text \<open>
  \<^verbatim>\<open>
  def _expand_trainids(self, first, counts, trainIds):
      n = min(len(counts), len(trainIds))
      return np.repeat(trainIds[:n], counts.astype(np.intp)[:n])
  \<close>
  The train IDs are the uint64 values of \<^verbatim>\<open>INDEX/trainId\<close>: 8 bytes each.
\<close>

definition expand_trainids ::
  "u64 list \<Rightarrow> u64 list \<Rightarrow> train_id list \<Rightarrow> error + train_id list" where
  "expand_trainids first counts trainIds =
     (let n = min (length counts) (length trainIds)
      in np_repeat 8 (take n trainIds) (take n (astype_intp counts)))"

text \<open>
  Following the spec's words ("re-deriving counts from the expanded label sequence"):
  the count of a train is the number of labels that carry its ID.  This is not a
  function of the source.
\<close>

definition spec_rederive_counts :: "train_id list \<Rightarrow> train_id list \<Rightarrow> nat list" where
  "spec_rederive_counts tids labels = map (count_list labels) tids"

subsection \<open>Resolving a train ID to a slice index\<close>

text \<open>\<^verbatim>\<open>list.index(x)\<close>: the first position of \<open>x\<close>, \<open>None\<close> where Python raises ValueError.\<close>

fun list_index :: "'a list \<Rightarrow> 'a \<Rightarrow> nat option" where
  "list_index [] x = None"
| "list_index (y # ys) x = (if y = x then Some 0 else map_option Suc (list_index ys x))"

text \<open>\<^verbatim>\<open>(arr > tid).nonzero()[0]\<close> at index 0: the first position that satisfies the test.\<close>

fun first_nonzero :: "('a \<Rightarrow> bool) \<Rightarrow> 'a list \<Rightarrow> nat option" where
  "first_nonzero P [] = None"
| "first_nonzero P (y # ys) = (if P y then Some 0 else map_option Suc (first_nonzero P ys))"

text \<open>
  \<^verbatim>\<open>
  def _tid_to_slice_ix(tid, train_ids, stop=False):
      if tid is None:
          return None
      try:
          return train_ids.index(tid)
      except ValueError:
          pass
      if tid < train_ids[0]:
          if stop: raise ValueError("Train ID {} is before this run (starts at {})")
          else: return None
      elif tid > train_ids[-1]:
          if stop: return None
          else: raise ValueError("Train ID {} is after this run (ends at {})")
      else:
          # This train ID is within the run, but doesn't have an entry.
          # Find the first ID in the run greater than the one given.
          return (train_ids > tid).nonzero()[0][0]
  \<close>
  The caller passes \<^verbatim>\<open>self.train_ids\<close>, which every method of the class builds as a
  Python list (\<^verbatim>\<open>sorted(...)\<close>, a list slice, or \<^verbatim>\<open>[]\<close>).  In the last branch
  \<^verbatim>\<open>train_ids > tid\<close> therefore compares a list with \<open>tid\<close>: for a Python int neither
  operand implements the comparison and Python raises TypeError; for a numpy scalar the
  reflected comparison of the scalar converts the list to an array and compares
  element by element.  \<^verbatim>\<open>train_ids[0]\<close> on an empty list raises IndexError.
\<close>

definition tid_to_slice_ix :: "pynum option \<Rightarrow> train_id list \<Rightarrow> bool \<Rightarrow> error + int option" where
  "tid_to_slice_ix tid train_ids stop =
     (case tid of
        None \<Rightarrow> Inr None
      | Some t \<Rightarrow>
          (case list_index train_ids (num_val t) of
             Some i \<Rightarrow> Inr (Some (int i))
           | None \<Rightarrow>
               (case train_ids of
                  [] \<Rightarrow> Inl IndexError
                | first # _ \<Rightarrow>
                    if num_val t < first then
                      (if stop then Inl (ValueError_BeforeRun (num_val t) first) else Inr None)
                    else if num_val t > last train_ids then
                      (if stop then Inr None
                       else Inl (ValueError_AfterRun (num_val t) (last train_ids)))
                    else
                      (case t of
                         PyInt v \<Rightarrow> Inl TypeError_Compare
                       | NpInt v \<Rightarrow>
                           (case first_nonzero (\<lambda>x. x > v) train_ids of
                              None \<Rightarrow> Inl IndexError
                            | Some i \<Rightarrow> Inr (Some (int i)))))))"

subsection \<open>Python containers\<close>

text \<open>
  A Python set is the list of its elements without repetition, in iteration order; a
  dict is an association list with one pair per key, in insertion order.
  \<^verbatim>\<open>d[k] = v\<close> is \<^const>\<open>AList.update\<close> (the value is replaced in place, a new key is
  appended), \<^verbatim>\<open>d[k]\<close> is \<^const>\<open>map_of\<close> with KeyError for \<open>None\<close>,
  \<^verbatim>\<open>s.add(x)\<close> is \<^const>\<open>List.insert\<close> and \<^verbatim>\<open>s | t\<close> is \<^const>\<open>List.union\<close>.
\<close>

text \<open>\<^verbatim>\<open>sorted(set(xs))\<close>\<close>

definition py_sorted_set :: "train_id list \<Rightarrow> train_id list" where
  "py_sorted_set xs = sort (remdups xs)"

text \<open>\<^verbatim>\<open>s.partition(sep)\<close> for a one-character separator: head, separator, tail.\<close>

definition str_partition :: "string \<Rightarrow> char \<Rightarrow> string \<times> string \<times> string" where
  "str_partition s sep =
     (case dropWhile (\<lambda>c. c \<noteq> sep) s of
        [] \<Rightarrow> (s, [], [])
      | _ # t \<Rightarrow> (takeWhile (\<lambda>c. c \<noteq> sep) s, [sep], t))"

text \<open>\<^verbatim>\<open>s.replace(a, b)\<close> for single characters.\<close>

definition str_replace :: "string \<Rightarrow> char \<Rightarrow> char \<Rightarrow> string" where
  "str_replace s a b = map (\<lambda>c. if c = a then b else c) s"

subsection \<open>The file backend\<close>

text \<open>
  An open file is named by a handle; the store \<open>fs\<close> maps a handle to the content of
  the file.  A dataset is its rows along the first axis, each row flattened, and the
  shape after the first axis.  The datasets of the data areas are listed with their
  absolute paths; the index area is listed per index group.  A group exists when it is
  listed in \<open>h5_groups\<close> or a dataset lies below it.
\<close>

type_synonym fid = nat

record 'v dataset =
  ds_rows :: "'v list list"
  ds_tail :: "nat list"

record index_group =
  ix_first :: "u64 list"
  ix_count :: "u64 list option"
  ix_last :: "u64 list option"
  ix_status :: "u64 list option"

record 'v h5file =
  INDEX_trainId :: "train_id list"
  METADATA_dataSourceId :: "string list"
  h5_groups :: "string list"
  h5_datasets :: "(string \<times> 'v dataset) list"
  h5_index :: "(string \<times> index_group) list"

text \<open>\<^verbatim>\<open>f[path]\<close> for a dataset: \<open>None\<close> where h5py raises KeyError.\<close>

definition h5_dataset :: "'v h5file \<Rightarrow> string \<Rightarrow> 'v dataset option" where
  "h5_dataset f path = map_of (h5_datasets f) path"

text \<open>
  \<^verbatim>\<open>f[group].visititems(add_key)\<close> with \<^verbatim>\<open>add_key\<close> keeping the datasets: the names,
  relative to the group, of the datasets below it; \<open>None\<close> where \<^verbatim>\<open>f[group]\<close> raises
  KeyError.
\<close>

definition relative_to :: "string \<Rightarrow> string \<Rightarrow> string option" where
  "relative_to grp path =
     (if prefix (grp @ ''/'') path then Some (drop (length grp + 1) path) else None)"

definition h5_visit_datasets :: "'v h5file \<Rightarrow> string \<Rightarrow> string list option" where
  "h5_visit_datasets f grp =
     (let names = List.map_filter (\<lambda>(p, d). relative_to grp p) (h5_datasets f)
      in if grp \<in> set (h5_groups f) \<or> names \<noteq> [] then Some names else None)"

subsection \<open>The collection\<close>

text \<open>
  The value stored for a source in \<^verbatim>\<open>_source_keys\<close> is a set of keys wherever the
  class stores one; \<^verbatim>\<open>select_trains\<close> can store a string there (see below), which
  Python iterates by character and tests for membership by substring.
\<close>

datatype pykeys = KeySet "string list" | KeyStr string

type_synonym segment = "train_id list \<times> fid"

record DataCollection =
  instrument_sources :: "string list"
  control_sources :: "string list"
  train_ids :: "train_id list"
  source_file_mapping :: "(string \<times> segment list) list"
  index_cache :: "((fid \<times> string \<times> string) \<times> (u64 list \<times> u64 list)) list"
  source_keys :: "(string \<times> pykeys) list"

text \<open>\<^verbatim>\<open>DataCollection()\<close>\<close>

definition empty_collection :: DataCollection where
  "empty_collection =
     \<lparr>instrument_sources = [], control_sources = [], train_ids = [],
      source_file_mapping = [], index_cache = [], source_keys = []\<rparr>"

definition all_sources :: "DataCollection \<Rightarrow> string list" where
  "all_sources self = List.union (instrument_sources self) (control_sources self)"

text \<open>The train IDs of every segment of the registry, in one list.\<close>

definition registry_train_ids :: "(string \<times> segment list) list \<Rightarrow> train_id list" where
  "registry_train_ids sfm = concat (map fst (concat (map snd sfm)))"

subsection \<open>Adding a file\<close>

text \<open>
  \<^verbatim>\<open>
  for source in f['METADATA/dataSourceId'].value:
      if not source:
          continue
      source = source.decode()
      category, _, h5_source = source.partition('/')
      if category == 'INSTRUMENT':
          device, _, chan_grp = h5_source.partition(':')
          chan, _, group = chan_grp.partition('/')
          source = device + ':' + chan
          self.instrument_sources.add(source)
          sources.add(source)
      elif category == 'CONTROL':
          self.control_sources.add(h5_source)
          sources.add(h5_source)
      else:
          raise ValueError("Unknown data category %r" % category)
  \<close>
  The loop writes to \<^verbatim>\<open>self\<close> as it goes, so the receiver is returned also when it
  raises.
\<close>

fun add_file_sources ::
  "DataCollection \<Rightarrow> string list \<Rightarrow> string list \<Rightarrow> (error + string list) \<times> DataCollection" where
  "add_file_sources self sources [] = (Inr sources, self)"
| "add_file_sources self sources (source # rest) =
     (if source = [] then add_file_sources self sources rest
      else
        (case str_partition source (CHR ''/'') of (category, _, h5_source) \<Rightarrow>
          if category = ''INSTRUMENT'' then
            (case str_partition h5_source (CHR '':'') of (device, _, chan_grp) \<Rightarrow>
              (case str_partition chan_grp (CHR ''/'') of (chan, _, grp) \<Rightarrow>
                add_file_sources
                  (self\<lparr>instrument_sources :=
                     List.insert (device @ '':'' @ chan) (instrument_sources self)\<rparr>)
                  (List.insert (device @ '':'' @ chan) sources) rest))
          else if category = ''CONTROL'' then
            add_file_sources
              (self\<lparr>control_sources := List.insert h5_source (control_sources self)\<rparr>)
              (List.insert h5_source sources) rest
          else (Inl (ValueError_UnknownCategory category), self)))"

text \<open>
  \<^verbatim>\<open>
  for source in sources:
      if source not in self._source_file_mapping:
          self._source_file_mapping[source] = []
      self._source_file_mapping[source].append((train_ids, f))
  \<close>
\<close>

definition register_segment ::
  "segment \<Rightarrow> string \<Rightarrow> (string \<times> segment list) list \<Rightarrow> (string \<times> segment list) list" where
  "register_segment seg source sfm =
     (case map_of sfm source of
        None \<Rightarrow> AList.update source [seg] sfm
      | Some segs \<Rightarrow> AList.update source (segs @ [seg]) sfm)"

text \<open>
  \<^verbatim>\<open>
  def add_file(self, path):
      f = h5py.File(path)
      tid_data = f['INDEX/trainId'].value
      train_ids = tid_data[tid_data != 0]
      sources = set()
      ...
      self.train_ids = sorted(set(self.train_ids).union(train_ids))
  \<close>
\<close>

definition add_file ::
  "(fid \<Rightarrow> 'v h5file) \<Rightarrow> DataCollection \<Rightarrow> fid \<Rightarrow> (error + unit) \<times> DataCollection" where
  "add_file fs self f =
     (let tids = filter (\<lambda>t. t \<noteq> 0) (INDEX_trainId (fs f))
      in case add_file_sources self [] (METADATA_dataSourceId (fs f)) of
           (Inl e, self1) \<Rightarrow> (Inl e, self1)
         | (Inr sources, self1) \<Rightarrow>
             (Inr (),
              self1\<lparr>source_file_mapping :=
                       fold (register_segment (tids, f)) sources (source_file_mapping self1),
                     train_ids := py_sorted_set (train_ids self1 @ tids)\<rparr>))"

text \<open>\<^verbatim>\<open>H5File(path)\<close>\<close>

definition H5File :: "(fid \<Rightarrow> 'v h5file) \<Rightarrow> fid \<Rightarrow> (error + unit) \<times> DataCollection" where
  "H5File fs f = add_file fs empty_collection f"

subsection \<open>The keys of a source\<close>

text \<open>
  \<^verbatim>\<open>
  def _keys_for_source(self, source):
      if source not in self.all_sources:
          raise SourceNameError(source)
      try:
          return self._source_keys[source]
      except KeyError:
          pass
      if source in self.control_sources:
          group = '/CONTROL/' + source
      else:
          group = '/INSTRUMENT/' + source
      for trainids, f in self._source_file_mapping[source]:
          res = set()
          def add_key(key, value):
              if isinstance(value, h5py.Dataset):
                  res.add(key.replace('/', '.'))
          f[group].visititems(add_key)
          self._source_keys[source] = res
          return res
  \<close>
  The loop returns in its first round; for a source with no segment the function falls
  off its end and returns \<^verbatim>\<open>None\<close>, the result \<open>None\<close> here.
\<close>

definition keys_for_source ::
  "(fid \<Rightarrow> 'v h5file) \<Rightarrow> DataCollection \<Rightarrow> string \<Rightarrow> (error + pykeys option) \<times> DataCollection" where
  "keys_for_source fs self source =
     (if source \<notin> set (all_sources self) then (Inl (SourceNameError source), self)
      else
        (case map_of (source_keys self) source of
           Some keys \<Rightarrow> (Inr (Some keys), self)
         | None \<Rightarrow>
             (let grp = (if source \<in> set (control_sources self)
                           then ''/CONTROL/'' @ source else ''/INSTRUMENT/'' @ source)
              in case map_of (source_file_mapping self) source of
                   None \<Rightarrow> (Inl (KeyError source), self)
                 | Some [] \<Rightarrow> (Inr None, self)
                 | Some ((trainids, f) # _) \<Rightarrow>
                     (case h5_visit_datasets (fs f) grp of
                        None \<Rightarrow> (Inl (KeyError grp), self)
                      | Some names \<Rightarrow>
                          (let res = remdups (map (\<lambda>key. str_replace key (CHR ''/'') (CHR ''.'')) names)
                           in (Inr (Some (KeySet res)),
                               self\<lparr>source_keys :=
                                      AList.update source (KeySet res) (source_keys self)\<rparr>))))))"

text \<open>\<^verbatim>\<open>key in keys\<close>: membership in a set, substring of a string, TypeError on \<^verbatim>\<open>None\<close>.\<close>

definition pykeys_contains :: "pykeys option \<Rightarrow> string \<Rightarrow> error + bool" where
  "pykeys_contains keys key =
     (case keys of
        None \<Rightarrow> Inl TypeError_NoneKeys
      | Some (KeySet ks) \<Rightarrow> Inr (key \<in> set ks)
      | Some (KeyStr s) \<Rightarrow> Inr (sublist key s))"

text \<open>\<^verbatim>\<open>for key in keys\<close>: the elements of a set, the characters of a string.\<close>

definition pykeys_iter :: "pykeys option \<Rightarrow> error + string list" where
  "pykeys_iter keys =
     (case keys of
        None \<Rightarrow> Inl TypeError_NoneKeys
      | Some (KeySet ks) \<Rightarrow> Inr ks
      | Some (KeyStr s) \<Rightarrow> Inr (map (\<lambda>c. [c]) s))"

subsection \<open>Glob patterns\<close>

text \<open>
  \<^verbatim>\<open>re.compile(fnmatch.translate(glob))\<close> is modelled by the sequence of pattern items
  that the translated text denotes: \<^verbatim>\<open>*\<close> becomes \<^verbatim>\<open>.*\<close>, \<^verbatim>\<open>?\<close> becomes \<^verbatim>\<open>.\<close>, a
  bracket expression becomes a character class, any other character is escaped, and
  the whole is wrapped as \<^verbatim>\<open>(?s:...)\Z\<close>.  \<open>OptGroup w\<close> is the group \<^verbatim>\<open>(w)?\<close> with \<open>w\<close>
  literal, which \<^verbatim>\<open>_select_glob\<close> inserts for control sources.  The end of the item
  list is the anchor \<^verbatim>\<open>\Z\<close>; \<^verbatim>\<open>r.match(s)\<close> anchors at the start.
\<close>

datatype atom =
    AnyString
  | AnyChar
  | Lit char
  | CharClass bool string
  | OptGroup string

text \<open>
  The scan for the end of a bracket expression in \<^verbatim>\<open>fnmatch.translate\<close>, on the
  pattern after the opening bracket: an optional \<^verbatim>\<open>!\<close>, an optional literal \<^verbatim>\<open>]\<close>,
  then everything up to the next \<^verbatim>\<open>]\<close>.  \<open>None\<close> when the bracket is never closed.
\<close>

definition class_end :: "string \<Rightarrow> (string \<times> string) option" where
  "class_end pat =
     (let j0 = (if pat \<noteq> [] \<and> hd pat = CHR ''!'' then 1 else 0);
          j1 = (if j0 < length pat \<and> pat ! j0 = CHR '']'' then j0 + 1 else j0);
          j = j1 + length (takeWhile (\<lambda>c. c \<noteq> CHR '']'') (drop j1 pat))
      in if j \<ge> length pat then None else Some (take j pat, drop (j + 1) pat))"

definition class_atom :: "string \<Rightarrow> atom" where
  "class_atom stuff =
     (if stuff \<noteq> [] \<and> hd stuff = CHR ''!'' then CharClass True (tl stuff)
      else CharClass False stuff)"

function glob_translate :: "string \<Rightarrow> atom list" where
  "glob_translate [] = []"
| "glob_translate (c # pat) =
     (if c = CHR ''*'' then AnyString # glob_translate pat
      else if c = CHR ''?'' then AnyChar # glob_translate pat
      else if c = CHR ''['' then
        (case class_end pat of
           None \<Rightarrow> Lit c # glob_translate pat
         | Some (stuff, rest) \<Rightarrow> class_atom stuff # glob_translate rest)
      else Lit c # glob_translate pat)"
  by pat_completeness auto
termination
  by (relation "measure length") (auto simp: class_end_def Let_def split: if_splits)

text \<open>
  Membership in a character class as the regular expression reads its text: \<^verbatim>\<open>a-b\<close>
  is a range, any other character stands for itself.  A range whose ends are in the
  wrong order is an error of \<^verbatim>\<open>re.compile\<close>.
\<close>

fun class_member :: "string \<Rightarrow> char \<Rightarrow> bool" where
  "class_member [] c = False"
| "class_member [a] c = (a = c)"
| "class_member [a, b] c = (a = c \<or> b = c)"
| "class_member (a # d # b # rest) c =
     (if d = CHR ''-''
      then (of_char a \<le> (of_char c :: nat) \<and> of_char c \<le> (of_char b :: nat)) \<or> class_member rest c
      else a = c \<or> class_member (d # b # rest) c)"

fun class_ok :: "string \<Rightarrow> bool" where
  "class_ok (a # d # b # rest) =
     (if d = CHR ''-'' then of_char a \<le> (of_char b :: nat) \<and> class_ok rest
      else class_ok (d # b # rest))"
| "class_ok _ = True"

fun atom_ok :: "atom \<Rightarrow> bool" where
  "atom_ok (CharClass neg stuff) = class_ok stuff"
| "atom_ok _ = True"

definition re_compile :: "atom list \<Rightarrow> error + atom list" where
  "re_compile p = (if list_all atom_ok p then Inr p else Inl ReError)"

text \<open>\<^verbatim>\<open>bool(r.match(s))\<close>\<close>

fun rmatch :: "atom list \<Rightarrow> string \<Rightarrow> bool" where
  "rmatch [] s = (s = [])"
| "rmatch (AnyString # r) [] = rmatch r []"
| "rmatch (AnyString # r) (c # s) = (rmatch r (c # s) \<or> rmatch (AnyString # r) s)"
| "rmatch (AnyChar # r) [] = False"
| "rmatch (AnyChar # r) (c # s) = rmatch r s"
| "rmatch (Lit a # r) [] = False"
| "rmatch (Lit a # r) (c # s) = (a = c \<and> rmatch r s)"
| "rmatch (CharClass neg stuff # r) [] = False"
| "rmatch (CharClass neg stuff # r) (c # s) = (class_member stuff c \<noteq> neg \<and> rmatch r s)"
| "rmatch (OptGroup w # r) s = (rmatch r s \<or> (prefix w s \<and> rmatch r (drop (length w) s)))"

subsection \<open>Selection\<close>

text \<open>
  \<^verbatim>\<open>
  def _select_glob(self, source_glob, key_glob):
      source_re = re.compile(fnmatch.translate(source_glob))
      key_re = re.compile(fnmatch.translate(key_glob))
      if key_glob.endswith(('.value', '*')):
          ctrl_key_re = key_re
      else:
          # The translated pattern ends with "\Z" - insert before this
          p = key_re.pattern
          end_ix = p.rindex('\Z')
          ctrl_key_re = re.compile(p[:end_ix] + r'(\.value)?' + p[end_ix:])
      matched = set()
      for source in self.all_sources:
          if not source_re.match(source):
              continue
          if key_glob == '*':
              matched.add((source, '*'))
          else:
              r = ctrl_key_re if source in self.control_sources else key_re
              for key in filter(r.match, self._keys_for_source(source)):
                  matched.add((source, key))
      if not matched:
          raise ValueError("No matches for pattern {}".format((source_glob, key_glob)))
      return matched
  \<close>
\<close>

definition ctrl_key_re :: "string \<Rightarrow> atom list \<Rightarrow> atom list" where
  "ctrl_key_re key_glob key_re =
     (if suffix ''.value'' key_glob \<or> suffix ''*'' key_glob then key_re
      else key_re @ [OptGroup ''.value''])"

fun select_glob_loop ::
  "(fid \<Rightarrow> 'v h5file) \<Rightarrow> atom list \<Rightarrow> atom list \<Rightarrow> atom list \<Rightarrow> string \<Rightarrow>
   DataCollection \<Rightarrow> (string \<times> string) list \<Rightarrow> string list \<Rightarrow>
   (error + (string \<times> string) list) \<times> DataCollection" where
  "select_glob_loop fs source_re key_re ctrl_re key_glob self matched [] = (Inr matched, self)"
| "select_glob_loop fs source_re key_re ctrl_re key_glob self matched (source # rest) =
     (if \<not> rmatch source_re source
      then select_glob_loop fs source_re key_re ctrl_re key_glob self matched rest
      else if key_glob = ''*''
      then select_glob_loop fs source_re key_re ctrl_re key_glob self
             (List.insert (source, ''*'') matched) rest
      else
        (let r = (if source \<in> set (control_sources self) then ctrl_re else key_re)
         in case keys_for_source fs self source of
              (Inl e, self1) \<Rightarrow> (Inl e, self1)
            | (Inr keys, self1) \<Rightarrow>
                (case pykeys_iter keys of
                   Inl e \<Rightarrow> (Inl e, self1)
                 | Inr ks \<Rightarrow>
                     select_glob_loop fs source_re key_re ctrl_re key_glob self1
                       (fold (\<lambda>key m. List.insert (source, key) m) (filter (rmatch r) ks) matched)
                       rest)))"

definition select_glob ::
  "(fid \<Rightarrow> 'v h5file) \<Rightarrow> DataCollection \<Rightarrow> string \<Rightarrow> string \<Rightarrow>
   (error + (string \<times> string) list) \<times> DataCollection" where
  "select_glob fs self source_glob key_glob =
     (case re_compile (glob_translate source_glob) of
        Inl e \<Rightarrow> (Inl e, self)
      | Inr source_re \<Rightarrow>
          (case re_compile (glob_translate key_glob) of
             Inl e \<Rightarrow> (Inl e, self)
           | Inr key_re \<Rightarrow>
               (case select_glob_loop fs source_re key_re (ctrl_key_re key_glob key_re)
                       key_glob self [] (all_sources self) of
                  (Inl e, self1) \<Rightarrow> (Inl e, self1)
                | (Inr matched, self1) \<Rightarrow>
                    if matched = [] then (Inl (ValueError_NoMatches source_glob key_glob), self1)
                    else (Inr matched, self1))))"

text \<open>
  The argument of \<^verbatim>\<open>select\<close> by its Python type: a string (a source glob), a set of
  (source, key) pairs, a dict from source to a set of keys, a list of (source glob, key
  glob) pairs, or a value of any other type.
\<close>

datatype selection =
    SelStr string
  | SelSet "(string \<times> string) list"
  | SelDict "(string \<times> string list) list"
  | SelList "(string \<times> string) list"
  | SelOther

text \<open>
  \<^verbatim>\<open>
  def _expand_selection(self, selection):
      if isinstance(selection, set):
          return selection
      res = set()
      if isinstance(selection, dict):
          for source, keys in selection.items():
              if source not in self.all_sources:
                  raise ValueError("Source {} not in this run".format(source))
              for k in (keys or ['*']):
                  res.add((source, k))
      elif isinstance(selection, list):
          for src_glob, key_glob in selection:
              matched = self._select_glob(src_glob, key_glob)
              if not matched:
                  raise ValueError("No matches for pattern {}".format((src_glob, key_glob)))
              res.update(matched)
      else:
          TypeError("Unknown selection type: {}".format(type(selection)))
      return res
  \<close>
  The last branch builds the exception and drops it: there is no \<^verbatim>\<open>raise\<close>.
\<close>

fun expand_dict ::
  "DataCollection \<Rightarrow> (string \<times> string) list \<Rightarrow> (string \<times> string list) list \<Rightarrow>
   error + (string \<times> string) list" where
  "expand_dict self res [] = Inr res"
| "expand_dict self res ((source, keys) # rest) =
     (if source \<notin> set (all_sources self) then Inl (ValueError_SourceNotInRun source)
      else expand_dict self
             (fold (\<lambda>k m. List.insert (source, k) m) (if keys = [] then [''*''] else keys) res)
             rest)"

fun expand_list ::
  "(fid \<Rightarrow> 'v h5file) \<Rightarrow> DataCollection \<Rightarrow> (string \<times> string) list \<Rightarrow>
   (string \<times> string) list \<Rightarrow> (error + (string \<times> string) list) \<times> DataCollection" where
  "expand_list fs self res [] = (Inr res, self)"
| "expand_list fs self res ((src_glob, key_glob) # rest) =
     (case select_glob fs self src_glob key_glob of
        (Inl e, self1) \<Rightarrow> (Inl e, self1)
      | (Inr matched, self1) \<Rightarrow>
          if matched = [] then (Inl (ValueError_NoMatches src_glob key_glob), self1)
          else expand_list fs self1 (fold List.insert matched res) rest)"

fun expand_selection ::
  "(fid \<Rightarrow> 'v h5file) \<Rightarrow> DataCollection \<Rightarrow> selection \<Rightarrow>
   (error + (string \<times> string) list) \<times> DataCollection" where
  "expand_selection fs self (SelSet s) = (Inr s, self)"
| "expand_selection fs self (SelDict d) = (expand_dict self [] d, self)"
| "expand_selection fs self (SelList l) = expand_list fs self [] l"
| "expand_selection fs self (SelStr g) = (Inr [], self)"
| "expand_selection fs self SelOther = (Inr [], self)"

text \<open>
  \<^verbatim>\<open>
  res._source_file_mapping = {s: self._source_file_mapping[s] for s in selected_sources}
  \<close>
\<close>

fun select_registry ::
  "(string \<times> segment list) list \<Rightarrow> string list \<Rightarrow> error + (string \<times> segment list) list" where
  "select_registry sfm [] = Inr []"
| "select_registry sfm (s # rest) =
     (case map_of sfm s of
        None \<Rightarrow> Inl (KeyError s)
      | Some segs \<Rightarrow>
          (case select_registry sfm rest of
             Inl e \<Rightarrow> Inl e
           | Inr r \<Rightarrow> Inr ((s, segs) # r)))"

text \<open>
  \<^verbatim>\<open>
  selected_keys = defaultdict(set)
  for source, key in selection:
      selected_keys[source].add(key)
  for source, keys in selected_keys.items():
      if '*' in keys:
          if source in self._source_keys:
              res._source_keys[source] = self._source_keys[source]
      else:
          res._source_keys[source] = keys
  \<close>
\<close>

definition select_keys ::
  "(string \<times> pykeys) list \<Rightarrow> (string \<times> string) list \<Rightarrow> string list \<Rightarrow> (string \<times> pykeys) list" where
  "select_keys self_keys selection selected_sources =
     List.map_filter
       (\<lambda>source.
          let keys = remdups (map snd (filter (\<lambda>(s, k). s = source) selection))
          in if ''*'' \<in> set keys
             then map_option (\<lambda>v. (source, v)) (map_of self_keys source)
             else Some (source, KeySet keys))
       selected_sources"

text \<open>
  \<^verbatim>\<open>
  def select(self, seln_or_source_glob, key_glob='*'):
      if isinstance(seln_or_source_glob, str):
          selection = self._select_glob(seln_or_source_glob, key_glob)
      else:
          selection = self._expand_selection(seln_or_source_glob)
      selection = self._expand_selection(selection)
      selected_sources = {s for (s, k) in selection}
      res = DataCollection()
      res.instrument_sources = self.instrument_sources & selected_sources
      res.control_sources = self.control_sources & selected_sources
      res._source_file_mapping = {s: self._source_file_mapping[s] for s in selected_sources}
      res._index_cache = {(f, s, g): v for ((f, s, g), v) in self._index_cache.items()
                          if s in selected_sources}
      collect_train_ids = set()
      for data in res._source_file_mapping.values():
          for train_ids, _ in data:
              collect_train_ids.update(train_ids)
      res.train_ids = sorted(collect_train_ids)
      ...
      return res
  \<close>
  The second call of \<^verbatim>\<open>_expand_selection\<close> gets a set and returns it.  The result
  of the method is paired with the receiver after the call.
\<close>

definition select ::
  "(fid \<Rightarrow> 'v h5file) \<Rightarrow> DataCollection \<Rightarrow> selection \<Rightarrow> string \<Rightarrow>
   (error + DataCollection) \<times> DataCollection" where
  "select fs self seln_or_source_glob key_glob =
     (case (case seln_or_source_glob of
              SelStr g \<Rightarrow> select_glob fs self g key_glob
            | _ \<Rightarrow> expand_selection fs self seln_or_source_glob) of
        (Inl e, self1) \<Rightarrow> (Inl e, self1)
      | (Inr selection, self1) \<Rightarrow>
          (let selected_sources = remdups (map fst selection)
           in case select_registry (source_file_mapping self1) selected_sources of
                Inl e \<Rightarrow> (Inl e, self1)
              | Inr sfm \<Rightarrow>
                  (Inr \<lparr>instrument_sources =
                          filter (\<lambda>s. s \<in> set selected_sources) (instrument_sources self1),
                        control_sources =
                          filter (\<lambda>s. s \<in> set selected_sources) (control_sources self1),
                        train_ids = py_sorted_set (registry_train_ids sfm),
                        source_file_mapping = sfm,
                        index_cache =
                          filter (\<lambda>((f, s, g), v). s \<in> set selected_sources) (index_cache self1),
                        source_keys = select_keys (source_keys self1) selection selected_sources\<rparr>,
                   self1)))"

subsection \<open>Slicing a list\<close>

text \<open>
  \<^verbatim>\<open>slice(start, stop, step).indices(len)\<close>: a step of 0 is a ValueError; negative
  indices count from the end; the ends are clipped to the list.
\<close>

definition slice_indices ::
  "int option \<Rightarrow> int option \<Rightarrow> int option \<Rightarrow> int \<Rightarrow> error + (int \<times> int \<times> int)" where
  "slice_indices start stop step len =
     (let st = (case step of None \<Rightarrow> 1 | Some s \<Rightarrow> s)
      in if st = 0 then Inl ValueError_SliceStepZero
         else
           (let lower = (if st < 0 then - 1 else 0);
                upper = (if st < 0 then len - 1 else len);
                clip = (\<lambda>i. if i < 0 then max (i + len) lower else min i upper);
                a = (case start of None \<Rightarrow> (if st < 0 then upper else lower) | Some i \<Rightarrow> clip i);
                b = (case stop of None \<Rightarrow> (if st < 0 then lower else upper) | Some i \<Rightarrow> clip i)
            in Inr (a, b, st)))"

text \<open>The number of positions \<open>a, a + st, a + 2 st, ...\<close> before \<open>b\<close>.\<close>

definition slice_length :: "int \<Rightarrow> int \<Rightarrow> int \<Rightarrow> nat" where
  "slice_length a b st =
     (if st > 0 then (if a < b then nat ((b - a - 1) div st + 1) else 0)
      else (if b < a then nat ((a - b - 1) div (- st) + 1) else 0))"

text \<open>\<^verbatim>\<open>xs[start:stop:step]\<close>\<close>

definition py_slice ::
  "'a list \<Rightarrow> int option \<Rightarrow> int option \<Rightarrow> int option \<Rightarrow> error + 'a list" where
  "py_slice xs start stop step =
     (case slice_indices start stop step (int (length xs)) of
        Inl e \<Rightarrow> Inl e
      | Inr (a, b, st) \<Rightarrow>
          Inr (map (\<lambda>k. xs ! nat (a + int k * st)) [0..<slice_length a b st]))"

subsection \<open>Restricting to a range of trains\<close>

text \<open>
  The range descriptors \<^verbatim>\<open>by_id\<close> and \<^verbatim>\<open>by_index\<close> wrap a slice; a value of any
  other type is \<open>OtherRange\<close>.
\<close>

datatype train_range =
    By_id "pynum option" "pynum option" "int option"
  | By_index "int option" "int option" "int option"
  | OtherRange

text \<open>
  \<^verbatim>\<open>
  sfm = defaultdict(list)
  for source, data in self._source_file_mapping.items():
      for train_ids, file in data:
          if np.intersect1d(train_ids, res.train_ids).size > 0:
              sfm[source].append((train_ids, file))
  res._source_file_mapping = dict(sfm)
  \<close>
\<close>

definition restrict_registry ::
  "train_id list \<Rightarrow> (string \<times> segment list) list \<Rightarrow> (string \<times> segment list) list" where
  "restrict_registry tids sfm =
     filter (\<lambda>(source, data). data \<noteq> [])
       (map (\<lambda>(source, data).
               (source, filter (\<lambda>(train_ids, file). list_ex (\<lambda>t. t \<in> set tids) train_ids) data))
          sfm)"

text \<open>
  \<^verbatim>\<open>
  res._source_keys = {s: k for (s, k) in self._source_keys
                      if s in res._source_file_mapping}
  \<close>
  Iterating a dict gives its keys, here the source names.  Unpacking a name into
  \<^verbatim>\<open>(s, k)\<close> raises ValueError unless the name has exactly two characters, which then
  are \<open>s\<close> and \<open>k\<close>.
\<close>

fun restrict_keys ::
  "(string \<times> segment list) list \<Rightarrow> (string \<times> pykeys) list \<Rightarrow> string list \<Rightarrow>
   error + (string \<times> pykeys) list" where
  "restrict_keys sfm res [] = Inr res"
| "restrict_keys sfm res (name # rest) =
     (case name of
        [s, k] \<Rightarrow>
          restrict_keys sfm
            (if map_of sfm [s] \<noteq> None then AList.update [s] (KeyStr [k]) res else res) rest
      | _ \<Rightarrow> Inl ValueError_Unpack)"

text \<open>
  \<^verbatim>\<open>
  def select_trains(self, train_range):
      if isinstance(train_range, by_id):
          start_ix = _tid_to_slice_ix(train_range.value.start, self.train_ids, stop=False)
          stop_ix = _tid_to_slice_ix(train_range.value.stop, self.train_ids, stop=True)
          ix_slice = slice(start_ix, stop_ix, train_range.value.step)
      elif isinstance(train_range, by_index):
          ix_slice = train_range.value
      else:
          raise TypeError(type(train_range))
      res = DataCollection()
      res.train_ids = self.train_ids[ix_slice]
      ...
      res.control_sources = {s for s in self.control_sources if s in res._source_file_mapping}
      res.instrument_sources = {s for s in self.instrument_sources
                                if s in res._source_file_mapping}
      res._index_cache = {(f, s, g): v for ((f, s, g), v) in self._index_cache.items()
                          if s in res._source_file_mapping}
      return res
  \<close>
  No statement of the method assigns to a field of \<^verbatim>\<open>self\<close> or calls a method on one
  of its containers that changes it: the receiver after the call is the receiver.
\<close>

definition train_range_slice ::
  "DataCollection \<Rightarrow> train_range \<Rightarrow> error + (int option \<times> int option \<times> int option)" where
  "train_range_slice self train_range =
     (case train_range of
        By_id start stop step \<Rightarrow>
          (case tid_to_slice_ix start (train_ids self) False of
             Inl e \<Rightarrow> Inl e
           | Inr start_ix \<Rightarrow>
               (case tid_to_slice_ix stop (train_ids self) True of
                  Inl e \<Rightarrow> Inl e
                | Inr stop_ix \<Rightarrow> Inr (start_ix, stop_ix, step)))
      | By_index start stop step \<Rightarrow> Inr (start, stop, step)
      | OtherRange \<Rightarrow> Inl TypeError_Range)"

definition select_trains ::
  "DataCollection \<Rightarrow> train_range \<Rightarrow> (error + DataCollection) \<times> DataCollection" where
  "select_trains self train_range =
     (case train_range_slice self train_range of
        Inl e \<Rightarrow> (Inl e, self)
      | Inr (start, stop, step) \<Rightarrow>
          (case py_slice (train_ids self) start stop step of
             Inl e \<Rightarrow> (Inl e, self)
           | Inr tids \<Rightarrow>
               (let sfm = restrict_registry tids (source_file_mapping self)
                in case restrict_keys sfm [] (map fst (source_keys self)) of
                     Inl e \<Rightarrow> (Inl e, self)
                   | Inr keys \<Rightarrow>
                       (Inr \<lparr>instrument_sources =
                               filter (\<lambda>s. map_of sfm s \<noteq> None) (instrument_sources self),
                             control_sources =
                               filter (\<lambda>s. map_of sfm s \<noteq> None) (control_sources self),
                             train_ids = tids,
                             source_file_mapping = sfm,
                             index_cache =
                               filter (\<lambda>((f, s, g), v). map_of sfm s \<noteq> None) (index_cache self),
                             source_keys = keys\<rparr>,
                        self))))"

subsection \<open>The index of a group\<close>

text \<open>
  Element-wise arithmetic of numpy on one-dimensional arrays: equal lengths, or one
  operand of length 1, which is broadcast; any other pair of lengths is a ValueError.
\<close>

definition np_broadcast :: "('a \<Rightarrow> 'b \<Rightarrow> 'c) \<Rightarrow> 'a list \<Rightarrow> 'b list \<Rightarrow> error + 'c list" where
  "np_broadcast f xs ys =
     (if length xs = length ys then Inr (map2 f xs ys)
      else if length xs = 1 then Inr (map (f (hd xs)) ys)
      else if length ys = 1 then Inr (map (\<lambda>x. f x (hd ys)) xs)
      else Inl ValueError_Broadcast)"

text \<open>
  \<^verbatim>\<open>
  def _read_index(self, file, source, group):
      ix_group = file['/INDEX/{}/{}'.format(source, group)]
      firsts = ix_group['first'][:]
      if 'count' in ix_group:
          counts = ix_group['count'][:]
      else:
          status = ix_group['status'][:]
          counts = np.uint64((ix_group['last'][:] - firsts + 1) * status)
      return firsts, counts
  \<close>
  The arithmetic is that of uint64: it wraps around.
\<close>

definition read_index :: "'v h5file \<Rightarrow> string \<Rightarrow> string \<Rightarrow> error + (u64 list \<times> u64 list)" where
  "read_index file source grp =
     (case map_of (h5_index file) (''/INDEX/'' @ source @ ''/'' @ grp) of
        None \<Rightarrow> Inl (KeyError (''/INDEX/'' @ source @ ''/'' @ grp))
      | Some ix_group \<Rightarrow>
          (case ix_count ix_group of
             Some counts \<Rightarrow> Inr (ix_first ix_group, counts)
           | None \<Rightarrow>
               (case ix_status ix_group of
                  None \<Rightarrow> Inl (KeyError ''status'')
                | Some status \<Rightarrow>
                    (case ix_last ix_group of
                       None \<Rightarrow> Inl (KeyError ''last'')
                     | Some lasts \<Rightarrow>
                         (case np_broadcast (\<lambda>l f. l - f + 1) lasts (ix_first ix_group) of
                            Inl e \<Rightarrow> Inl e
                          | Inr d \<Rightarrow>
                              (case np_broadcast (\<lambda>x s. x * s) d status of
                                 Inl e \<Rightarrow> Inl e
                               | Inr counts \<Rightarrow> Inr (ix_first ix_group, counts)))))))"

text \<open>
  \<^verbatim>\<open>
  def _get_index(self, file, source, group):
      try:
          return self._index_cache[(file, source, group)]
      except KeyError:
          ix = self._read_index(file, source, group)
          self._index_cache[(file, source, group)] = ix
          return ix
  \<close>
\<close>

definition get_index ::
  "(fid \<Rightarrow> 'v h5file) \<Rightarrow> DataCollection \<Rightarrow> fid \<Rightarrow> string \<Rightarrow> string \<Rightarrow>
   (error + (u64 list \<times> u64 list)) \<times> DataCollection" where
  "get_index fs self file source grp =
     (case map_of (index_cache self) (file, source, grp) of
        Some ix \<Rightarrow> (Inr ix, self)
      | None \<Rightarrow>
          (case read_index (fs file) source grp of
             Inl e \<Rightarrow> (Inl e, self)
           | Inr ix \<Rightarrow>
               (Inr ix,
                self\<lparr>index_cache := AList.update (file, source, grp) ix (index_cache self)\<rparr>)))"

subsection \<open>Labelled arrays\<close>

text \<open>
  An \<^verbatim>\<open>xarray.DataArray\<close> with the dimension \<^verbatim>\<open>trainId\<close> first: the names of its
  dimensions, the train-ID label of each row, the rows and the shape after the first
  axis.  \<open>Dim i\<close> is the name \<^verbatim>\<open>'dim_%d' % i\<close>.
\<close>

datatype dim = TrainId | Dim nat | Named string

record 'v darray =
  da_dims :: "dim list"
  da_coords :: "train_id list"
  da_rows :: "'v list list"
  da_tail :: "nat list"

text \<open>\<^verbatim>\<open>a.size\<close>: the number of elements.\<close>

definition da_size :: "'v darray \<Rightarrow> nat" where
  "da_size a = length (da_rows a) * prod_list (da_tail a)"

text \<open>
  \<^verbatim>\<open>xarray.DataArray(data, dims=dims, coords={'trainId': trainids})\<close>: the number of
  names must be the number of dimensions of the data, and there must be one label per
  row; both failures are a ValueError.
\<close>

definition DataArray ::
  "'v list list \<Rightarrow> nat list \<Rightarrow> dim list \<Rightarrow> train_id list \<Rightarrow> error + 'v darray" where
  "DataArray rows tail dims trainids =
     (if length dims \<noteq> Suc (length tail) then Inl ValueError_Dims
      else if length trainids \<noteq> length rows then Inl ValueError_Coords
      else Inr \<lparr>da_dims = dims, da_coords = trainids, da_rows = rows, da_tail = tail\<rparr>)"

text \<open>
  \<^verbatim>\<open>xarray.concat(arrays, dim='trainId')\<close>: the arrays must agree in their other
  dimensions; an empty list is a ValueError as well.
\<close>

definition xarray_concat :: "'v darray list \<Rightarrow> error + 'v darray" where
  "xarray_concat arrays =
     (case arrays of
        [] \<Rightarrow> Inl ValueError_NoObjects
      | a # _ \<Rightarrow>
          if list_all (\<lambda>b. da_dims b = da_dims a \<and> da_tail b = da_tail a) arrays
          then Inr \<lparr>da_dims = da_dims a,
                    da_coords = concat (map da_coords arrays),
                    da_rows = concat (map da_rows arrays),
                    da_tail = da_tail a\<rparr>
          else Inl ValueError_Dims)"

subsection \<open>Arrays of a field\<close>

text \<open>
  \<^verbatim>\<open>
  def _check_field(self, source, key):
      if source not in self.all_sources:
          raise SourceNameError(source)
      if key not in self._keys_for_source(source):
          raise PropertyNameError(key, source)
  \<close>
\<close>

definition check_field ::
  "(fid \<Rightarrow> 'v h5file) \<Rightarrow> DataCollection \<Rightarrow> string \<Rightarrow> string \<Rightarrow> (error + unit) \<times> DataCollection" where
  "check_field fs self source key =
     (if source \<notin> set (all_sources self) then (Inl (SourceNameError source), self)
      else
        (case keys_for_source fs self source of
           (Inl e, self1) \<Rightarrow> (Inl e, self1)
         | (Inr keys, self1) \<Rightarrow>
             (case pykeys_contains keys key of
                Inl e \<Rightarrow> (Inl e, self1)
              | Inr found \<Rightarrow>
                  if found then (Inr (), self1)
                  else (Inl (PropertyNameError key source), self1))))"

text \<open>\<^verbatim>\<open>"/CONTROL/{}/{}".format(source, key.replace('.', '/'))\<close>\<close>

definition data_path :: "string \<Rightarrow> string \<Rightarrow> string \<Rightarrow> string" where
  "data_path section source key =
     ''/'' @ section @ ''/'' @ source @ ''/'' @ str_replace key (CHR ''.'') (CHR ''/'')"

text \<open>\<^verbatim>\<open>key.partition('.')[0]\<close>\<close>

definition key_group :: "string \<Rightarrow> string" where
  "key_group key = fst (str_partition key (CHR ''.''))"

text \<open>
  One round of either loop of \<^verbatim>\<open>get_array\<close>, from the read of the dataset on:
  \<^verbatim>\<open>
  data = f[data_path][:len(trainids), ...]
  if extra_dims is None:
      extra_dims = ['dim_%d' % i for i in range(data.ndim - 1)]
  dims = ['trainId'] + extra_dims
  seq_arrays.append(xarray.DataArray(data, dims=dims, coords={'trainId': trainids}))
  \<close>
  The result is the array and the value of \<^verbatim>\<open>extra_dims\<close> after the round.
\<close>

definition segment_array ::
  "'v h5file \<Rightarrow> string \<Rightarrow> dim list option \<Rightarrow> train_id list \<Rightarrow> error + ('v darray \<times> dim list)" where
  "segment_array f path extra_dims trainids =
     (case h5_dataset f path of
        None \<Rightarrow> Inl (KeyError path)
      | Some ds \<Rightarrow>
          (let extra = (case extra_dims of
                          None \<Rightarrow> map Dim [0..<length (ds_tail ds)]
                        | Some d \<Rightarrow> d)
           in case DataArray (take (length trainids) (ds_rows ds)) (ds_tail ds)
                     (TrainId # extra) trainids of
                Inl e \<Rightarrow> Inl e
              | Inr a \<Rightarrow> Inr (a, extra)))"

text \<open>
  \<^verbatim>\<open>
  for trainids, f in self._source_file_mapping[source]:
      data = f[data_path][:len(trainids), ...]
      ...
  \<close>
\<close>

fun get_array_control ::
  "(fid \<Rightarrow> 'v h5file) \<Rightarrow> string \<Rightarrow> dim list option \<Rightarrow> 'v darray list \<Rightarrow> segment list \<Rightarrow>
   error + 'v darray list" where
  "get_array_control fs path extra_dims seq_arrays [] = Inr seq_arrays"
| "get_array_control fs path extra_dims seq_arrays ((trainids, f) # rest) =
     (case segment_array (fs f) path extra_dims trainids of
        Inl e \<Rightarrow> Inl e
      | Inr (a, extra) \<Rightarrow> get_array_control fs path (Some extra) (seq_arrays @ [a]) rest)"

text \<open>
  \<^verbatim>\<open>
  for trainids, f in self._source_file_mapping[source]:
      group = key.partition('.')[0]
      firsts, counts = self._get_index(f, source, group)
      if (counts > 1).any():
          raise ValueError("{}/{} data has more than one data point per train"
                           .format(source, group))
      trainids = self._expand_trainids(firsts, counts, trainids)
      data = f[data_path][:len(trainids), ...]
      ...
  \<close>
\<close>

fun get_array_instrument ::
  "(fid \<Rightarrow> 'v h5file) \<Rightarrow> DataCollection \<Rightarrow> string \<Rightarrow> string \<Rightarrow> dim list option \<Rightarrow>
   'v darray list \<Rightarrow> segment list \<Rightarrow> (error + 'v darray list) \<times> DataCollection" where
  "get_array_instrument fs self source key extra_dims seq_arrays [] = (Inr seq_arrays, self)"
| "get_array_instrument fs self source key extra_dims seq_arrays ((trainids, f) # rest) =
     (case get_index fs self f source (key_group key) of
        (Inl e, self1) \<Rightarrow> (Inl e, self1)
      | (Inr (firsts, counts), self1) \<Rightarrow>
          if list_ex (\<lambda>c. 1 < c) counts
          then (Inl (ValueError_MoreThanOne source (key_group key)), self1)
          else
            (case expand_trainids firsts counts trainids of
               Inl e \<Rightarrow> (Inl e, self1)
             | Inr tids \<Rightarrow>
                 (case segment_array (fs f) (data_path ''INSTRUMENT'' source key) extra_dims tids of
                    Inl e \<Rightarrow> (Inl e, self1)
                  | Inr (a, extra) \<Rightarrow>
                      get_array_instrument fs self1 source key (Some extra) (seq_arrays @ [a]) rest)))"

text \<open>
  \<^verbatim>\<open>
  non_empty = [a for a in seq_arrays if (a.size > 0)]
  if not non_empty:
      if seq_arrays:
          # All per-file arrays are empty, so just return the first one.
          return seq_arrays[0]
      raise Exception(("Unable to get data for source {!r}, key {!r}. "
                       "Please report an issue so we can investigate").format(source, key))
  return xarray.concat(sorted(non_empty, key=lambda a: a.coords['trainId'][0]), dim='trainId')
  \<close>
  \<^verbatim>\<open>sorted\<close> is stable, as \<^const>\<open>sort_key\<close> is; the key of an array without labels
  would be an IndexError (\<open>first_train\<close> is \<open>None\<close> there).
\<close>

definition first_train :: "'v darray \<Rightarrow> train_id option" where
  "first_train a = (case da_coords a of t # _ \<Rightarrow> Some t | [] \<Rightarrow> None)"

definition get_array_result :: "string \<Rightarrow> string \<Rightarrow> 'v darray list \<Rightarrow> error + 'v darray" where
  "get_array_result source key seq_arrays =
     (let non_empty = filter (\<lambda>a. da_size a > 0) seq_arrays
      in if non_empty = [] then
           (case seq_arrays of
              a # _ \<Rightarrow> Inr a
            | [] \<Rightarrow> Inl (Exception_UnableToGetData source key))
         else if list_ex (\<lambda>a. da_coords a = []) non_empty then Inl IndexError
         else xarray_concat (sort_key first_train non_empty))"

text \<open>
  \<^verbatim>\<open>
  def get_array(self, source, key, extra_dims=None):
      self._check_field(source, key)
      seq_arrays = []
      if source in self.control_sources:
          data_path = "/CONTROL/{}/{}".format(source, key.replace('.', '/'))
          for trainids, f in self._source_file_mapping[source]: ...
      elif source in self.instrument_sources:
          data_path = "/INSTRUMENT/{}/{}".format(source, key.replace('.', '/'))
          for trainids, f in self._source_file_mapping[source]: ...
      else:
          raise SourceNameError(source)
      ...
  \<close>
\<close>

definition get_array ::
  "(fid \<Rightarrow> 'v h5file) \<Rightarrow> DataCollection \<Rightarrow> string \<Rightarrow> string \<Rightarrow> dim list option \<Rightarrow>
   (error + 'v darray) \<times> DataCollection" where
  "get_array fs self source key extra_dims =
     (case check_field fs self source key of
        (Inl e, self1) \<Rightarrow> (Inl e, self1)
      | (Inr _, self1) \<Rightarrow>
          if source \<in> set (control_sources self1) then
            (case map_of (source_file_mapping self1) source of
               None \<Rightarrow> (Inl (KeyError source), self1)
             | Some segs \<Rightarrow>
                 (case get_array_control fs (data_path ''CONTROL'' source key) extra_dims [] segs of
                    Inl e \<Rightarrow> (Inl e, self1)
                  | Inr seq_arrays \<Rightarrow> (get_array_result source key seq_arrays, self1)))
          else if source \<in> set (instrument_sources self1) then
            (case map_of (source_file_mapping self1) source of
               None \<Rightarrow> (Inl (KeyError source), self1)
             | Some segs \<Rightarrow>
                 (case get_array_instrument fs self1 source key extra_dims [] segs of
                    (Inl e, self2) \<Rightarrow> (Inl e, self2)
                  | (Inr seq_arrays, self2) \<Rightarrow> (get_array_result source key seq_arrays, self2)))
          else (Inl (SourceNameError source), self1))"

subsection \<open>Series of a field\<close>

text \<open>
  A \<^verbatim>\<open>pandas.Series\<close>: its name, its index and its values.  The index is a plain index
  of train IDs or a \<^verbatim>\<open>MultiIndex\<close> of (train ID, pulse ID) pairs.
\<close>

datatype 'v pd_index = FlatIndex "train_id list" | MultiIndex "(train_id \<times> 'v) list"

record 'v series =
  s_name :: string
  s_index :: "'v pd_index"
  s_data :: "'v list"

fun index_length :: "'v pd_index \<Rightarrow> nat" where
  "index_length (FlatIndex ts) = length ts"
| "index_length (MultiIndex ps) = length ps"

text \<open>
  \<^verbatim>\<open>pd.Series(data, name=name, index=index)\<close>: the data must have one dimension and as
  many values as the index has entries.
\<close>

definition pd_Series :: "'v list list \<Rightarrow> nat list \<Rightarrow> string \<Rightarrow> 'v pd_index \<Rightarrow> error + 'v series" where
  "pd_Series rows tail name index =
     (if tail \<noteq> [] then Inl ValueError_Dims
      else if length rows \<noteq> index_length index then Inl ValueError_Coords
      else Inr \<lparr>s_name = name, s_index = index, s_data = concat rows\<rparr>)"

text \<open>
  \<^verbatim>\<open>
  name = source + '/' + key
  if name.endswith('.value'):
      name = name[:-6]
  \<close>
\<close>

definition series_name :: "string \<Rightarrow> string \<Rightarrow> string" where
  "series_name source key =
     (let name = source @ ''/'' @ key
      in if suffix ''.value'' name then take (length name - 6) name else name)"

text \<open>
  \<^verbatim>\<open>
  for trainids, f in self._source_file_mapping[source]:
      data = f[data_path][:len(trainids), ...]
      index = pd.Index(trainids, name='trainId')
      seq_series.append(pd.Series(data, name=name, index=index))
  \<close>
\<close>

fun get_series_control ::
  "(fid \<Rightarrow> 'v h5file) \<Rightarrow> string \<Rightarrow> string \<Rightarrow> 'v series list \<Rightarrow> segment list \<Rightarrow>
   error + 'v series list" where
  "get_series_control fs path name seq_series [] = Inr seq_series"
| "get_series_control fs path name seq_series ((trainids, f) # rest) =
     (case h5_dataset (fs f) path of
        None \<Rightarrow> Inl (KeyError path)
      | Some ds \<Rightarrow>
          (case pd_Series (take (length trainids) (ds_rows ds)) (ds_tail ds) name
                  (FlatIndex trainids) of
             Inl e \<Rightarrow> Inl e
           | Inr s \<Rightarrow> get_series_control fs path name (seq_series @ [s]) rest))"

text \<open>
  \<^verbatim>\<open>pulse_id[:len(index), 0]\<close>: the dataset needs a second axis that is not empty.  The
  result is taken as one pulse ID per row, which it is for a two-dimensional dataset.
\<close>

definition pulse_column :: "'v dataset \<Rightarrow> nat \<Rightarrow> error + 'v list" where
  "pulse_column ds n =
     (case ds_tail ds of
        [] \<Rightarrow> Inl IndexError
      | m # more_dims \<Rightarrow>
          if m = 0 then Inl IndexError
          else if more_dims \<noteq> [] then Inl ValueError_Dims
          else Inr (map hd (take n (ds_rows ds))))"

text \<open>
  \<^verbatim>\<open>
  index = pd.Index(trainids, name='trainId')
  data = f[data_path][:]
  if not index.is_unique:
      pulse_id = f['/INSTRUMENT/{}/{}/pulseId'.format(source, group)]
      pulse_id = pulse_id[:len(index), 0]
      index = pd.MultiIndex.from_arrays([trainids, pulse_id], names=['trainId', 'pulseId'])
      # Does pulse-oriented data always have an extra dimension?
      assert data.shape[1] == 1
      data = data[:, 0]
  data = data[:len(index)]
  seq_series.append(pd.Series(data, name=name, index=index))
  \<close>
  \<^verbatim>\<open>MultiIndex.from_arrays\<close> needs arrays of one length; \<^verbatim>\<open>data.shape[1]\<close> is an
  IndexError for one-dimensional data; \<^verbatim>\<open>data[:, 0]\<close> drops the second axis.
\<close>

definition instrument_series ::
  "'v h5file \<Rightarrow> string \<Rightarrow> string \<Rightarrow> string \<Rightarrow> train_id list \<Rightarrow> error + 'v series" where
  "instrument_series f source key name trainids =
     (case h5_dataset f (data_path ''INSTRUMENT'' source key) of
        None \<Rightarrow> Inl (KeyError (data_path ''INSTRUMENT'' source key))
      | Some ds \<Rightarrow>
          if distinct trainids then
            pd_Series (take (length trainids) (ds_rows ds)) (ds_tail ds) name (FlatIndex trainids)
          else
            (case h5_dataset f (''/INSTRUMENT/'' @ source @ ''/'' @ key_group key @ ''/pulseId'') of
               None \<Rightarrow> Inl (KeyError (''/INSTRUMENT/'' @ source @ ''/'' @ key_group key @ ''/pulseId''))
             | Some pulse_ds \<Rightarrow>
                 (case pulse_column pulse_ds (length trainids) of
                    Inl e \<Rightarrow> Inl e
                  | Inr pulse_id \<Rightarrow>
                      if length pulse_id \<noteq> length trainids then Inl ValueError_Coords
                      else
                        (case ds_tail ds of
                           [] \<Rightarrow> Inl IndexError
                         | m # more_dims \<Rightarrow>
                             if m \<noteq> 1 then Inl AssertionError
                             else pd_Series (take (length trainids) (ds_rows ds)) more_dims name
                                    (MultiIndex (zip trainids pulse_id))))))"

text \<open>
  \<^verbatim>\<open>
  for trainids, f in self._source_file_mapping[source]:
      group = key.partition('.')[0]
      firsts, counts = self._get_index(f, source, group)
      trainids = self._expand_trainids(firsts, counts, trainids)
      ...
  \<close>
\<close>

fun get_series_instrument ::
  "(fid \<Rightarrow> 'v h5file) \<Rightarrow> DataCollection \<Rightarrow> string \<Rightarrow> string \<Rightarrow> string \<Rightarrow>
   'v series list \<Rightarrow> segment list \<Rightarrow> (error + 'v series list) \<times> DataCollection" where
  "get_series_instrument fs self source key name seq_series [] = (Inr seq_series, self)"
| "get_series_instrument fs self source key name seq_series ((trainids, f) # rest) =
     (case get_index fs self f source (key_group key) of
        (Inl e, self1) \<Rightarrow> (Inl e, self1)
      | (Inr (firsts, counts), self1) \<Rightarrow>
          (case expand_trainids firsts counts trainids of
             Inl e \<Rightarrow> (Inl e, self1)
           | Inr tids \<Rightarrow>
               (case instrument_series (fs f) source key name tids of
                  Inl e \<Rightarrow> (Inl e, self1)
                | Inr s \<Rightarrow>
                    get_series_instrument fs self1 source key name (seq_series @ [s]) rest)))"

text \<open>
  \<^verbatim>\<open>sorted(seq_series, key=lambda s: s.index[0])\<close>: the key of a series with an empty
  index is an IndexError; the key of a plain index is a train ID, that of a
  \<^verbatim>\<open>MultiIndex\<close> a pair, ordered lexicographically; a train ID and a pair do not compare.
\<close>

fun is_flat :: "'v series \<Rightarrow> bool" where
  "is_flat s = (case s_index s of FlatIndex _ \<Rightarrow> True | MultiIndex _ \<Rightarrow> False)"

text \<open>The sort keys, \<open>None\<close> where the guard of \<open>sorted_series\<close> excludes the series.\<close>

fun flat_key :: "'v series \<Rightarrow> train_id option" where
  "flat_key s = (case s_index s of FlatIndex (t # _) \<Rightarrow> Some t | _ \<Rightarrow> None)"

fun multi_key :: "'v series \<Rightarrow> (train_id \<times> 'v) option" where
  "multi_key s = (case s_index s of MultiIndex (p # _) \<Rightarrow> Some p | _ \<Rightarrow> None)"

definition sorted_series :: "('v::linorder) series list \<Rightarrow> error + 'v series list" where
  "sorted_series seq_series =
     (if list_ex (\<lambda>s. index_length (s_index s) = 0) seq_series then Inl IndexError
      else if list_all is_flat seq_series then Inr (sort_key flat_key seq_series)
      else if list_all (\<lambda>s. \<not> is_flat s) seq_series then Inr (sort_key multi_key seq_series)
      else Inl TypeError_Compare)"

text \<open>
  \<^verbatim>\<open>pd.concat(series)\<close> on series whose indexes are all plain or all \<^verbatim>\<open>MultiIndex\<close>, the
  only lists that \<open>sorted_series\<close> returns.
\<close>

definition pd_concat :: "'v series list \<Rightarrow> error + 'v series" where
  "pd_concat seq_series =
     (case seq_series of
        [] \<Rightarrow> Inl ValueError_NoObjects
      | s # _ \<Rightarrow>
          if list_all is_flat seq_series then
            Inr \<lparr>s_name = s_name s,
                 s_index = FlatIndex (concat (map (\<lambda>s. case s_index s of FlatIndex ts \<Rightarrow> ts
                                                          | MultiIndex ps \<Rightarrow> []) seq_series)),
                 s_data = concat (map s_data seq_series)\<rparr>
          else if list_all (\<lambda>s. \<not> is_flat s) seq_series then
            Inr \<lparr>s_name = s_name s,
                 s_index = MultiIndex (concat (map (\<lambda>s. case s_index s of MultiIndex ps \<Rightarrow> ps
                                                           | FlatIndex ts \<Rightarrow> []) seq_series)),
                 s_data = concat (map s_data seq_series)\<rparr>
          else Inl TypeError_Compare)"

definition get_series_result :: "('v::linorder) series list \<Rightarrow> error + 'v series" where
  "get_series_result seq_series =
     (case sorted_series seq_series of
        Inl e \<Rightarrow> Inl e
      | Inr sorted_list \<Rightarrow> pd_concat sorted_list)"

text \<open>
  \<^verbatim>\<open>
  def get_series(self, source, key):
      self._check_field(source, key)
      ...
      if source in self.control_sources: ...
      elif source in self.instrument_sources: ...
      else:
          raise Exception("Unknown source category")
      return pd.concat(sorted(seq_series, key=lambda s: s.index[0]))
  \<close>
\<close>

definition get_series ::
  "(fid \<Rightarrow> ('v::linorder) h5file) \<Rightarrow> DataCollection \<Rightarrow> string \<Rightarrow> string \<Rightarrow>
   (error + 'v series) \<times> DataCollection" where
  "get_series fs self source key =
     (case check_field fs self source key of
        (Inl e, self1) \<Rightarrow> (Inl e, self1)
      | (Inr _, self1) \<Rightarrow>
          if source \<in> set (control_sources self1) then
            (case map_of (source_file_mapping self1) source of
               None \<Rightarrow> (Inl (KeyError source), self1)
             | Some segs \<Rightarrow>
                 (case get_series_control fs (data_path ''CONTROL'' source key)
                         (series_name source key) [] segs of
                    Inl e \<Rightarrow> (Inl e, self1)
                  | Inr seq_series \<Rightarrow> (get_series_result seq_series, self1)))
          else if source \<in> set (instrument_sources self1) then
            (case map_of (source_file_mapping self1) source of
               None \<Rightarrow> (Inl (KeyError source), self1)
             | Some segs \<Rightarrow>
                 (case get_series_instrument fs self1 source key (series_name source key) [] segs of
                    (Inl e, self2) \<Rightarrow> (Inl e, self2)
                  | (Inr seq_series, self2) \<Rightarrow> (get_series_result seq_series, self2)))
          else (Inl Exception_UnknownSourceCategory, self1))"

subsection \<open>Finding the data of a train\<close>

text \<open>
  \<^verbatim>\<open>
  def _find_data(self, source, train_id):
      for trainids, f in self._source_file_mapping[source]:
          ixs = (trainids == train_id).nonzero()[0]
          if ixs.size > 0:
              return f, ixs[0]
      return None, None
  \<close>
\<close>

fun find_segment :: "segment list \<Rightarrow> train_id \<Rightarrow> (train_id list \<times> fid \<times> nat) option" where
  "find_segment [] train_id = None"
| "find_segment ((trainids, f) # rest) train_id =
     (case list_index trainids train_id of
        Some ix \<Rightarrow> Some (trainids, f, ix)
      | None \<Rightarrow> find_segment rest train_id)"

definition find_data :: "DataCollection \<Rightarrow> string \<Rightarrow> train_id \<Rightarrow> error + (fid \<times> nat) option" where
  "find_data self source train_id =
     (case map_of (source_file_mapping self) source of
        None \<Rightarrow> Inl (KeyError source)
      | Some segs \<Rightarrow> Inr (map_option snd (find_segment segs train_id)))"

text \<open>
  \<^verbatim>\<open>
  groups = {k.partition('.')[0] for k in self._keys_for_source(source)}
  for group in groups:
      _, counts = self._get_index(file, source, group)
      if counts[pos] == 0:
          return True
  \<close>
  The result is \<open>True\<close> where the method returns \<open>True\<close>, \<open>False\<close> where the loop ends.
\<close>

fun groups_missing ::
  "(fid \<Rightarrow> 'v h5file) \<Rightarrow> DataCollection \<Rightarrow> fid \<Rightarrow> nat \<Rightarrow> string \<Rightarrow> string list \<Rightarrow>
   (error + bool) \<times> DataCollection" where
  "groups_missing fs self file pos source [] = (Inr False, self)"
| "groups_missing fs self file pos source (grp # rest) =
     (case get_index fs self file source grp of
        (Inl e, self1) \<Rightarrow> (Inl e, self1)
      | (Inr (firsts, counts), self1) \<Rightarrow>
          if pos \<ge> length counts then (Inl IndexError, self1)
          else if counts ! pos = 0 then (Inr True, self1)
          else groups_missing fs self1 file pos source rest)"

text \<open>
  \<^verbatim>\<open>
  for source in self.control_sources:
      file, _ = self._find_data(source, tid)
      if file is None:
          return True
  \<close>
\<close>

fun control_missing :: "DataCollection \<Rightarrow> train_id \<Rightarrow> string list \<Rightarrow> error + bool" where
  "control_missing self tid [] = Inr False"
| "control_missing self tid (source # rest) =
     (case find_data self source tid of
        Inl e \<Rightarrow> Inl e
      | Inr None \<Rightarrow> Inr True
      | Inr (Some _) \<Rightarrow> control_missing self tid rest)"

text \<open>
  \<^verbatim>\<open>
  for source in self.instrument_sources:
      file, pos = self._find_data(source, tid)
      if file is None:
          return True
      groups = ...
  \<close>
\<close>

fun instrument_missing ::
  "(fid \<Rightarrow> 'v h5file) \<Rightarrow> DataCollection \<Rightarrow> train_id \<Rightarrow> string list \<Rightarrow>
   (error + bool) \<times> DataCollection" where
  "instrument_missing fs self tid [] = (Inr False, self)"
| "instrument_missing fs self tid (source # rest) =
     (case find_data self source tid of
        Inl e \<Rightarrow> (Inl e, self)
      | Inr None \<Rightarrow> (Inr True, self)
      | Inr (Some (file, pos)) \<Rightarrow>
          (case keys_for_source fs self source of
             (Inl e, self1) \<Rightarrow> (Inl e, self1)
           | (Inr keys, self1) \<Rightarrow>
               (case pykeys_iter keys of
                  Inl e \<Rightarrow> (Inl e, self1)
                | Inr ks \<Rightarrow>
                    (case groups_missing fs self1 file pos source (remdups (map key_group ks)) of
                       (Inl e, self2) \<Rightarrow> (Inl e, self2)
                     | (Inr True, self2) \<Rightarrow> (Inr True, self2)
                     | (Inr False, self2) \<Rightarrow> instrument_missing fs self2 tid rest))))"

text \<open>
  \<^verbatim>\<open>
  def _check_data_missing(self, tid) -> bool:
      """Return True if a train does not have data for all sources"""
      ...
      return False
  \<close>
\<close>

definition check_data_missing ::
  "(fid \<Rightarrow> 'v h5file) \<Rightarrow> DataCollection \<Rightarrow> train_id \<Rightarrow> (error + bool) \<times> DataCollection" where
  "check_data_missing fs self tid =
     (case control_missing self tid (control_sources self) of
        Inl e \<Rightarrow> (Inl e, self)
      | Inr True \<Rightarrow> (Inr True, self)
      | Inr False \<Rightarrow> instrument_missing fs self tid (instrument_sources self))"

subsection \<open>The train iterator\<close>

text \<open>
  The value of a key in a train: one row of the dataset, or a block of rows.
\<close>

datatype 'v item = Row "'v list" | Rows "'v list list"

type_synonym 'v datasets_cache = "((string \<times> string) \<times> (train_id list \<times> fid \<times> 'v dataset)) list"

record 'v TrainIterator =
  data :: DataCollection
  require_all :: bool
  datasets_cache :: "'v datasets_cache"

text \<open>\<^verbatim>\<open>TrainIterator(data, require_all=require_all)\<close>\<close>

definition new_TrainIterator :: "DataCollection \<Rightarrow> bool \<Rightarrow> 'v TrainIterator" where
  "new_TrainIterator dc req = \<lparr>data = dc, require_all = req, datasets_cache = []\<rparr>"

text \<open>
  \<^verbatim>\<open>
  for trainids, f in self.data._source_file_mapping[source]:
      if tid in trainids:
          ds = f[path]
          self._datasets_cache[(source, key)] = (trainids, f, ds)
          ix = (trainids == tid).nonzero()[0][0]
          return f, ix, ds
  return None, None, None
  \<close>
\<close>

text \<open>
  \<^verbatim>\<open>
  def _find_data(self, source, key, tid):
      try:
          cache_tids, file, ds = self._datasets_cache[(source, key)]
      except KeyError:
          pass
      else:
          ixs = (cache_tids == tid).nonzero()[0]
          if ixs.size > 0:
              return file, ixs[0], ds
      data = self.data
      section = 'CONTROL' if source in data.control_sources else 'INSTRUMENT'
      path = '/{}/{}/{}'.format(section, source, key.replace('.', '/'))
      ...
  \<close>
\<close>

definition it_scan ::
  "(fid \<Rightarrow> 'v h5file) \<Rightarrow> 'v datasets_cache \<Rightarrow> DataCollection \<Rightarrow> string \<Rightarrow> string \<Rightarrow> train_id \<Rightarrow>
   (error + (fid \<times> nat \<times> 'v dataset) option) \<times> 'v datasets_cache" where
  "it_scan fs cache dc source key tid =
     (let section = (if source \<in> set (control_sources dc) then ''CONTROL'' else ''INSTRUMENT'')
      in case map_of (source_file_mapping dc) source of
           None \<Rightarrow> (Inl (KeyError source), cache)
         | Some segs \<Rightarrow>
             (case find_segment segs tid of
                None \<Rightarrow> (Inr None, cache)
              | Some (trainids, f, ix) \<Rightarrow>
                  (case h5_dataset (fs f) (data_path section source key) of
                     None \<Rightarrow> (Inl (KeyError (data_path section source key)), cache)
                   | Some ds \<Rightarrow>
                       (Inr (Some (f, ix, ds)),
                        AList.update (source, key) (trainids, f, ds) cache))))"

definition it_find_data ::
  "(fid \<Rightarrow> 'v h5file) \<Rightarrow> 'v datasets_cache \<Rightarrow> DataCollection \<Rightarrow> string \<Rightarrow> string \<Rightarrow> train_id \<Rightarrow>
   (error + (fid \<times> nat \<times> 'v dataset) option) \<times> 'v datasets_cache" where
  "it_find_data fs cache dc source key tid =
     (case map_of cache (source, key) of
        None \<Rightarrow> it_scan fs cache dc source key tid
      | Some (cache_tids, file, ds) \<Rightarrow>
          (case list_index cache_tids tid of
             Some ix \<Rightarrow> (Inr (Some (file, ix, ds)), cache)
           | None \<Rightarrow> it_scan fs cache dc source key tid))"

text \<open>\<^verbatim>\<open>ds[pos]\<close>: one row, IndexError (of h5py) outside the dataset.\<close>

definition ds_row :: "'v dataset \<Rightarrow> nat \<Rightarrow> error + 'v item" where
  "ds_row ds pos = (if pos < length (ds_rows ds) then Inr (Row (ds_rows ds ! pos)) else Inl IndexError)"

text \<open>
  \<^verbatim>\<open>ds[first:first+count]\<close>: the sum is that of uint64, and the slice is clipped to the
  dataset.
\<close>

definition ds_block :: "'v dataset \<Rightarrow> u64 \<Rightarrow> u64 \<Rightarrow> 'v item" where
  "ds_block ds first cnt =
     Rows (take (unat (first + cnt) - unat first) (drop (unat first) (ds_rows ds)))"

text \<open>
  \<^verbatim>\<open>
  for key in self.data._keys_for_source(source):
      _, pos, ds = self._find_data(source, key, tid)
      if ds is None:
          continue
      source_data[key] = ds[pos]
  \<close>
  The state is the collection (for its caches) and the cache of the iterator.
\<close>

fun control_keys_data ::
  "(fid \<Rightarrow> 'v h5file) \<Rightarrow> DataCollection \<Rightarrow> 'v datasets_cache \<Rightarrow> string \<Rightarrow> train_id \<Rightarrow>
   (string \<times> 'v item) list \<Rightarrow> string list \<Rightarrow>
   (error + (string \<times> 'v item) list) \<times> 'v datasets_cache" where
  "control_keys_data fs dc cache source tid source_data [] = (Inr source_data, cache)"
| "control_keys_data fs dc cache source tid source_data (key # rest) =
     (case it_find_data fs cache dc source key tid of
        (Inl e, cache1) \<Rightarrow> (Inl e, cache1)
      | (Inr None, cache1) \<Rightarrow> control_keys_data fs dc cache1 source tid source_data rest
      | (Inr (Some (file, pos, ds)), cache1) \<Rightarrow>
          (case ds_row ds pos of
             Inl e \<Rightarrow> (Inl e, cache1)
           | Inr v \<Rightarrow>
               control_keys_data fs dc cache1 source tid (AList.update key v source_data) rest))"

text \<open>
  \<^verbatim>\<open>
  for key in self.data._keys_for_source(source):
      file, pos, ds = self._find_data(source, key, tid)
      if ds is None:
          continue
      group = key.partition('.')[0]
      firsts, counts = self.data._get_index(file, source, group)
      first, count = firsts[pos], counts[pos]
      if count == 1:
          source_data[key] = ds[first]
      else:
          source_data[key] = ds[first:first+count]
  \<close>
\<close>

fun instrument_keys_data ::
  "(fid \<Rightarrow> 'v h5file) \<Rightarrow> DataCollection \<Rightarrow> 'v datasets_cache \<Rightarrow> string \<Rightarrow> train_id \<Rightarrow>
   (string \<times> 'v item) list \<Rightarrow> string list \<Rightarrow>
   (error + (string \<times> 'v item) list) \<times> DataCollection \<times> 'v datasets_cache" where
  "instrument_keys_data fs dc cache source tid source_data [] = (Inr source_data, dc, cache)"
| "instrument_keys_data fs dc cache source tid source_data (key # rest) =
     (case it_find_data fs cache dc source key tid of
        (Inl e, cache1) \<Rightarrow> (Inl e, dc, cache1)
      | (Inr None, cache1) \<Rightarrow> instrument_keys_data fs dc cache1 source tid source_data rest
      | (Inr (Some (file, pos, ds)), cache1) \<Rightarrow>
          (case get_index fs dc file source (key_group key) of
             (Inl e, dc1) \<Rightarrow> (Inl e, dc1, cache1)
           | (Inr (firsts, counts), dc1) \<Rightarrow>
               if pos \<ge> length firsts \<or> pos \<ge> length counts then (Inl IndexError, dc1, cache1)
               else if counts ! pos = 1 then
                 (case ds_row ds (unat (firsts ! pos)) of
                    Inl e \<Rightarrow> (Inl e, dc1, cache1)
                  | Inr v \<Rightarrow>
                      instrument_keys_data fs dc1 cache1 source tid
                        (AList.update key v source_data) rest)
               else
                 instrument_keys_data fs dc1 cache1 source tid
                   (AList.update key (ds_block ds (firsts ! pos) (counts ! pos)) source_data)
                   rest))"

text \<open>
  \<^verbatim>\<open>
  def _assemble_data(self, tid):
      res = {}
      for source in self.data.control_sources:
          source_data = res[source] = {}
          for key in self.data._keys_for_source(source): ...
      for source in self.data.instrument_sources:
          source_data = res[source] = {}
          for key in self.data._keys_for_source(source): ...
      return res
  \<close>
\<close>

type_synonym 'v train_data = "(string \<times> (string \<times> 'v item) list) list"

fun assemble_control ::
  "(fid \<Rightarrow> 'v h5file) \<Rightarrow> DataCollection \<Rightarrow> 'v datasets_cache \<Rightarrow> train_id \<Rightarrow> 'v train_data \<Rightarrow>
   string list \<Rightarrow> (error + 'v train_data) \<times> DataCollection \<times> 'v datasets_cache" where
  "assemble_control fs dc cache tid res [] = (Inr res, dc, cache)"
| "assemble_control fs dc cache tid res (source # rest) =
     (case keys_for_source fs dc source of
        (Inl e, dc1) \<Rightarrow> (Inl e, dc1, cache)
      | (Inr keys, dc1) \<Rightarrow>
          (case pykeys_iter keys of
             Inl e \<Rightarrow> (Inl e, dc1, cache)
           | Inr ks \<Rightarrow>
               (case control_keys_data fs dc1 cache source tid [] ks of
                  (Inl e, cache1) \<Rightarrow> (Inl e, dc1, cache1)
                | (Inr source_data, cache1) \<Rightarrow>
                    assemble_control fs dc1 cache1 tid (AList.update source source_data res) rest)))"

fun assemble_instrument ::
  "(fid \<Rightarrow> 'v h5file) \<Rightarrow> DataCollection \<Rightarrow> 'v datasets_cache \<Rightarrow> train_id \<Rightarrow> 'v train_data \<Rightarrow>
   string list \<Rightarrow> (error + 'v train_data) \<times> DataCollection \<times> 'v datasets_cache" where
  "assemble_instrument fs dc cache tid res [] = (Inr res, dc, cache)"
| "assemble_instrument fs dc cache tid res (source # rest) =
     (case keys_for_source fs dc source of
        (Inl e, dc1) \<Rightarrow> (Inl e, dc1, cache)
      | (Inr keys, dc1) \<Rightarrow>
          (case pykeys_iter keys of
             Inl e \<Rightarrow> (Inl e, dc1, cache)
           | Inr ks \<Rightarrow>
               (case instrument_keys_data fs dc1 cache source tid [] ks of
                  (Inl e, dc2, cache1) \<Rightarrow> (Inl e, dc2, cache1)
                | (Inr source_data, dc2, cache1) \<Rightarrow>
                    assemble_instrument fs dc2 cache1 tid (AList.update source source_data res)
                      rest)))"

definition assemble_data ::
  "(fid \<Rightarrow> 'v h5file) \<Rightarrow> DataCollection \<Rightarrow> 'v datasets_cache \<Rightarrow> train_id \<Rightarrow>
   (error + 'v train_data) \<times> DataCollection \<times> 'v datasets_cache" where
  "assemble_data fs dc cache tid =
     (case assemble_control fs dc cache tid [] (control_sources dc) of
        (Inl e, dc1, cache1) \<Rightarrow> (Inl e, dc1, cache1)
      | (Inr res, dc1, cache1) \<Rightarrow> assemble_instrument fs dc1 cache1 tid res (instrument_sources dc1))"

text \<open>
  \<^verbatim>\<open>
  def __iter__(self):
      print(self.data.train_ids)
      for tid in self.data.train_ids:
          if self.require_all and self.data._check_data_missing(tid):
              print("Skipped", tid)
              continue
          yield tid, self._assemble_data(tid)
  \<close>
  The generator is modelled by the list of what it yields, with the exception that ends
  it, if one does.
\<close>

fun iter_trains ::
  "(fid \<Rightarrow> 'v h5file) \<Rightarrow> 'v TrainIterator \<Rightarrow> train_id list \<Rightarrow>
   (train_id \<times> 'v train_data) list \<times> error option" where
  "iter_trains fs it [] = ([], None)"
| "iter_trains fs it (tid # rest) =
     (case (if require_all it then check_data_missing fs (data it) tid
            else (Inr False, data it)) of
        (Inl e, dc1) \<Rightarrow> ([], Some e)
      | (Inr True, dc1) \<Rightarrow> iter_trains fs (it\<lparr>data := dc1\<rparr>) rest
      | (Inr False, dc1) \<Rightarrow>
          (case assemble_data fs dc1 (datasets_cache it) tid of
             (Inl e, dc2, cache1) \<Rightarrow> ([], Some e)
           | (Inr res, dc2, cache1) \<Rightarrow>
               (case iter_trains fs (it\<lparr>data := dc2, datasets_cache := cache1\<rparr>) rest of
                  (yielded, err) \<Rightarrow> ((tid, res) # yielded, err))))"

definition TrainIterator_iter ::
  "(fid \<Rightarrow> 'v h5file) \<Rightarrow> 'v TrainIterator \<Rightarrow> (train_id \<times> 'v train_data) list \<times> error option" where
  "TrainIterator_iter fs it = iter_trains fs it (train_ids (data it))"

subsection \<open>A small run\<close>

text \<open>
  Two files of one run.  Both declare the control source \<open>X\<close>, with the key
  \<open>v.value\<close>, and the instrument sources \<open>Y:o\<close> and \<open>Z:o\<close>, each with the key \<open>im.d\<close> in
  the group \<open>im\<close>; \<open>Z:o\<close> has no record in either file.
  The first file holds the trains 10, 11, 12 (and an unused slot), the second the trains
  13, 14.
\<close>

definition ex_file_a :: "int h5file" where
  "ex_file_a =
     \<lparr>INDEX_trainId = [10, 11, 12, 0],
      METADATA_dataSourceId = [''CONTROL/X'', ''INSTRUMENT/Y:o/im'', [], ''INSTRUMENT/Z:o/im''],
      h5_groups = [],
      h5_datasets =
        [(''/CONTROL/X/v/value'', \<lparr>ds_rows = [[1], [2], [3], [0]], ds_tail = []\<rparr>),
         (''/INSTRUMENT/Y:o/im/d'', \<lparr>ds_rows = [[5], [6], [7]], ds_tail = []\<rparr>),
         (''/INSTRUMENT/Z:o/im/d'', \<lparr>ds_rows = [], ds_tail = [2]\<rparr>)],
      h5_index =
        [(''/INDEX/Y:o/im'',
          \<lparr>ix_first = [0, 0, 2], ix_count = Some [0, 2, 1], ix_last = None, ix_status = None\<rparr>),
         (''/INDEX/Z:o/im'',
          \<lparr>ix_first = [0, 0, 0], ix_count = None, ix_last = Some [0, 0, 0],
             ix_status = Some [0, 0, 0]\<rparr>)]\<rparr>"

definition ex_file_b :: "int h5file" where
  "ex_file_b =
     \<lparr>INDEX_trainId = [13, 14],
      METADATA_dataSourceId = [''CONTROL/X'', ''INSTRUMENT/Y:o/im'', ''INSTRUMENT/Z:o/im''],
      h5_groups = [],
      h5_datasets =
        [(''/CONTROL/X/v/value'', \<lparr>ds_rows = [[4], [5]], ds_tail = []\<rparr>),
         (''/INSTRUMENT/Y:o/im/d'', \<lparr>ds_rows = [[8], [9]], ds_tail = []\<rparr>),
         (''/INSTRUMENT/Z:o/im/d'', \<lparr>ds_rows = [], ds_tail = [2]\<rparr>)],
      h5_index =
        [(''/INDEX/Y:o/im'',
          \<lparr>ix_first = [0, 1], ix_count = Some [1, 1], ix_last = None, ix_status = None\<rparr>),
         (''/INDEX/Z:o/im'',
          \<lparr>ix_first = [0, 0], ix_count = Some [0, 0], ix_last = None, ix_status = None\<rparr>)]\<rparr>"

text \<open>A third file, with the trains 13, 14 as well, that declares the control source only.\<close>

definition ex_file_c :: "int h5file" where
  "ex_file_c =
     \<lparr>INDEX_trainId = [13, 14],
      METADATA_dataSourceId = [''CONTROL/X''],
      h5_groups = [],
      h5_datasets = [(''/CONTROL/X/v/value'', \<lparr>ds_rows = [[4], [5]], ds_tail = []\<rparr>)],
      h5_index = []\<rparr>"

definition ex_fs :: "fid \<Rightarrow> int h5file" where
  "ex_fs f = (if f = 0 then ex_file_a else if f = 1 then ex_file_b else ex_file_c)"

text \<open>The collection after \<^verbatim>\<open>add_file\<close> of the first file, then of the second.\<close>

definition ex_run :: DataCollection where
  "ex_run =
     \<lparr>instrument_sources = [''Z:o'', ''Y:o''],
      control_sources = [''X''],
      train_ids = [10, 11, 12, 13, 14],
      source_file_mapping =
        [(''Z:o'', [([10, 11, 12], 0), ([13, 14], 1)]),
         (''Y:o'', [([10, 11, 12], 0), ([13, 14], 1)]),
         (''X'', [([10, 11, 12], 0), ([13, 14], 1)])],
      index_cache = [],
      source_keys = []\<rparr>"

text \<open>The collection after \<^verbatim>\<open>add_file\<close> of the second file, then of the first.\<close>

definition ex_run_swapped :: DataCollection where
  "ex_run_swapped =
     \<lparr>instrument_sources = [''Z:o'', ''Y:o''],
      control_sources = [''X''],
      train_ids = [10, 11, 12, 13, 14],
      source_file_mapping =
        [(''Z:o'', [([13, 14], 1), ([10, 11, 12], 0)]),
         (''Y:o'', [([13, 14], 1), ([10, 11, 12], 0)]),
         (''X'', [([13, 14], 1), ([10, 11, 12], 0)])],
      index_cache = [],
      source_keys = []\<rparr>"

text \<open>
  \<^verbatim>\<open>ex_run.select('X', 'v')\<close> and \<^verbatim>\<open>ex_run.select_trains(by_index[0:1])\<close>.
\<close>

definition ex_sel_X :: DataCollection where
  "ex_sel_X =
     \<lparr>instrument_sources = [], control_sources = [''X''],
      train_ids = [10, 11, 12, 13, 14],
      source_file_mapping = [(''X'', [([10, 11, 12], 0), ([13, 14], 1)])],
      index_cache = [],
      source_keys = [(''X'', KeySet [''v.value''])]\<rparr>"

definition ex_first_train :: DataCollection where
  "ex_first_train =
     \<lparr>instrument_sources = [''Z:o'', ''Y:o''], control_sources = [''X''],
      train_ids = [10],
      source_file_mapping =
        [(''Z:o'', [([10, 11, 12], 0)]), (''Y:o'', [([10, 11, 12], 0)]),
         (''X'', [([10, 11, 12], 0)])],
      index_cache = [],
      source_keys = []\<rparr>"

text \<open>A collection whose only source has no segment, with a stored key set.\<close>

definition ex_no_segments :: DataCollection where
  "ex_no_segments =
     \<lparr>instrument_sources = [''Z:o''], control_sources = [], train_ids = [],
      source_file_mapping = [(''Z:o'', [])], index_cache = [],
      source_keys = [(''Z:o'', KeySet [''im.d''])]\<rparr>"


text \<open>
  \<^verbatim>\<open>ex_run.select([('X', '*'), ('Y:o', '*')])\<close>, and the same selection on the
  collection built from the first and the third file, where \<open>Y:o\<close> has no file for the
  trains 13 and 14.
\<close>

definition ex_sel_XY :: DataCollection where
  "ex_sel_XY =
     \<lparr>instrument_sources = [''Y:o''], control_sources = [''X''],
      train_ids = [10, 11, 12, 13, 14],
      source_file_mapping =
        [(''Y:o'', [([10, 11, 12], 0), ([13, 14], 1)]),
         (''X'', [([10, 11, 12], 0), ([13, 14], 1)])],
      index_cache = [], source_keys = []\<rparr>"

definition ex_gap_XY :: DataCollection where
  "ex_gap_XY =
     \<lparr>instrument_sources = [''Y:o''], control_sources = [''X''],
      train_ids = [10, 11, 12, 13, 14],
      source_file_mapping =
        [(''Y:o'', [([10, 11, 12], 0)]),
         (''X'', [([10, 11, 12], 0), ([13, 14], 2)])],
      index_cache = [], source_keys = []\<rparr>"
subsection \<open>Predicates of the properties\<close>

text \<open>
  The run-level train-ID list is the sorted, de-duplicated union of the train IDs of all
  segments of the registry.
\<close>

definition run_train_ids_ok :: "DataCollection \<Rightarrow> bool" where
  "run_train_ids_ok self \<longleftrightarrow>
     train_ids self = py_sorted_set (registry_train_ids (source_file_mapping self))"

text \<open>
  \<open>self1\<close> is \<open>self\<close> but for its \<^verbatim>\<open>_source_keys\<close>, where every source either has the
  entry it had, or had none and now has the keys that \<^verbatim>\<open>_keys_for_source\<close> returns for
  it.
\<close>

definition keys_cached :: "(fid \<Rightarrow> 'v h5file) \<Rightarrow> DataCollection \<Rightarrow> DataCollection \<Rightarrow> bool" where
  "keys_cached fs self self1 \<longleftrightarrow>
     self1 = self\<lparr>source_keys := source_keys self1\<rparr> \<and>
     (\<forall>s. map_of (source_keys self1) s = map_of (source_keys self) s \<or>
          (map_of (source_keys self) s = None \<and>
           fst (keys_for_source fs self s) = Inr (map_of (source_keys self1) s)))"

text \<open>
  The keys that \<^verbatim>\<open>_select_glob\<close> adds for one source, read on the receiver as it is
  before the call.
\<close>

definition glob_hits ::
  "(fid \<Rightarrow> 'v h5file) \<Rightarrow> DataCollection \<Rightarrow> atom list \<Rightarrow> atom list \<Rightarrow> atom list \<Rightarrow> string \<Rightarrow>
   string \<Rightarrow> string set" where
  "glob_hits fs self source_re key_re ctrl_re key_glob s =
     (if \<not> rmatch source_re s then {}
      else if key_glob = ''*'' then {''*''}
      else {k. \<exists>keys ks. fst (keys_for_source fs self s) = Inr keys \<and> pykeys_iter keys = Inr ks \<and>
                k \<in> set ks \<and>
                rmatch (if s \<in> set (control_sources self) then ctrl_re else key_re) k})"

text \<open>
  The index of a group of a file as \<^verbatim>\<open>_get_index\<close> returns it: the cached one, else the
  one read from the file.  \<open>index_cached base a\<close>: \<open>a\<close> is \<open>base\<close> but for its index cache,
  and both give the same index everywhere.
\<close>

definition index_of ::
  "(fid \<Rightarrow> 'v h5file) \<Rightarrow> DataCollection \<Rightarrow> fid \<Rightarrow> string \<Rightarrow> string \<Rightarrow> error + (u64 list \<times> u64 list)" where
  "index_of fs self f source grp =
     (case map_of (index_cache self) (f, source, grp) of
        Some ix \<Rightarrow> Inr ix
      | None \<Rightarrow> read_index (fs f) source grp)"

definition index_cached :: "(fid \<Rightarrow> 'v h5file) \<Rightarrow> DataCollection \<Rightarrow> DataCollection \<Rightarrow> bool" where
  "index_cached fs base a \<longleftrightarrow>
     a = base\<lparr>index_cache := index_cache a\<rparr> \<and>
     (\<forall>f s g. index_of fs a f s g = index_of fs base f s g)"


text \<open>
  The conditions on a train ID in the iteration over trains.  A source is absent for a
  train when no segment of the source contains the train ID.  A group has the count 0
  for a train when the index of the group, in the file of the segment that contains the
  train ID, has the count 0 at the position of the train; an instrument source has such
  a group when it is the group of one of the keys of the source.
\<close>

definition source_absent :: "DataCollection \<Rightarrow> train_id \<Rightarrow> string \<Rightarrow> bool" where
  "source_absent self tid s \<longleftrightarrow> find_data self s tid = Inr None"

definition count_zero ::
  "(fid \<Rightarrow> 'v h5file) \<Rightarrow> DataCollection \<Rightarrow> fid \<Rightarrow> nat \<Rightarrow> string \<Rightarrow> string \<Rightarrow> bool" where
  "count_zero fs self fil pos s g =
     (case index_of fs self fil s g of
        Inl e \<Rightarrow> False
      | Inr (firsts, counts) \<Rightarrow> pos < length counts \<and> counts ! pos = 0)"

definition group_count_zero ::
  "(fid \<Rightarrow> 'v h5file) \<Rightarrow> DataCollection \<Rightarrow> train_id \<Rightarrow> string \<Rightarrow> bool" where
  "group_count_zero fs self tid s =
     (case find_data self s tid of
        Inr (Some (fil, pos)) \<Rightarrow>
          (case fst (keys_for_source fs self s) of
             Inr keys \<Rightarrow>
               (case pykeys_iter keys of
                  Inr ks \<Rightarrow> list_ex (count_zero fs self fil pos s) (map key_group ks)
                | Inl e \<Rightarrow> False)
           | Inl e \<Rightarrow> False)
      | _ \<Rightarrow> False)"

text \<open>
  A train is missing when a control source is absent for it, or an instrument source is
  absent for it or has a group with the count 0 for it.
\<close>

definition train_missing :: "(fid \<Rightarrow> 'v h5file) \<Rightarrow> DataCollection \<Rightarrow> train_id \<Rightarrow> bool" where
  "train_missing fs self tid \<longleftrightarrow>
     list_ex (source_absent self tid) (control_sources self) \<or>
     list_ex (\<lambda>s. source_absent self tid s \<or> group_count_zero fs self tid s)
       (instrument_sources self)"

text \<open>
  \<open>a\<close> is \<open>self\<close> but for its two caches, and the caches of \<open>a\<close> give the keys of
  every source and the index of every group as those of \<open>self\<close> do.
\<close>

definition caches_agree :: "(fid \<Rightarrow> 'v h5file) \<Rightarrow> DataCollection \<Rightarrow> DataCollection \<Rightarrow> bool" where
  "caches_agree fs self a \<longleftrightarrow>
     instrument_sources a = instrument_sources self \<and>
     control_sources a = control_sources self \<and>
     train_ids a = train_ids self \<and>
     source_file_mapping a = source_file_mapping self \<and>
     (\<forall>s. fst (keys_for_source fs a s) = fst (keys_for_source fs self s)) \<and>
     (\<forall>f s g. index_of fs a f s g = index_of fs self f s g)"

text \<open>
  Every entry of the dataset cache of the iterator, for a source and a key, holds a
  segment of that source.
\<close>

definition cache_ok :: "DataCollection \<Rightarrow> 'v datasets_cache \<Rightarrow> bool" where
  "cache_ok self cache \<longleftrightarrow>
     (\<forall>s k tids f ds. map_of cache (s, k) = Some (tids, f, ds) \<longrightarrow>
        (\<exists>segs. map_of (source_file_mapping self) s = Some segs \<and> (tids, f) \<in> set segs))"

section \<open>Properties\<close>

subsection \<open>Expansion of train IDs\<close>

lemma count_list_replicate_other:
  "count_list (replicate n x) y = (if x = y then n else 0)"
  by (induction n) auto

lemma set_concat_replicate_subset:
  "set (concat (map2 (\<lambda>t n. replicate n t) ts ns)) \<subseteq> set ts"
  by (induction ts ns rule: list_induct2') auto

lemma rederive_concat_replicate:
  "distinct ts \<Longrightarrow> length ts = length ns \<Longrightarrow>
   map (count_list (concat (map2 (\<lambda>t n. replicate n t) ts ns))) ts = ns"
proof (induction ts arbitrary: ns)
  case Nil
  then show ?case by simp
next
  case (Cons t ts)
  then obtain n ns' where ns: "ns = n # ns'" by (cases ns) auto
  let ?rest = "concat (map2 (\<lambda>t n. replicate n t) ts ns')"
  have "t \<notin> set ?rest"
    using set_concat_replicate_subset [of ts ns'] Cons.prems(1) by (meson distinct.simps(2) subsetD)
  then have c0: "count_list ?rest t = 0" by (simp add: count_list_0_iff)
  have tl: "map (count_list (replicate n t @ ?rest)) ts = map (count_list ?rest) ts"
    using Cons.prems(1) by (auto simp: count_list_replicate_other)
  have rest: "map (count_list ?rest) ts = ns'" using Cons ns by simp
  have hd: "count_list (replicate n t @ ?rest) t = n"
    using c0 by (simp add: count_list_replicate_other)
  have "map (count_list (concat (map2 (\<lambda>t n. replicate n t) (t # ts) ns))) (t # ts) =
        count_list (replicate n t @ ?rest) t # map (count_list (replicate n t @ ?rest)) ts"
    by (simp add: ns)
  also have "\<dots> = n # ns'" by (simp only: hd tl rest)
  finally show ?case by (simp only: ns)
qed

lemma nat_sint_nonneg: "0 \<le> sint (c::64 word) \<Longrightarrow> nat (sint c) = unat c"
proof -
  assume a: "0 \<le> sint c"
  have s: "sint c = signed_take_bit 63 (uint c)" by (simp add: sint_uint)
  have u: "uint c < 2 ^ 64" using uint_bounded [of c] by simp
  have "uint c < 2 ^ 63"
  proof (rule ccontr)
    assume "\<not> uint c < 2 ^ 63"
    then have "2 ^ 63 \<le> uint c" by simp
    then have "signed_take_bit 63 (uint c) \<le> uint c - 2 ^ Suc 63"
      by (rule signed_take_bit_int_less_eq)
    then have "sint c \<le> uint c - 2 ^ 64" by (simp only: s) simp
    with u a show False by linarith
  qed
  moreover have "- (2 ^ 63) \<le> uint c"
  proof -
    have "- (2 ^ 63) \<le> (0::int)" by simp
    also have "0 \<le> uint c" by simp
    finally show ?thesis .
  qed
  ultimately have "signed_take_bit 63 (uint c) = uint c"
    by (simp only: signed_take_bit_int_eq_self)
  then have "sint c = uint c" by (simp only: s)
  then show ?thesis by (simp only: unat_eq_nat_uint)
qed

lemma map2_replicate_nat_sint:
  "list_all (\<lambda>c. 0 \<le> sint c) (cs :: u64 list) \<Longrightarrow>
   map2 (\<lambda>x r. replicate (nat r) x) ts (map sint cs) =
   map2 (\<lambda>t c. replicate (unat c) t) ts cs"
  by (induction ts cs rule: list_induct2') (simp_all add: nat_sint_nonneg)

lemma map2_replicate_unat:
  "map2 (\<lambda>t c. replicate (unat c) t) ts cs = map2 (\<lambda>t n. replicate n t) ts (map unat cs)"
  by (induction ts cs rule: list_induct2') simp_all

lemma sum_list_sint:
  "list_all (\<lambda>c. 0 \<le> sint c) (cs :: u64 list) \<Longrightarrow>
   sum_list (map sint cs) = int (sum_list (map unat cs))"
proof (induction cs)
  case Nil
  then show ?case by simp
next
  case (Cons c cs)
  then have "0 \<le> sint c" by simp
  then have "sint c = int (unat c)" using nat_sint_nonneg [of c] by linarith
  with Cons show ?case by simp
qed

text \<open>An expansion that numpy refuses: one train with \<open>2^62\<close> records.\<close>

lemma expand_trainids_too_big:
  "expand_trainids [] [4611686018427387904] [10] = Inl ValueError_TooBig"
  by code_simp

text \<open>
  Claim C4, amended.  For counts that are non-negative after the cast to the signed
  index type and add up, over the truncated array, to fewer than \<open>2^60\<close> labels (numpy
  refuses a larger array of 8-byte train IDs), \<open>expand_trainids\<close> truncates the counts
  and the train IDs to the shorter of the two lengths and repeats each train ID as many
  times as its count (a count of 0 contributes no label), for every array of train IDs.
  When the truncated train IDs are pairwise distinct, counting the labels of each train
  ID gives back the truncated counts.
\<close>

theorem expand_trainids_rederive:
  assumes n: "n = min (length counts) (length tids)"
    and nonneg: "list_all (\<lambda>c. 0 \<le> sint c) (take n counts)"
    and size: "sum_list (map unat (take n counts)) < 2 ^ 60"
  shows "expand_trainids first counts tids =
           Inr (concat (map2 (\<lambda>t c. replicate (unat c) t) (take n tids) (take n counts))) \<and>
         (distinct (take n tids) \<longrightarrow>
            spec_rederive_counts (take n tids)
              (concat (map2 (\<lambda>t c. replicate (unat c) t) (take n tids) (take n counts))) =
            map unat (take n counts))"
proof (intro conjI impI)
  let ?ts = "take n tids" and ?cs = "take n counts"
  have len: "length ?ts = length ?cs" by (simp add: n min_def)
  have noneg: "\<not> list_ex (\<lambda>r. r < 0) (map sint ?cs)"
    using nonneg by (auto simp: list_ex_iff list_all_iff)
  have "int (sum_list (map unat ?cs)) < int (2 ^ 60)"
    using size by (simp only: of_nat_less_iff)
  then have "sum_list (map sint ?cs) < 2 ^ 60"
    by (simp only: sum_list_sint [OF nonneg]) simp
  then have fits: "\<not> 9223372036854775807 < 8 * sum_list (map sint ?cs)" by simp
  have "expand_trainids first counts tids = np_repeat 8 ?ts (map sint ?cs)"
    by (simp add: expand_trainids_def astype_intp_def Let_def take_map n)
  also have "\<dots> = Inr (concat (map2 (\<lambda>x r. replicate (nat r) x) ?ts (map sint ?cs)))"
    unfolding np_repeat_def using noneg len fits by simp
  finally show "expand_trainids first counts tids =
        Inr (concat (map2 (\<lambda>t c. replicate (unat c) t) ?ts ?cs))"
    by (simp only: map2_replicate_nat_sint [OF nonneg])
  assume dist: "distinct ?ts"
  show "spec_rederive_counts ?ts (concat (map2 (\<lambda>t c. replicate (unat c) t) ?ts ?cs)) = map unat ?cs"
    unfolding spec_rederive_counts_def map2_replicate_unat
    by (rule rederive_concat_replicate [OF dist]) (use len in simp)
qed

text \<open>
  The theorem at the counts \<open>[0, 2, 1, 7]\<close> and the train IDs \<open>[10, 11, 12]\<close>, and, for
  its first part, at the counts \<open>[1, 2]\<close> and the train IDs \<open>[5, 5]\<close>.
\<close>

theorem expand_trainids_rederive_witness:
  "expand_trainids [] [0, 2, 1, 7] [10, 11, 12] = Inr [11, 11, 12] \<and>
   spec_rederive_counts [10, 11, 12] [11, 11, 12] = [0, 2, 1] \<and>
   expand_trainids [] [1, 2] [5, 5] = Inr [5, 5, 5]"
proof -
  have n: "(3::nat) = min (length [0, 2, 1, 7 :: u64]) (length [10, 11, 12 :: int])" by simp
  have tc: "take 3 [0, 2, 1, 7 :: u64] = [0, 2, 1]" by code_simp
  have tt: "take 3 [10, 11, 12 :: int] = [10, 11, 12]" by code_simp
  have nonneg: "list_all (\<lambda>c. 0 \<le> sint c) (take 3 [0, 2, 1, 7 :: u64])" by code_simp
  have size: "sum_list (map unat (take 3 [0, 2, 1, 7 :: u64])) < 2 ^ 60" by simp
  have dist: "distinct (take 3 [10, 11, 12 :: int])" by code_simp
  note t = expand_trainids_rederive [OF n nonneg size, of "[]"]
  have labels: "concat (map2 (\<lambda>t c. replicate (unat c) t)
                  [10, 11, 12 :: int] [0, 2, 1 :: u64]) = [11, 11, 12]"
    by code_simp
  have u: "map unat [0, 2, 1 :: u64] = [0, 2, 1]" by code_simp
  have a: "expand_trainids [] [0, 2, 1, 7] [10, 11, 12] = Inr [11, 11, 12]"
    using t [THEN conjunct1] by (simp only: tc tt labels)
  have b: "spec_rederive_counts [10, 11, 12] [11, 11, 12] = [0, 2, 1]"
    using t [THEN conjunct2, THEN mp, OF dist] by (simp only: tc tt labels u)
  have n2: "(2::nat) = min (length [1, 2 :: u64]) (length [5, 5 :: int])" by simp
  have nonneg2: "list_all (\<lambda>c. 0 \<le> sint c) (take 2 [1, 2 :: u64])" by code_simp
  have size2: "sum_list (map unat (take 2 [1, 2 :: u64])) < 2 ^ 60" by simp
  have labels2: "concat (map2 (\<lambda>t c. replicate (unat c) t)
                  (take 2 [5, 5 :: int]) (take 2 [1, 2 :: u64])) = [5, 5, 5]"
    by code_simp
  have c: "expand_trainids [] [1, 2] [5, 5] = Inr [5, 5, 5]"
    using expand_trainids_rederive [OF n2 nonneg2 size2, of "[]", THEN conjunct1]
    by (simp only: labels2)
  from a b c show ?thesis by (intro conjI)
qed

text \<open>
  Claim C4 as stated, for every train-ID array, fails when a train ID occurs twice: the
  counts \<open>[1, 2]\<close> and \<open>[2, 1]\<close> expand the IDs \<open>[5, 5]\<close> to the same labels, and
  counting labels gives neither.
\<close>

theorem expand_trainids_duplicate_ids_counterexample:
  "expand_trainids [] [1, 2] [5, 5] = Inr [5, 5, 5] \<and>
   expand_trainids [] [2, 1] [5, 5] = Inr [5, 5, 5] \<and>
   spec_rederive_counts [5, 5] [5, 5, 5] \<noteq> [1, 2]"
  by code_simp

subsection \<open>Train ID to slice index\<close>

lemma list_index_Some: "list_index xs x = Some i \<Longrightarrow> i < length xs \<and> xs ! i = x \<and> x \<notin> set (take i xs)"
  by (induction xs arbitrary: i) (auto split: if_splits)

lemma list_index_None: "list_index xs x = None \<longleftrightarrow> x \<notin> set xs"
  by (induction xs) auto

lemma first_nonzero_Some:
  "first_nonzero P xs = Some i \<Longrightarrow> i < length xs \<and> P (xs ! i) \<and> (\<forall>j<i. \<not> P (xs ! j))"
  by (induction xs arbitrary: i) (auto split: if_splits simp: less_Suc_eq_0_disj)

lemma first_nonzero_None: "first_nonzero P xs = None \<longleftrightarrow> (\<forall>x\<in>set xs. \<not> P x)"
  by (induction xs) auto


text \<open>
  Claim C2.  An endpoint strictly inside the known span but absent from it should
  resolve to the position of the first known train ID greater than it.  For the
  endpoint 11 on the train IDs \<open>[10, 12]\<close>, given as a Python int, the code raises
  TypeError, as start and as stop; given as a numpy scalar it resolves to position 1.
\<close>

theorem tid_to_slice_ix_gap_python_int:
  "tid_to_slice_ix (Some (PyInt 11)) [10, 12] False = Inl TypeError_Compare \<and>
   tid_to_slice_ix (Some (PyInt 11)) [10, 12] True = Inl TypeError_Compare \<and>
   tid_to_slice_ix (Some (NpInt 11)) [10, 12] False = Inr (Some 1)"
  by (simp add: tid_to_slice_ix_def)


subsection \<open>Selection\<close>

text \<open>
  Claim C10.  \<^verbatim>\<open>select\<close> with an argument that is no string, set, dict or list does not
  raise: the normalised selection is the empty set, and the result is a collection with
  no sources, no segments, no keys and no train IDs.  The receiver is unchanged.
\<close>

theorem select_unknown_type:
  "select fs self SelOther key_glob = (Inr empty_collection, self)"
  by (simp add: select_def empty_collection_def py_sorted_set_def registry_train_ids_def
      select_keys_def List.map_filter_simps case_prod_unfold)

lemma keys_cached_refl: "keys_cached fs self self"
  by (simp add: keys_cached_def)

lemma keys_cached_fields:
  "keys_cached fs self a \<Longrightarrow>
   instrument_sources a = instrument_sources self \<and> control_sources a = control_sources self \<and>
   train_ids a = train_ids self \<and> source_file_mapping a = source_file_mapping self \<and>
   index_cache a = index_cache self \<and> all_sources a = all_sources self"
  unfolding keys_cached_def all_sources_def
  by (metis DataCollection.select_convs(1,2,3,4,5) DataCollection.surjective DataCollection.update_convs(6))

lemma keys_for_source_unchanged_or_cached:
  assumes "keys_for_source fs a s = (r, b)"
  shows "b = a \<or> (map_of (source_keys a) s = None \<and>
          (\<exists>ks. r = Inr (Some (KeySet ks)) \<and>
                b = a\<lparr>source_keys := AList.update s (KeySet ks) (source_keys a)\<rparr>))"
  using assms unfolding keys_for_source_def
  by (auto simp: Let_def split: if_splits option.splits list.splits prod.splits)

lemma keys_for_source_cong:
  assumes "all_sources a = all_sources self" "control_sources a = control_sources self"
    "source_file_mapping a = source_file_mapping self"
    "map_of (source_keys a) s = None" "map_of (source_keys self) s = None"
  shows "fst (keys_for_source fs a s) = fst (keys_for_source fs self s)"
  using assms unfolding keys_for_source_def
  by (auto simp: Let_def split: if_splits option.splits list.splits prod.splits)

lemma keys_for_source_cached:
  assumes c: "keys_cached fs self a" and k: "keys_for_source fs a s = (r, b)"
  shows "keys_cached fs self b"
proof -
  from keys_for_source_unchanged_or_cached [OF k]
  consider "b = a"
    | ks where "map_of (source_keys a) s = None" "r = Inr (Some (KeySet ks))"
        "b = a\<lparr>source_keys := AList.update s (KeySet ks) (source_keys a)\<rparr>"
    by blast
  then show ?thesis
  proof cases
    case 1
    with c show ?thesis by simp
  next
    case 2
    note f = keys_cached_fields [OF c]
    from c 2(1) have n: "map_of (source_keys self) s = None"
      unfolding keys_cached_def by metis
    have "fst (keys_for_source fs a s) = fst (keys_for_source fs self s)"
      using f 2(1) n by (intro keys_for_source_cong) simp_all
    with k 2(2) have e: "fst (keys_for_source fs self s) = Inr (Some (KeySet ks))" by simp
    have a: "a = self\<lparr>source_keys := source_keys a\<rparr>" using c unfolding keys_cached_def by blast
    have b: "b = self\<lparr>source_keys := source_keys b\<rparr>"
      by (subst 2(3), subst a) (simp add: 2(3))
    show ?thesis
      unfolding keys_cached_def
    proof (intro conjI allI)
      show "b = self\<lparr>source_keys := source_keys b\<rparr>" by (rule b)
    next
      fix s'
      show "map_of (source_keys b) s' = map_of (source_keys self) s' \<or>
            map_of (source_keys self) s' = None \<and>
            fst (keys_for_source fs self s') = Inr (map_of (source_keys b) s')"
      proof (cases "s' = s")
        case True
        with n e 2(3) show ?thesis by (simp add: update_conv')
      next
        case False
        with c 2(3) show ?thesis unfolding keys_cached_def by (simp add: update_conv')
      qed
    qed
  qed
qed


lemma keys_cached_trans_step:
  "keys_cached fs self a \<Longrightarrow> keys_for_source fs a s = (r, b) \<Longrightarrow> keys_cached fs self b"
  by (rule keys_for_source_cached)

lemma select_glob_loop_cached:
  assumes "keys_cached fs self a"
    "select_glob_loop fs sre kre cre kg a matched srcs = (r, b)"
  shows "keys_cached fs self b"
  using assms
proof (induction srcs arbitrary: a matched)
  case Nil
  then show ?case by simp
next
  case (Cons s srcs)
  show ?case
  proof (cases "\<not> rmatch sre s \<or> kg = ''*''")
    case True
    with Cons show ?thesis by (auto split: if_splits)
  next
    case False
    obtain r1 a1 where k: "keys_for_source fs a s = (r1, a1)" by (cases "keys_for_source fs a s")
    have c1: "keys_cached fs self a1" by (rule keys_for_source_cached [OF Cons.prems(1) k])
    show ?thesis
    proof (cases r1)
      case (Inl e)
      with Cons.prems(2) False k c1 show ?thesis by (simp add: Let_def)
    next
      case (Inr keys)
      show ?thesis
      proof (cases "pykeys_iter keys")
        case (Inl e)
        with Cons.prems(2) False k c1 Inr show ?thesis by (simp add: Let_def)
      next
        case (Inr ks)
        with Cons.prems(2) False k \<open>r1 = Inr keys\<close>
        have "select_glob_loop fs sre kre cre kg a1
                (fold (\<lambda>key m. List.insert (s, key) m)
                   (filter (rmatch (if s \<in> set (control_sources a) then cre else kre)) ks) matched)
                srcs = (r, b)"
          by (simp add: Let_def)
        from Cons.IH [OF c1 this] show ?thesis .
      qed
    qed
  qed
qed

lemma select_glob_cached:
  assumes "keys_cached fs self a" "select_glob fs a sg kg = (r, b)"
  shows "keys_cached fs self b"
proof -
  have "b = a \<or> (\<exists>sre kre cre m r'. select_glob_loop fs sre kre cre kg a m (all_sources a) = (r', b))"
    using assms(2) unfolding select_glob_def
    by (auto split: sum.splits prod.splits if_splits)
  with assms(1) show ?thesis using select_glob_loop_cached by blast
qed

lemma expand_list_cached:
  assumes "keys_cached fs self a" "expand_list fs a res l = (r, b)"
  shows "keys_cached fs self b"
  using assms
proof (induction l arbitrary: a res)
  case Nil
  then show ?case by simp
next
  case (Cons p l)
  obtain sg kg where p: "p = (sg, kg)" by (cases p)
  obtain r1 a1 where g: "select_glob fs a sg kg = (r1, a1)" by (cases "select_glob fs a sg kg")
  have c1: "keys_cached fs self a1" by (rule select_glob_cached [OF Cons.prems(1) g])
  show ?case
  proof (cases r1)
    case (Inl e)
    with Cons.prems(2) p g c1 show ?thesis by simp
  next
    case (Inr m)
    show ?thesis
    proof (cases "m = []")
      case True
      with Cons.prems(2) p g c1 Inr show ?thesis by simp
    next
      case False
      with Cons.prems(2) p g Inr have "expand_list fs a1 (fold List.insert m res) l = (r, b)" by simp
      from Cons.IH [OF c1 this] show ?thesis .
    qed
  qed
qed

lemma expand_selection_cached:
  assumes "expand_selection fs self sel = (r, b)"
  shows "keys_cached fs self b"
  using assms expand_list_cached [OF keys_cached_refl]
  by (cases sel) (auto simp: keys_cached_refl)

lemma select_cached:
  assumes "select fs self sel kg = (r, b)"
  shows "keys_cached fs self b"
proof -
  have "(\<exists>g r'. select_glob fs self g kg = (r', b)) \<or> (\<exists>r'. expand_selection fs self sel = (r', b))"
    using assms unfolding select_def
    by (auto simp: Let_def split: selection.splits sum.splits prod.splits)
  then show ?thesis
    using select_glob_cached [OF keys_cached_refl] expand_selection_cached by blast
qed

lemma select_trains_receiver: "snd (select_trains self train_range) = self"
  unfolding select_trains_def
  by (auto simp: Let_def split: sum.splits prod.splits)

text \<open>
  Claim C9, amended.  \<^verbatim>\<open>select\<close> leaves the source sets, the train IDs, the registry
  and the index cache of the receiver unchanged.  In the per-source keys of the receiver
  every source keeps its entry, or had none and gets the keys that
  \<^verbatim>\<open>_keys_for_source\<close> returns for it on the receiver (the keys are stored when they
  are first read).  \<^verbatim>\<open>select_trains\<close> leaves the receiver unchanged.
\<close>

theorem select_leaves_receiver:
  assumes "select fs self sel key_glob = (r, self1)"
  shows "instrument_sources self1 = instrument_sources self \<and>
         control_sources self1 = control_sources self \<and>
         train_ids self1 = train_ids self \<and>
         source_file_mapping self1 = source_file_mapping self \<and>
         index_cache self1 = index_cache self \<and>
         (\<forall>s. map_of (source_keys self1) s = map_of (source_keys self) s \<or>
              (map_of (source_keys self) s = None \<and>
               fst (keys_for_source fs self s) = Inr (map_of (source_keys self1) s))) \<and>
         snd (select_trains self train_range) = self"
  using keys_cached_fields [OF select_cached [OF assms]] select_cached [OF assms]
    select_trains_receiver [of self train_range]
  unfolding keys_cached_def by simp

text \<open>
  The theorem at \<^verbatim>\<open>ex_run.select('X', 'v')\<close>, which stores the keys of \<open>X\<close>, and
  \<^verbatim>\<open>ex_run.select_trains(by_index[0:1])\<close>.
\<close>

theorem select_leaves_receiver_witness:
  "select ex_fs ex_run (SelStr ''X'') ''v'' =
     (Inr ex_sel_X, ex_run\<lparr>source_keys := [(''X'', KeySet [''v.value''])]\<rparr>) \<and>
   train_ids (ex_run\<lparr>source_keys := [(''X'', KeySet [''v.value''])]\<rparr>) = train_ids ex_run \<and>
   source_file_mapping (ex_run\<lparr>source_keys := [(''X'', KeySet [''v.value''])]\<rparr>) =
     source_file_mapping ex_run \<and>
   index_cache (ex_run\<lparr>source_keys := [(''X'', KeySet [''v.value''])]\<rparr>) = index_cache ex_run \<and>
   fst (keys_for_source ex_fs ex_run ''X'') = Inr (Some (KeySet [''v.value''])) \<and>
   snd (select_trains ex_run (By_index (Some 0) (Some 1) None)) = ex_run"
proof -
  have s: "select ex_fs ex_run (SelStr ''X'') ''v'' =
     (Inr ex_sel_X, ex_run\<lparr>source_keys := [(''X'', KeySet [''v.value''])]\<rparr>)"
    by code_simp
  note c = select_leaves_receiver [OF s, of "By_index (Some 0) (Some 1) None"]
  note c3 = c [THEN conjunct2, THEN conjunct2, THEN conjunct1]
  note c4 = c [THEN conjunct2, THEN conjunct2, THEN conjunct2, THEN conjunct1]
  note c5 = c [THEN conjunct2, THEN conjunct2, THEN conjunct2, THEN conjunct2, THEN conjunct1]
  note c6 = c [THEN conjunct2, THEN conjunct2, THEN conjunct2, THEN conjunct2, THEN conjunct2,
      THEN conjunct1, THEN spec, of "''X''"]
  note c7 = c [THEN conjunct2, THEN conjunct2, THEN conjunct2, THEN conjunct2, THEN conjunct2,
      THEN conjunct2]
  have n: "map_of (source_keys ex_run) ''X'' = None" by (simp add: ex_run_def)
  from c6 have k: "fst (keys_for_source ex_fs ex_run ''X'') = Inr (Some (KeySet [''v.value'']))"
    by (simp add: n)
  show ?thesis
    by (intro conjI) (rule s c3 c4 c5 k c7)+
qed

text \<open>
  Claim C9 as stated fails: the run built from the two files has no per-source keys, and
  after \<^verbatim>\<open>select('X', 'v')\<close> the receiver has the keys of \<open>X\<close>.
\<close>

theorem select_caches_keys_counterexample:
  "add_file ex_fs (snd (add_file ex_fs empty_collection 0)) 1 = (Inr (), ex_run) \<and>
   source_keys ex_run = [] \<and>
   source_keys (snd (select ex_fs ex_run (SelStr ''X'') ''v'')) = [(''X'', KeySet [''v.value''])]"
  by code_simp

subsection \<open>The run-level train IDs\<close>

lemma py_sorted_set_eq: "py_sorted_set xs = sorted_list_of_set (set xs)"
  by (simp add: py_sorted_set_def sorted_list_of_set_sort_remdups)

lemma set_py_sorted_set: "set (py_sorted_set xs) = set xs"
  by (simp add: py_sorted_set_def)

lemma py_sorted_set_strict: "sorted_wrt (<) (py_sorted_set xs) \<and> distinct (py_sorted_set xs)"
  by (simp add: py_sorted_set_eq)

lemma py_sorted_set_cong: "set xs = set ys \<Longrightarrow> py_sorted_set xs = py_sorted_set ys"
  by (simp add: py_sorted_set_eq)

lemma set_registry_update_new:
  "map_of sfm s = None \<Longrightarrow>
   set (registry_train_ids (AList.update s segs sfm)) =
   set (registry_train_ids sfm) \<union> set (registry_train_ids [(s, segs)])"
  by (induction sfm) (auto simp: registry_train_ids_def split: if_splits)

lemma set_registry_update_old:
  "map_of sfm s = Some segs \<Longrightarrow>
   set (registry_train_ids (AList.update s (segs @ extra) sfm)) =
   set (registry_train_ids sfm) \<union> set (registry_train_ids [(s, extra)])"
  by (induction sfm) (auto simp: registry_train_ids_def split: if_splits)

lemma set_registry_register:
  "set (registry_train_ids (register_segment (tids, f) s sfm)) =
   set (registry_train_ids sfm) \<union> set tids"
  by (cases "map_of sfm s")
     (simp_all add: register_segment_def set_registry_update_new set_registry_update_old,
      simp_all add: registry_train_ids_def)

lemma set_registry_fold_register:
  "set (registry_train_ids (fold (register_segment (tids, f)) sources sfm)) =
   set (registry_train_ids sfm) \<union> (if sources = [] then {} else set tids)"
  by (induction sources arbitrary: sfm) (auto simp: set_registry_register)

lemma add_file_sources_frame:
  "add_file_sources self sources l = (r, self1) \<Longrightarrow>
   train_ids self1 = train_ids self \<and> source_file_mapping self1 = source_file_mapping self"
  by (induction self sources l rule: add_file_sources.induct)
     (auto split: if_splits prod.splits)

lemma add_file_Inr:
  assumes "add_file fs self f = (Inr (), self1)"
  obtains sources self' where
    "add_file_sources self [] (METADATA_dataSourceId (fs f)) = (Inr sources, self')"
    "self1 = self'\<lparr>source_file_mapping :=
               fold (register_segment (filter (\<lambda>t. t \<noteq> 0) (INDEX_trainId (fs f)), f)) sources
                 (source_file_mapping self'),
             train_ids := py_sorted_set (train_ids self' @ filter (\<lambda>t. t \<noteq> 0) (INDEX_trainId (fs f)))\<rparr>"
proof (cases "add_file_sources self [] (METADATA_dataSourceId (fs f))")
  case (Pair r self')
  with assms show ?thesis
    by (cases r) (auto simp: add_file_def Let_def intro: that)
qed

lemma add_file_train_ids:
  assumes "add_file fs self f = (Inr (), self1)"
  shows "train_ids self1 =
           py_sorted_set (train_ids self @ filter (\<lambda>t. t \<noteq> 0) (INDEX_trainId (fs f)))"
proof -
  from assms obtain sources self' where
    s: "add_file_sources self [] (METADATA_dataSourceId (fs f)) = (Inr sources, self')" and
    e: "self1 = self'\<lparr>source_file_mapping :=
               fold (register_segment (filter (\<lambda>t. t \<noteq> 0) (INDEX_trainId (fs f)), f)) sources
                 (source_file_mapping self'),
             train_ids := py_sorted_set (train_ids self' @ filter (\<lambda>t. t \<noteq> 0) (INDEX_trainId (fs f)))\<rparr>"
    by (rule add_file_Inr)
  from add_file_sources_frame [OF s] e show ?thesis by simp
qed

lemma add_file_ok:
  assumes a: "add_file fs self f = (Inr (), self1)"
    and ok: "run_train_ids_ok self"
    and src: "fst (add_file_sources self [] (METADATA_dataSourceId (fs f))) \<noteq> Inr []"
  shows "run_train_ids_ok self1"
proof -
  let ?tids = "filter (\<lambda>t. t \<noteq> 0) (INDEX_trainId (fs f))"
  from a obtain sources self' where
    s: "add_file_sources self [] (METADATA_dataSourceId (fs f)) = (Inr sources, self')" and
    s1: "self1 = self'\<lparr>source_file_mapping :=
               fold (register_segment (?tids, f)) sources (source_file_mapping self'),
             train_ids := py_sorted_set (train_ids self' @ ?tids)\<rparr>"
    by (rule add_file_Inr)
  from s src have ne: "sources \<noteq> []" by auto
  from add_file_sources_frame [OF s]
  have fr: "train_ids self' = train_ids self" "source_file_mapping self' = source_file_mapping self"
    by simp_all
  have "set (train_ids self' @ ?tids) =
        set (registry_train_ids (fold (register_segment (?tids, f)) sources (source_file_mapping self')))"
    using ok ne unfolding run_train_ids_ok_def
    by (simp add: set_registry_fold_register fr set_py_sorted_set)
  then have "py_sorted_set (train_ids self' @ ?tids) =
        py_sorted_set (registry_train_ids (fold (register_segment (?tids, f)) sources (source_file_mapping self')))"
    by (rule py_sorted_set_cong)
  then show ?thesis
    unfolding run_train_ids_ok_def s1 by simp
qed

lemma select_ok:
  assumes "select fs self sel kg = (Inr res, self1)"
  shows "run_train_ids_ok res"
  using assms unfolding select_def run_train_ids_ok_def
  by (simp add: Let_def split: prod.splits sum.splits) auto

lemma steps_below:
  fixes d m :: int
  assumes m: "0 < m" and d: "0 \<le> d" and k: "k < nat (d div m + 1)"
  shows "int k * m \<le> d"
proof -
  have q: "0 \<le> d div m" using m d by (simp add: pos_imp_zdiv_nonneg_iff)
  from k q have "int k \<le> d div m" by linarith
  then have "int k * m \<le> d div m * m" using m by (simp add: mult_right_mono)
  also have "\<dots> = d - d mod m" by (simp add: algebra_simps minus_mod_eq_mult_div)
  also have "\<dots> \<le> d" using m by simp
  finally show ?thesis .
qed

lemma slice_indices_bounds:
  assumes "slice_indices start stop step len = Inr (a, b, st)" "0 \<le> len"
  shows "st \<noteq> 0 \<and> (0 < st \<longrightarrow> 0 \<le> a \<and> b \<le> len) \<and> (st < 0 \<longrightarrow> a \<le> len - 1 \<and> - 1 \<le> b)"
  using assms unfolding slice_indices_def
  by (auto simp: Let_def split: if_splits option.splits)

lemma slice_position_in_range:
  assumes s: "slice_indices start stop step (int n) = Inr (a, b, st)"
    and k: "k < slice_length a b st"
  shows "0 \<le> a + int k * st \<and> a + int k * st < int n"
proof -
  from slice_indices_bounds [OF s]
  have b: "st \<noteq> 0" "0 < st \<Longrightarrow> 0 \<le> a \<and> b \<le> int n" "st < 0 \<Longrightarrow> a \<le> int n - 1 \<and> - 1 \<le> b"
    by simp_all
  show ?thesis
  proof (cases "0 < st")
    case True
    with k have ab: "a < b" and k': "k < nat ((b - a - 1) div st + 1)"
      by (auto simp: slice_length_def split: if_splits)
    have "int k * st \<le> b - a - 1" using True ab k' by (intro steps_below) simp_all
    moreover have "0 \<le> int k * st" using True by simp
    ultimately show ?thesis using b(2) [OF True] by linarith
  next
    case False
    with b(1) have neg: "st < 0" by simp
    with k have ab: "b < a" and k': "k < nat ((a - b - 1) div (- st) + 1)"
      by (auto simp: slice_length_def split: if_splits)
    have "int k * (- st) \<le> a - b - 1" using neg ab k' by (intro steps_below) simp_all
    moreover have "0 \<le> int k * (- st)" using neg by (simp add: mult_nonneg_nonpos)
    ultimately show ?thesis using b(3) [OF neg] by (simp add: algebra_simps)
  qed
qed

lemma py_slice_subset:
  assumes "py_slice xs start stop step = Inr ys"
  shows "set ys \<subseteq> set xs"
proof -
  from assms obtain a b st where
    s: "slice_indices start stop step (int (length xs)) = Inr (a, b, st)" and
    ys: "ys = map (\<lambda>k. xs ! nat (a + int k * st)) [0..<slice_length a b st]"
    by (auto simp: py_slice_def split: sum.splits)
  show ?thesis
  proof
    fix y assume "y \<in> set ys"
    then obtain k where k: "k < slice_length a b st" and y: "y = xs ! nat (a + int k * st)"
      using ys by auto
    from slice_position_in_range [OF s k] have "nat (a + int k * st) < length xs" by linarith
    with y show "y \<in> set xs" by simp
  qed
qed

lemma py_slice_increasing:
  assumes p: "py_slice xs start stop step = Inr ys"
    and st: "step = None \<or> (\<exists>s. step = Some s \<and> 0 < s)"
    and inc: "sorted_wrt (<) xs"
  shows "sorted_wrt (<) ys"
proof -
  from p obtain a b st where
    s: "slice_indices start stop step (int (length xs)) = Inr (a, b, st)" and
    ys: "ys = map (\<lambda>k. xs ! nat (a + int k * st)) [0..<slice_length a b st]"
    by (auto simp: py_slice_def split: sum.splits)
  from s st have pos: "0 < st"
    by (auto simp: slice_indices_def Let_def split: if_splits)
  show ?thesis
    unfolding ys sorted_wrt_iff_nth_less
  proof (intro allI impI)
    fix i j assume ij: "i < j"
      and j: "j < length (map (\<lambda>k. xs ! nat (a + int k * st)) [0..<slice_length a b st])"
    then have jl: "j < slice_length a b st" and il: "i < slice_length a b st" by simp_all
    from slice_position_in_range [OF s il] slice_position_in_range [OF s jl]
    have r: "0 \<le> a + int i * st" "a + int j * st < int (length xs)" by simp_all
    have "int i * st < int j * st" using ij pos by simp
    with r have lt: "nat (a + int i * st) < nat (a + int j * st)"
      and jn: "nat (a + int j * st) < length xs" by linarith+
    from inc lt jn have "xs ! nat (a + int i * st) < xs ! nat (a + int j * st)"
      by (simp add: sorted_wrt_iff_nth_less)
    with il jl show "map (\<lambda>k. xs ! nat (a + int k * st)) [0..<slice_length a b st] ! i
        < map (\<lambda>k. xs ! nat (a + int k * st)) [0..<slice_length a b st] ! j"
      by simp
  qed
qed

lemma registry_train_ids_intro:
  "(s, segs) \<in> set sfm \<Longrightarrow> (tids, f) \<in> set segs \<Longrightarrow> x \<in> set tids \<Longrightarrow>
   x \<in> set (registry_train_ids sfm)"
  unfolding registry_train_ids_def by force

lemma registry_train_ids_mem:
  "x \<in> set (registry_train_ids sfm) \<Longrightarrow>
   \<exists>s segs tids f. (s, segs) \<in> set sfm \<and> (tids, f) \<in> set segs \<and> x \<in> set tids"
  unfolding registry_train_ids_def by auto blast

lemma restrict_registry_mem:
  assumes "(tids, f) \<in> set segs" "(s, segs) \<in> set sfm" "x \<in> set tids" "x \<in> set sel"
  shows "x \<in> set (registry_train_ids (restrict_registry sel sfm))"
proof -
  let ?keep = "\<lambda>(train_ids, file). list_ex (\<lambda>t. t \<in> set sel) train_ids"
  have k: "(tids, f) \<in> set (filter ?keep segs)"
    using assms by (auto simp: list_ex_iff)
  then have ne: "filter ?keep segs \<noteq> []" by (metis empty_iff empty_set)
  have "(s, filter ?keep segs) \<in> set (map (\<lambda>(source, data). (source, filter ?keep data)) sfm)"
    using assms(2) by force
  with ne have "(s, filter ?keep segs) \<in> set (restrict_registry sel sfm)"
    unfolding restrict_registry_def by simp
  from registry_train_ids_intro [OF this k assms(3)] show ?thesis .
qed


lemma select_trains_Inr:
  assumes "select_trains self tr = (Inr res, s1)"
  obtains start stop step where
    "train_range_slice self tr = Inr (start, stop, step)"
    "py_slice (train_ids self) start stop step = Inr (train_ids res)"
    "source_file_mapping res = restrict_registry (train_ids res) (source_file_mapping self)"
proof (cases "train_range_slice self tr")
  case (Inl e)
  with assms show ?thesis by (simp add: select_trains_def)
next
  case (Inr sl)
  obtain start stop step where sl: "sl = (start, stop, step)" by (cases sl)
  show ?thesis
  proof (cases "py_slice (train_ids self) start stop step")
    case (Inl e)
    with assms Inr sl show ?thesis by (simp add: select_trains_def)
  next
    case tids: (Inr tids)
    show ?thesis
    proof (cases "restrict_keys (restrict_registry tids (source_file_mapping self)) []
                    (map fst (source_keys self))")
      case (Inl e)
      with assms Inr sl tids show ?thesis by (simp add: select_trains_def Let_def)
    next
      case keys: (Inr keys)
      with assms Inr sl tids have "train_ids res = tids"
        "source_file_mapping res = restrict_registry tids (source_file_mapping self)"
        by (auto simp: select_trains_def Let_def)
      with Inr sl tids show ?thesis by (intro that) simp_all
    qed
  qed
qed

lemma select_trains_covered:
  assumes ok: "set (train_ids self) \<subseteq> set (registry_train_ids (source_file_mapping self))"
    and p: "py_slice (train_ids self) start stop step = Inr tids"
  shows "set tids \<subseteq> set (registry_train_ids (restrict_registry tids (source_file_mapping self)))"
proof
  fix x assume x: "x \<in> set tids"
  with py_slice_subset [OF p] have "x \<in> set (train_ids self)" by blast
  with ok have "x \<in> set (registry_train_ids (source_file_mapping self))"
    by (rule subsetD)
  then obtain s segs t f where "(s, segs) \<in> set (source_file_mapping self)" "(t, f) \<in> set segs" "x \<in> set t"
    using registry_train_ids_mem by blast
  with x show "x \<in> set (registry_train_ids (restrict_registry tids (source_file_mapping self)))"
    by (blast intro: restrict_registry_mem)
qed

lemma ex_run_built: "add_file ex_fs (snd (add_file ex_fs empty_collection 0)) 1 = (Inr (), ex_run)"
  by code_simp

text \<open>
  Claim C1, amended.  The empty collection has the sorted union of its segments' train
  IDs as train IDs, \<^verbatim>\<open>add_file\<close> keeps that when the file declares a source, and the
  result of \<^verbatim>\<open>select\<close> always has it; after \<^verbatim>\<open>add_file\<close> and in the result of
  \<^verbatim>\<open>select\<close> the list is strictly increasing, without duplicates.  The result of
  \<^verbatim>\<open>select_trains\<close> has the slice of the receiver's list as train IDs, strictly
  increasing when the receiver's list is and the step is positive; its registry keeps,
  whole, the segments that share a train ID with the slice.  Whenever the train IDs
  of the receiver of \<^verbatim>\<open>select_trains\<close> are among those of its segments (as they are
  when they are the sorted union, and in every result of \<^verbatim>\<open>select_trains\<close> on such
  a receiver), the train IDs of the result are among those of the retained segments.
\<close>

theorem run_train_ids_invariant:
  "run_train_ids_ok empty_collection \<and>
   (add_file fs self f = (Inr (), self1) \<longrightarrow>
      sorted_wrt (<) (train_ids self1) \<and> distinct (train_ids self1) \<and>
      (run_train_ids_ok self \<and>
       fst (add_file_sources self [] (METADATA_dataSourceId (fs f))) \<noteq> Inr [] \<longrightarrow>
         run_train_ids_ok self1)) \<and>
   (select fs self sel key_glob = (Inr sel_res, self2) \<longrightarrow>
      run_train_ids_ok sel_res \<and> sorted_wrt (<) (train_ids sel_res) \<and> distinct (train_ids sel_res)) \<and>
   (select_trains self train_range = (Inr sub, self3) \<longrightarrow>
      (\<exists>start stop step.
          train_range_slice self train_range = Inr (start, stop, step) \<and>
          py_slice (train_ids self) start stop step = Inr (train_ids sub) \<and>
          ((step = None \<or> (\<exists>s. step = Some s \<and> 0 < s)) \<and> sorted_wrt (<) (train_ids self) \<longrightarrow>
             sorted_wrt (<) (train_ids sub) \<and> distinct (train_ids sub))) \<and>
      source_file_mapping sub = restrict_registry (train_ids sub) (source_file_mapping self) \<and>
      (run_train_ids_ok self \<longrightarrow>
         set (train_ids self) \<subseteq> set (registry_train_ids (source_file_mapping self))) \<and>
      (set (train_ids self) \<subseteq> set (registry_train_ids (source_file_mapping self)) \<longrightarrow>
         set (train_ids sub) \<subseteq> set (registry_train_ids (source_file_mapping sub))))"
proof (intro conjI impI)
  show "run_train_ids_ok empty_collection"
    by (simp add: run_train_ids_ok_def empty_collection_def registry_train_ids_def py_sorted_set_def)
next
  assume a: "add_file fs self f = (Inr (), self1)"
  from add_file_train_ids [OF a] py_sorted_set_strict
  show "sorted_wrt (<) (train_ids self1)" and "distinct (train_ids self1)" by simp_all
next
  assume "add_file fs self f = (Inr (), self1)"
    and "run_train_ids_ok self \<and>
       fst (add_file_sources self [] (METADATA_dataSourceId (fs f))) \<noteq> Inr []"
  then show "run_train_ids_ok self1" by (blast intro: add_file_ok)
next
  assume s: "select fs self sel key_glob = (Inr sel_res, self2)"
  from select_ok [OF s] show ok: "run_train_ids_ok sel_res" .
  with py_sorted_set_strict
  show "sorted_wrt (<) (train_ids sel_res)" and "distinct (train_ids sel_res)"
    by (simp_all add: run_train_ids_ok_def)
next
  assume t: "select_trains self train_range = (Inr sub, self3)"
  from t obtain start stop step where
    sl: "train_range_slice self train_range = Inr (start, stop, step)" and
    p: "py_slice (train_ids self) start stop step = Inr (train_ids sub)" and
    r: "source_file_mapping sub = restrict_registry (train_ids sub) (source_file_mapping self)"
    by (rule select_trains_Inr)
  have "(step = None \<or> (\<exists>s. step = Some s \<and> 0 < s)) \<and> sorted_wrt (<) (train_ids self) \<longrightarrow>
        sorted_wrt (<) (train_ids sub) \<and> distinct (train_ids sub)"
    using py_slice_increasing [OF p] by (auto simp: strict_sorted_iff)
  with sl p show "\<exists>start stop step.
          train_range_slice self train_range = Inr (start, stop, step) \<and>
          py_slice (train_ids self) start stop step = Inr (train_ids sub) \<and>
          ((step = None \<or> (\<exists>s. step = Some s \<and> 0 < s)) \<and> sorted_wrt (<) (train_ids self) \<longrightarrow>
             sorted_wrt (<) (train_ids sub) \<and> distinct (train_ids sub))"
    by blast
  show "source_file_mapping sub = restrict_registry (train_ids sub) (source_file_mapping self)"
    by (rule r)
  {
    assume "run_train_ids_ok self"
    then show "set (train_ids self) \<subseteq> set (registry_train_ids (source_file_mapping self))"
      by (simp add: run_train_ids_ok_def set_py_sorted_set)
  }
  assume "set (train_ids self) \<subseteq> set (registry_train_ids (source_file_mapping self))"
  from select_trains_covered [OF this p] r
  show "set (train_ids sub) \<subseteq> set (registry_train_ids (source_file_mapping sub))" by simp
qed

text \<open>
  The theorem at the example run: adding the second file again, \<^verbatim>\<open>select('X', 'v')\<close>
  and \<^verbatim>\<open>select_trains(by_index[0:1])\<close>.
\<close>

theorem run_train_ids_invariant_witness:
  "add_file ex_fs ex_run 1 = (Inr (), snd (add_file ex_fs ex_run 1)) \<and>
   run_train_ids_ok ex_run \<and>
   fst (add_file_sources ex_run [] (METADATA_dataSourceId (ex_fs 1))) \<noteq> Inr [] \<and>
   sorted_wrt (<) (train_ids (snd (add_file ex_fs ex_run 1))) \<and>
   run_train_ids_ok (snd (add_file ex_fs ex_run 1)) \<and>
   select ex_fs ex_run (SelStr ''X'') ''v'' =
     (Inr ex_sel_X, ex_run\<lparr>source_keys := [(''X'', KeySet [''v.value''])]\<rparr>) \<and>
   run_train_ids_ok ex_sel_X \<and>
   select_trains ex_run (By_index (Some 0) (Some 1) None) = (Inr ex_first_train, ex_run) \<and>
   sorted_wrt (<) (train_ids ex_first_train) \<and>
   set (train_ids ex_first_train) \<subseteq> set (registry_train_ids (source_file_mapping ex_first_train))"
proof -
  have "fst (add_file ex_fs ex_run 1) = Inr ()" by code_simp
  then have a: "add_file ex_fs ex_run 1 = (Inr (), snd (add_file ex_fs ex_run 1))"
    by (simp add: prod_eq_iff)
  have ok: "run_train_ids_ok ex_run" by code_simp
  have src: "fst (add_file_sources ex_run [] (METADATA_dataSourceId (ex_fs 1))) \<noteq> Inr []"
    by code_simp
  have s: "select ex_fs ex_run (SelStr ''X'') ''v'' =
     (Inr ex_sel_X, ex_run\<lparr>source_keys := [(''X'', KeySet [''v.value''])]\<rparr>)"
    by code_simp
  have t: "select_trains ex_run (By_index (Some 0) (Some 1) None) = (Inr ex_first_train, ex_run)"
    by code_simp
  have sl: "train_range_slice ex_run (By_index (Some 0) (Some 1) None) = Inr (Some 0, Some 1, None)"
    by (simp add: train_range_slice_def)
  have inc: "sorted_wrt (<) (train_ids ex_run)" by code_simp
  note i = run_train_ids_invariant [where fs = ex_fs and self = ex_run and f = 1
      and ?self1.0 = "snd (add_file ex_fs ex_run 1)" and sel = "SelStr ''X''" and key_glob = "''v''"
      and sel_res = ex_sel_X and ?self2.0 = "ex_run\<lparr>source_keys := [(''X'', KeySet [''v.value''])]\<rparr>"
      and train_range = "By_index (Some 0) (Some 1) None" and sub = ex_first_train
      and ?self3.0 = ex_run]
  note i_add = i [THEN conjunct2, THEN conjunct1, THEN mp, OF a]
  note c1 = i_add [THEN conjunct1]
  note c2 = i_add [THEN conjunct2, THEN conjunct2, THEN mp, OF conjI [OF ok src]]
  note c3 = i [THEN conjunct2, THEN conjunct2, THEN conjunct1, THEN mp, OF s, THEN conjunct1]
  note i_tr = i [THEN conjunct2, THEN conjunct2, THEN conjunct2, THEN mp, OF t]
  note c5a = i_tr [THEN conjunct2, THEN conjunct2, THEN conjunct1, THEN mp, OF ok]
  note c5 = i_tr [THEN conjunct2, THEN conjunct2, THEN conjunct2, THEN mp, OF c5a]
  from i_tr [THEN conjunct1] obtain start stop step where
    x: "train_range_slice ex_run (By_index (Some 0) (Some 1) None) = Inr (start, stop, step)" and
    y: "(step = None \<or> (\<exists>s. step = Some s \<and> 0 < s)) \<and> sorted_wrt (<) (train_ids ex_run) \<longrightarrow>
        sorted_wrt (<) (train_ids ex_first_train) \<and> distinct (train_ids ex_first_train)"
    by blast
  from x sl have "step = None" by simp
  with y inc have c4: "sorted_wrt (<) (train_ids ex_first_train)" by simp
  show ?thesis
    by (intro conjI) (rule a ok src c1 c2 s c3 t c4 c5)+
qed

text \<open>
  Claim C1 as stated fails for \<^verbatim>\<open>select_trains\<close>: \<^verbatim>\<open>by_index[0:1]\<close> on the run
  built from the two files gives the train IDs \<open>[10]\<close> with the segment of the trains
  10, 11, 12 retained, and \<^verbatim>\<open>by_index[::-1]\<close> gives a decreasing list.
\<close>

theorem select_trains_train_ids_counterexample:
  "add_file ex_fs (snd (add_file ex_fs empty_collection 0)) 1 = (Inr (), ex_run) \<and>
   select_trains ex_run (By_index (Some 0) (Some 1) None) = (Inr ex_first_train, ex_run) \<and>
   train_ids ex_first_train = [10] \<and>
   py_sorted_set (registry_train_ids (source_file_mapping ex_first_train)) = [10, 11, 12] \<and>
   map_sum id train_ids (fst (select_trains ex_run (By_index None None (Some (- 1))))) =
     Inr [14, 13, 12, 11, 10]"
  by code_simp
subsection \<open>Glob selection\<close>

lemma rmatch_AnyString_skip: "rmatch r s \<Longrightarrow> rmatch (AnyString # r) s"
  by (cases s) auto

lemma rmatch_AnyString_more: "rmatch (AnyString # r) s \<Longrightarrow> rmatch (AnyString # r) (c # s)"
  by simp

lemma rmatch_snoc_OptGroup:
  "rmatch (r @ [OptGroup w]) s \<longleftrightarrow> rmatch r s \<or> (\<exists>s0. s = s0 @ w \<and> rmatch r s0)"
proof (induction r s rule: rmatch.induct)
  case (1 s)
  show ?case by (auto simp: prefix_def)
next
  case (2 r)
  then show ?case by simp
next
  case (3 r c s)
  have "(\<exists>s0. c # s = s0 @ w \<and> rmatch (AnyString # r) s0) \<longleftrightarrow>
        (\<exists>s0. c # s = s0 @ w \<and> rmatch r s0) \<or> (\<exists>s0. s = s0 @ w \<and> rmatch (AnyString # r) s0)"
    (is "?L \<longleftrightarrow> ?A \<or> ?B")
  proof
    assume ?L
    then obtain s0 where e: "c # s = s0 @ w" and m: "rmatch (AnyString # r) s0" by blast
    show "?A \<or> ?B"
    proof (cases s0)
      case Nil
      with e m show ?thesis by auto
    next
      case (Cons d s0')
      with e m have "s = s0' @ w" "rmatch r (c # s0') \<or> rmatch (AnyString # r) s0'" "d = c" by auto
      with e Cons show ?thesis by auto
    qed
  next
    assume "?A \<or> ?B"
    then show ?L
    proof
      assume ?A
      then show ?L using rmatch_AnyString_skip by blast
    next
      assume ?B
      then obtain s0 where "s = s0 @ w" "rmatch (AnyString # r) s0" by blast
      then have "c # s = (c # s0) @ w" "rmatch (AnyString # r) (c # s0)" by simp_all
      then show ?L by blast
    qed
  qed
  with 3 show ?case by auto
next
  case (4 r)
  then show ?case by simp
next
  case (5 r c s)
  then show ?case by (auto simp: Cons_eq_append_conv)
next
  case (6 a r)
  then show ?case by simp
next
  case (7 a r c s)
  then show ?case by (auto simp: Cons_eq_append_conv)
next
  case (8 neg stuff r)
  then show ?case by simp
next
  case (9 neg stuff r c s)
  then show ?case by (auto simp: Cons_eq_append_conv)
next
  case (10 w' r s)
  have "(\<exists>s0. s = s0 @ w \<and> rmatch (OptGroup w' # r) s0) \<longleftrightarrow>
        (\<exists>s0. s = s0 @ w \<and> rmatch r s0) \<or>
        (prefix w' s \<and> (\<exists>s0. drop (length w') s = s0 @ w \<and> rmatch r s0))"
    (is "?L \<longleftrightarrow> ?A \<or> ?B")
  proof
    assume ?L
    then obtain s0 where e: "s = s0 @ w" and m: "rmatch r s0 \<or> (prefix w' s0 \<and> rmatch r (drop (length w') s0))"
      by auto
    from m show "?A \<or> ?B"
    proof
      assume "rmatch r s0" with e show ?thesis by blast
    next
      assume p: "prefix w' s0 \<and> rmatch r (drop (length w') s0)"
      then obtain t where t: "s0 = w' @ t" by (auto simp: prefix_def)
      with e p have "prefix w' s" "drop (length w') s = t @ w" "rmatch r t" by (auto simp: prefix_def)
      then show ?thesis by blast
    qed
  next
    assume "?A \<or> ?B"
    then show ?L
    proof
      assume ?A then show ?L by auto
    next
      assume ?B
      then obtain s0 t where p: "s = w' @ t" and d: "drop (length w') s = s0 @ w" and m: "rmatch r s0"
        by (auto simp: prefix_def)
      then have "s = (w' @ s0) @ w" "rmatch (OptGroup w' # r) (w' @ s0)" by auto
      then show ?L by blast
    qed
  qed
  with 10 show ?case by auto
qed

lemma keys_for_source_in_sources:
  "fst (keys_for_source fs self s) = Inr keys \<Longrightarrow> s \<in> set (all_sources self)"
  unfolding keys_for_source_def by (auto split: if_splits)

lemma keys_for_source_stored:
  "s \<in> set (all_sources a) \<Longrightarrow> map_of (source_keys a) s = Some k \<Longrightarrow>
   fst (keys_for_source fs a s) = Inr (Some k)"
  unfolding keys_for_source_def by simp

lemma keys_cached_same_keys:
  assumes c: "keys_cached fs self a"
  shows "fst (keys_for_source fs a s) = fst (keys_for_source fs self s)"
proof -
  note f = keys_cached_fields [OF c]
  from c have d: "map_of (source_keys a) s = map_of (source_keys self) s \<or>
      (map_of (source_keys self) s = None \<and>
       fst (keys_for_source fs self s) = Inr (map_of (source_keys a) s))"
    unfolding keys_cached_def by blast
  show ?thesis
  proof (cases "map_of (source_keys a) s")
    case None
    with d have "map_of (source_keys self) s = None" by auto
    with None f show ?thesis by (intro keys_for_source_cong) simp_all
  next
    case (Some k)
    from d show ?thesis
    proof
      assume e: "map_of (source_keys a) s = map_of (source_keys self) s"
      with Some f show ?thesis unfolding keys_for_source_def by simp
    next
      assume e: "map_of (source_keys self) s = None \<and>
         fst (keys_for_source fs self s) = Inr (map_of (source_keys a) s)"
      then have "s \<in> set (all_sources self)" using keys_for_source_in_sources by blast
      with f have "s \<in> set (all_sources a)" by simp
      from keys_for_source_stored [OF this Some] e Some show ?thesis by simp
    qed
  qed
qed

lemma set_fold_insert_pairs:
  "set (fold (\<lambda>key m. List.insert (s, key) m) ks matched) = set matched \<union> {(s, k) | k. k \<in> set ks}"
  by (induction ks arbitrary: matched) auto

lemma select_glob_loop_hits:
  assumes "keys_cached fs self a"
    "select_glob_loop fs sre kre cre kg a matched srcs = (Inr m, b)"
  shows "set m = set matched \<union> {(s, k). s \<in> set srcs \<and> k \<in> glob_hits fs self sre kre cre kg s}"
  using assms
proof (induction srcs arbitrary: a matched)
  case Nil
  then show ?case by simp
next
  case (Cons s srcs)
  have split: "\<And>M. M \<union> {(s', k). s' \<in> set (s # srcs) \<and> k \<in> glob_hits fs self sre kre cre kg s'} =
       (M \<union> {(s, k) | k. k \<in> glob_hits fs self sre kre cre kg s}) \<union>
       {(s', k). s' \<in> set srcs \<and> k \<in> glob_hits fs self sre kre cre kg s'}"
    by auto
  show ?case
  proof (cases "rmatch sre s")
    case False
    with Cons.prems have "select_glob_loop fs sre kre cre kg a matched srcs = (Inr m, b)" by simp
    from Cons.IH [OF Cons.prems(1) this] False show ?thesis
      unfolding split by (simp add: glob_hits_def)
  next
    case True
    show ?thesis
    proof (cases "kg = ''*''")
      case star: True
      with Cons.prems True
      have "select_glob_loop fs sre kre cre kg a (List.insert (s, ''*'') matched) srcs = (Inr m, b)"
        by simp
      from Cons.IH [OF Cons.prems(1) this] True star show ?thesis
        unfolding split by (simp add: glob_hits_def)
    next
      case nostar: False
      obtain r1 a1 where k: "keys_for_source fs a s = (r1, a1)" by (cases "keys_for_source fs a s")
      have c1: "keys_cached fs self a1" by (rule keys_for_source_cached [OF Cons.prems(1) k])
      from Cons.prems(2) True nostar k obtain keys where r1: "r1 = Inr keys"
        by (cases r1) (auto simp: Let_def)
      from Cons.prems(2) True nostar k r1 obtain ks where ks: "pykeys_iter keys = Inr ks"
        by (cases "pykeys_iter keys") (auto simp: Let_def)
      let ?r = "if s \<in> set (control_sources a) then cre else kre"
      from Cons.prems(2) True nostar k r1 ks
      have l: "select_glob_loop fs sre kre cre kg a1
                (fold (\<lambda>key m. List.insert (s, key) m) (filter (rmatch ?r) ks) matched) srcs = (Inr m, b)"
        by (simp add: Let_def)
      have cs: "control_sources a = control_sources self"
        using keys_cached_fields [OF Cons.prems(1)] by simp
      have "fst (keys_for_source fs self s) = Inr keys"
        using keys_cached_same_keys [OF Cons.prems(1), of s] k r1 by simp
      with ks True nostar cs
      have h: "glob_hits fs self sre kre cre kg s = {k \<in> set ks. rmatch ?r k}"
        by (auto simp: glob_hits_def)
      from Cons.IH [OF c1 l] show ?thesis
        unfolding split h by (auto simp: set_fold_insert_pairs)
    qed
  qed
qed

lemma re_compile_Inr: "re_compile p = Inr q \<Longrightarrow> q = p"
  by (auto simp: re_compile_def split: if_splits)

lemma rmatch_ctrl_key_re:
  "rmatch (ctrl_key_re key_glob key_re) k \<longleftrightarrow>
     (if \<not> suffix ''.value'' key_glob \<and> \<not> suffix ''*'' key_glob
      then rmatch key_re k \<or> (\<exists>k0. k = k0 @ ''.value'' \<and> rmatch key_re k0)
      else rmatch key_re k)"
  unfolding ctrl_key_re_def by (simp add: rmatch_snoc_OptGroup)

lemma select_glob_Inr:
  assumes "select_glob fs self source_glob key_glob = (Inr matched, self1)"
  shows "select_glob_loop fs (glob_translate source_glob) (glob_translate key_glob)
           (ctrl_key_re key_glob (glob_translate key_glob)) key_glob self [] (all_sources self) =
         (Inr matched, self1)"
proof (cases "re_compile (glob_translate source_glob)")
  case (Inl e)
  with assms show ?thesis by (simp add: select_glob_def)
next
  case sre: (Inr sre)
  show ?thesis
  proof (cases "re_compile (glob_translate key_glob)")
    case (Inl e)
    with assms sre show ?thesis by (simp add: select_glob_def)
  next
    case kre: (Inr kre)
    obtain r b where l: "select_glob_loop fs sre kre (ctrl_key_re key_glob kre) key_glob self []
        (all_sources self) = (r, b)"
      by (cases "select_glob_loop fs sre kre (ctrl_key_re key_glob kre) key_glob self [] (all_sources self)")
    from assms sre kre l have "r = Inr matched \<and> b = self1"
      by (cases r) (auto simp: select_glob_def split: if_splits)
    with l re_compile_Inr [OF sre] re_compile_Inr [OF kre] show ?thesis by simp
  qed
qed

text \<open>
  Claim C8.  When \<^verbatim>\<open>_select_glob\<close> returns, a pair (source, key) is in the result
  exactly when the source is a source of the collection, its name matches the source
  glob, and: for the key glob \<^verbatim>\<open>*\<close>, the key is \<^verbatim>\<open>*\<close>, whatever the keys of the
  source; otherwise the key is a key of the source and, for a control source and a key
  glob that ends neither in \<^verbatim>\<open>.value\<close> nor in \<^verbatim>\<open>*\<close>, the translated pattern matches
  the key or matches it up to a final \<^verbatim>\<open>.value\<close>; for any other source or key glob, the
  translated pattern matches the key itself.
\<close>

theorem select_glob_matching:
  assumes "select_glob fs self source_glob key_glob = (Inr matched, self1)"
  shows "(s, k) \<in> set matched \<longleftrightarrow>
     s \<in> set (all_sources self) \<and> rmatch (glob_translate source_glob) s \<and>
     (if key_glob = ''*'' then k = ''*''
      else \<exists>keys ks. fst (keys_for_source fs self s) = Inr keys \<and> pykeys_iter keys = Inr ks \<and>
             k \<in> set ks \<and>
             (if s \<in> set (control_sources self) \<and>
                 \<not> suffix ''.value'' key_glob \<and> \<not> suffix ''*'' key_glob
              then rmatch (glob_translate key_glob) k \<or>
                   (\<exists>k0. k = k0 @ ''.value'' \<and> rmatch (glob_translate key_glob) k0)
              else rmatch (glob_translate key_glob) k))"
proof -
  let ?kre = "glob_translate key_glob"
  let ?cre = "ctrl_key_re key_glob ?kre"
  from select_glob_loop_hits [OF keys_cached_refl select_glob_Inr [OF assms]]
  have "(s, k) \<in> set matched \<longleftrightarrow>
        s \<in> set (all_sources self) \<and>
        k \<in> glob_hits fs self (glob_translate source_glob) ?kre ?cre key_glob s"
    by simp
  also have "\<dots> \<longleftrightarrow> s \<in> set (all_sources self) \<and> rmatch (glob_translate source_glob) s \<and>
     (if key_glob = ''*'' then k = ''*''
      else \<exists>keys ks. fst (keys_for_source fs self s) = Inr keys \<and> pykeys_iter keys = Inr ks \<and>
             k \<in> set ks \<and> rmatch (if s \<in> set (control_sources self) then ?cre else ?kre) k)"
    by (auto simp: glob_hits_def)
  also have "\<dots> \<longleftrightarrow> s \<in> set (all_sources self) \<and> rmatch (glob_translate source_glob) s \<and>
     (if key_glob = ''*'' then k = ''*''
      else \<exists>keys ks. fst (keys_for_source fs self s) = Inr keys \<and> pykeys_iter keys = Inr ks \<and>
             k \<in> set ks \<and>
             (if s \<in> set (control_sources self) \<and>
                 \<not> suffix ''.value'' key_glob \<and> \<not> suffix ''*'' key_glob
              then rmatch ?kre k \<or> (\<exists>k0. k = k0 @ ''.value'' \<and> rmatch ?kre k0)
              else rmatch ?kre k))"
    by (cases "s \<in> set (control_sources self)") (simp_all add: rmatch_ctrl_key_re)
  finally show ?thesis .
qed

text \<open>
  The theorem at \<^verbatim>\<open>ex_run._select_glob('*', 'v')\<close>: the key \<open>v.value\<close> of the control
  source \<open>X\<close> is matched through the optional suffix.
\<close>

theorem select_glob_matching_witness:
  "select_glob ex_fs ex_run ''*'' ''v'' =
     (Inr [(''X'', ''v.value'')], ex_run\<lparr>source_keys := [(''Y:o'', KeySet [''im.d'']), (''Z:o'', KeySet [''im.d'']), (''X'', KeySet [''v.value''])]\<rparr>) \<and>
   \<not> rmatch (glob_translate ''v'') ''v.value'' \<and>
   ((''X'', ''v.value'') \<in> set [(''X'', ''v.value'')] \<longleftrightarrow>
     ''X'' \<in> set (all_sources ex_run) \<and> rmatch (glob_translate ''*'') ''X'' \<and>
     (if ''v'' = ''*'' then ''v.value'' = ''*''
      else \<exists>keys ks. fst (keys_for_source ex_fs ex_run ''X'') = Inr keys \<and> pykeys_iter keys = Inr ks \<and>
             ''v.value'' \<in> set ks \<and>
             (if ''X'' \<in> set (control_sources ex_run) \<and>
                 \<not> suffix ''.value'' ''v'' \<and> \<not> suffix ''*'' ''v''
              then rmatch (glob_translate ''v'') ''v.value'' \<or>
                   (\<exists>k0. ''v.value'' = k0 @ ''.value'' \<and> rmatch (glob_translate ''v'') k0)
              else rmatch (glob_translate ''v'') ''v.value'')))"
proof -
  have a: "select_glob ex_fs ex_run ''*'' ''v'' =
     (Inr [(''X'', ''v.value'')], ex_run\<lparr>source_keys := [(''Y:o'', KeySet [''im.d'']), (''Z:o'', KeySet [''im.d'']), (''X'', KeySet [''v.value''])]\<rparr>)"
    by code_simp
  have n: "\<not> rmatch (glob_translate ''v'') ''v.value''" by code_simp
  note c = select_glob_matching [OF a, of "''X''" "''v.value''"]
  show ?thesis by (intro conjI) (rule a n c)+
qed

subsection \<open>Arrays of a field\<close>

lemma index_cached_refl: "index_cached fs a a"
  by (simp add: index_cached_def)

lemma get_index_value: "fst (get_index fs a f s g) = index_of fs a f s g"
  by (simp add: get_index_def index_of_def split: option.splits sum.splits)

lemma get_index_cached:
  assumes c: "index_cached fs base a" and g: "get_index fs a f s g = (r, b)"
  shows "index_cached fs base b"
proof (cases "map_of (index_cache a) (f, s, g)")
  case (Some ix)
  with g c show ?thesis by (simp add: get_index_def)
next
  case None
  show ?thesis
  proof (cases "read_index (fs f) s g")
    case (Inl e)
    with None g c show ?thesis by (simp add: get_index_def)
  next
    case (Inr ix)
    with None g have b: "b = a\<lparr>index_cache := AList.update (f, s, g) ix (index_cache a)\<rparr>"
      by (simp add: get_index_def)
    have a: "a = base\<lparr>index_cache := index_cache a\<rparr>" using c by (simp add: index_cached_def)
    have b': "b = base\<lparr>index_cache := index_cache b\<rparr>"
      by (subst b, subst a) (simp add: b)
    have "index_of fs b f' s' g' = index_of fs a f' s' g'" for f' s' g'
      using None Inr by (auto simp: b index_of_def update_conv')
    with c b' show ?thesis by (simp add: index_cached_def)
  qed
qed

lemma index_cached_fields:
  "index_cached fs base a \<Longrightarrow>
   instrument_sources a = instrument_sources base \<and> control_sources a = control_sources base \<and>
   train_ids a = train_ids base \<and> source_file_mapping a = source_file_mapping base \<and>
   source_keys a = source_keys base"
  unfolding index_cached_def
  by (metis DataCollection.select_convs(1,2,3,4,6) DataCollection.surjective DataCollection.update_convs(5))

lemma get_array_instrument_offending:
  assumes "index_cached fs base a"
    and "(tids, f) \<in> set segs"
    and "index_of fs base f source (key_group key) = Inr (firsts, counts)"
    and "list_ex (\<lambda>c. 1 < c) counts"
  shows "\<exists>e b. get_array_instrument fs a source key extra acc segs = (Inl e, b)"
  using assms(1,2)
proof (induction segs arbitrary: a extra acc)
  case Nil
  then show ?case by simp
next
  case (Cons seg segs)
  obtain t' f' where seg: "seg = (t', f')" by (cases seg)
  obtain r a1 where g: "get_index fs a f' source (key_group key) = (r, a1)"
    by (cases "get_index fs a f' source (key_group key)")
  have c1: "index_cached fs base a1" by (rule get_index_cached [OF Cons.prems(1) g])
  have v: "r = index_of fs base f' source (key_group key)"
    using get_index_value [of fs a f' source "key_group key"] g Cons.prems(1)
    by (simp add: index_cached_def)
  show ?case
  proof (cases r)
    case (Inl e)
    with g seg show ?thesis by simp
  next
    case (Inr ix)
    obtain fi ci where ix: "ix = (fi, ci)" by (cases ix)
    show ?thesis
    proof (cases "list_ex (\<lambda>c. 1 < c) ci")
      case True
      with g seg Inr ix show ?thesis by simp
    next
      case False
      with v Inr ix assms(3,4) have "f' \<noteq> f" by auto
      with Cons.prems(2) seg have m: "(tids, f) \<in> set segs" by auto
      show ?thesis
      proof (cases "expand_trainids fi ci t'")
        case (Inl e)
        with g seg Inr ix False show ?thesis by simp
      next
        case tr: (Inr tr)
        show ?thesis
        proof (cases "segment_array (fs f') (data_path ''INSTRUMENT'' source key) extra tr")
          case (Inl e)
          with g seg Inr ix False tr show ?thesis by simp
        next
          case sa: (Inr p)
          obtain arr ex where p: "p = (arr, ex)" by (cases p)
          from Cons.IH [OF c1 m, of "Some ex" "acc @ [arr]"]
          show ?thesis using g seg Inr ix False tr sa p by simp
        qed
      qed
    qed
  qed
qed

lemma get_array_instrument_first_offending:
  assumes "index_cached fs base a"
    and "index_of fs base f source (key_group key) = Inr (firsts, counts)"
    and "list_ex (\<lambda>c. 1 < c) counts"
  shows "fst (get_array_instrument fs a source key extra acc ((tids, f) # post)) =
         Inl (ValueError_MoreThanOne source (key_group key))"
proof -
  obtain r a1 where g: "get_index fs a f source (key_group key) = (r, a1)"
    by (cases "get_index fs a f source (key_group key)")
  have "r = index_of fs base f source (key_group key)"
    using get_index_value [of fs a f source "key_group key"] g assms(1)
    by (simp add: index_cached_def)
  with assms(2,3) g show ?thesis by simp
qed

lemma get_array_instrument_cached:
  assumes "index_cached fs base a"
    and "get_array_instrument fs a source key extra acc segs = (r, b)"
  shows "index_cached fs base b"
  using assms
proof (induction segs arbitrary: a extra acc)
  case Nil
  then show ?case by simp
next
  case (Cons seg segs)
  obtain t' f' where seg: "seg = (t', f')" by (cases seg)
  obtain r1 a1 where g: "get_index fs a f' source (key_group key) = (r1, a1)"
    by (cases "get_index fs a f' source (key_group key)")
  have c1: "index_cached fs base a1" by (rule get_index_cached [OF Cons.prems(1) g])
  from Cons.prems(2) seg g
  have "b = a1 \<or> (\<exists>ex acc'. get_array_instrument fs a1 source key ex acc' segs = (r, b))"
    by (auto split: sum.splits prod.splits if_splits)
  with c1 Cons.IH show ?case by blast
qed

lemma get_array_instrument_append:
  assumes "get_array_instrument fs a source key extra acc pre = (Inr arrs, b)"
  shows "\<exists>extra'. get_array_instrument fs a source key extra acc (pre @ rest) =
                   get_array_instrument fs b source key extra' arrs rest"
  using assms
proof (induction pre arbitrary: a extra acc)
  case Nil
  then show ?case by auto
next
  case (Cons seg pre)
  obtain t' f' where seg: "seg = (t', f')" by (cases seg)
  from Cons.prems seg obtain ix a1 tr arr ex where
    g: "get_index fs a f' source (key_group key) = (Inr ix, a1)" and
    n: "\<not> list_ex (\<lambda>c. 1 < c) (snd ix)" and
    e: "expand_trainids (fst ix) (snd ix) t' = Inr tr" and
    s: "segment_array (fs f') (data_path ''INSTRUMENT'' source key) extra tr = Inr (arr, ex)" and
    l: "get_array_instrument fs a1 source key (Some ex) (acc @ [arr]) pre = (Inr arrs, b)"
    by (auto split: sum.splits prod.splits if_splits)
  from Cons.IH [OF l] obtain extra' where
    "get_array_instrument fs a1 source key (Some ex) (acc @ [arr]) (pre @ rest) =
     get_array_instrument fs b source key extra' arrs rest" by blast
  with g n e s seg show ?case by (auto split: prod.splits)
qed

lemma check_field_Inr:
  assumes "check_field fs self source key = (Inr (), self1)"
  shows "keys_cached fs self self1 \<and> source \<in> set (all_sources self)"
proof -
  from assms have s: "source \<in> set (all_sources self)"
    by (auto simp: check_field_def split: if_splits)
  obtain r a where k: "keys_for_source fs self source = (r, a)"
    by (cases "keys_for_source fs self source")
  from assms s k have "a = self1"
    by (auto simp: check_field_def split: sum.splits if_splits)
  with keys_for_source_cached [OF keys_cached_refl k] s show ?thesis by simp
qed

lemma all_sources_set:
  "set (all_sources self) = set (instrument_sources self) \<union> set (control_sources self)"
  by (simp add: all_sources_def)

lemma get_array_instrument_branch:
  assumes chk: "check_field fs self source key = (Inr (), self1)"
    and ins: "source \<notin> set (control_sources self)"
    and segs: "map_of (source_file_mapping self) source = Some segs"
  shows "get_array fs self source key extra_dims =
         (case get_array_instrument fs self1 source key extra_dims [] segs of
            (Inl e, self2) \<Rightarrow> (Inl e, self2)
          | (Inr seq_arrays, self2) \<Rightarrow> (get_array_result source key seq_arrays, self2))"
proof -
  from check_field_Inr [OF chk] have c: "keys_cached fs self self1"
    and s: "source \<in> set (all_sources self)" by simp_all
  note f = keys_cached_fields [OF c]
  from s ins have "source \<in> set (instrument_sources self)" by (simp add: all_sources_set)
  with f ins segs chk show ?thesis by (simp add: get_array_def)
qed

text \<open>
  Claim C3, amended.  For a source that is an instrument source (and not also a control
  source) and a key that passes \<^verbatim>\<open>_check_field\<close>: if the index of the key's group in
  some segment of the source has a count greater than 1, \<^verbatim>\<open>get_array\<close> raises and
  returns no data.  The segments are read in the order of the registry, so the error is
  the "more than one data point per train" ValueError when the segments before that one
  are read without error, and otherwise the error of an earlier segment.
\<close>

theorem get_array_more_than_one:
  assumes chk: "check_field fs self source key = (Inr (), self1)"
    and ins: "source \<in> set (instrument_sources self)" "source \<notin> set (control_sources self)"
    and segs: "map_of (source_file_mapping self) source = Some segs"
    and mem: "(tids, f) \<in> set segs"
    and ix: "index_of fs self f source (key_group key) = Inr (firsts, counts)"
    and gt: "list_ex (\<lambda>c. 1 < c) counts"
  shows "(\<exists>e self2. get_array fs self source key extra_dims = (Inl e, self2)) \<and>
         (\<forall>pre post arrs s.
            segs = pre @ (tids, f) # post \<and>
            get_array_instrument fs self1 source key extra_dims [] pre = (Inr arrs, s) \<longrightarrow>
            fst (get_array fs self source key extra_dims) =
              Inl (ValueError_MoreThanOne source (key_group key)))"
proof (intro conjI allI impI)
  from check_field_Inr [OF chk] have c: "keys_cached fs self self1" by simp
  have ic: "index_cache self1 = index_cache self" using keys_cached_fields [OF c] by simp
  then have ix1: "index_of fs self1 f source (key_group key) = Inr (firsts, counts)"
    using ix by (simp add: index_of_def)
  note br = get_array_instrument_branch [OF chk ins(2) segs, of extra_dims]
  {
    from get_array_instrument_offending [OF index_cached_refl mem ix1 gt, of extra_dims "[]"]
    obtain e b where "get_array_instrument fs self1 source key extra_dims [] segs = (Inl e, b)"
      by blast
    with br show "\<exists>e self2. get_array fs self source key extra_dims = (Inl e, self2)" by simp
  }
  fix pre post arrs s
  assume a: "segs = pre @ (tids, f) # post \<and>
            get_array_instrument fs self1 source key extra_dims [] pre = (Inr arrs, s)"
  then have l: "get_array_instrument fs self1 source key extra_dims [] pre = (Inr arrs, s)"
    and sp: "segs = pre @ (tids, f) # post" by simp_all
  from get_array_instrument_append [OF l, of "(tids, f) # post"] obtain extra' where
    e: "get_array_instrument fs self1 source key extra_dims [] segs =
        get_array_instrument fs s source key extra' arrs ((tids, f) # post)"
    using sp by auto
  have cs: "index_cached fs self1 s"
    by (rule get_array_instrument_cached [OF index_cached_refl l])
  from get_array_instrument_first_offending [OF cs ix1 gt, of extra' arrs tids post] e
  have "fst (get_array_instrument fs self1 source key extra_dims [] segs) =
        Inl (ValueError_MoreThanOne source (key_group key))" by simp
  with br show "fst (get_array fs self source key extra_dims) =
              Inl (ValueError_MoreThanOne source (key_group key))"
    by (cases "get_array_instrument fs self1 source key extra_dims [] segs") auto
qed

text \<open>
  The theorem at \<^verbatim>\<open>ex_run.get_array('Y:o', 'im.d')\<close>: the first file has the counts
  \<open>[0, 2, 1]\<close>.
\<close>

theorem get_array_more_than_one_witness:
  "check_field ex_fs ex_run ''Y:o'' ''im.d'' =
     (Inr (), ex_run\<lparr>source_keys := [(''Y:o'', KeySet [''im.d''])]\<rparr>) \<and>
   index_of ex_fs ex_run 0 ''Y:o'' (key_group ''im.d'') = Inr ([0, 0, 2], [0, 2, 1]) \<and>
   fst (get_array ex_fs ex_run ''Y:o'' ''im.d'' None) =
     Inl (ValueError_MoreThanOne ''Y:o'' (key_group ''im.d'')) \<and>
   key_group ''im.d'' = ''im''"
proof -
  have chk: "check_field ex_fs ex_run ''Y:o'' ''im.d'' =
     (Inr (), ex_run\<lparr>source_keys := [(''Y:o'', KeySet [''im.d''])]\<rparr>)" by code_simp
  have i1: "''Y:o'' \<in> set (instrument_sources ex_run)" by code_simp
  have i2: "''Y:o'' \<notin> set (control_sources ex_run)" by code_simp
  have segs: "map_of (source_file_mapping ex_run) ''Y:o'' = Some [([10, 11, 12], 0), ([13, 14], 1)]"
    by code_simp
  have mem: "([10, 11, 12], 0) \<in> set [([10, 11, 12], 0), ([13, 14], 1 :: nat)]" by simp
  have ix: "index_of ex_fs ex_run 0 ''Y:o'' (key_group ''im.d'') = Inr ([0, 0, 2], [0, 2, 1])"
    by code_simp
  have gt: "list_ex (\<lambda>c. 1 < c) [0, 2, 1 :: u64]" by simp
  have pre: "[([10, 11, 12], 0), ([13, 14], 1)] = [] @ ([10, 11, 12], 0) # [([13, 14], 1 :: nat)] \<and>
     get_array_instrument ex_fs (ex_run\<lparr>source_keys := [(''Y:o'', KeySet [''im.d''])]\<rparr>)
       ''Y:o'' ''im.d'' None [] [] = (Inr [], ex_run\<lparr>source_keys := [(''Y:o'', KeySet [''im.d''])]\<rparr>)"
    by simp
  note t = get_array_more_than_one [OF chk i1 i2 segs mem ix gt, of None]
  note c = t [THEN conjunct2, THEN spec, THEN spec, THEN spec, THEN spec, THEN mp, OF pre]
  have k: "key_group ''im.d'' = ''im''" by code_simp
  show ?thesis by (intro conjI) (rule chk ix c k)+
qed

text \<open>
  Claim C3 as stated names the error that is raised.  On the run built from the second
  file, then the first, \<^verbatim>\<open>get_array('Y:o', 'im.d', extra_dims=['a'])\<close> reads the
  segment of the second file first: its counts are \<open>[1, 1]\<close>, and its one-dimensional
  data do not take the two dimension names \<^verbatim>\<open>['trainId', 'a']\<close>, which is a ValueError
  of the array constructor.  The segment with the counts \<open>[0, 2, 1]\<close> is never reached.
\<close>

theorem get_array_earlier_error_counterexample:
  "add_file ex_fs (snd (add_file ex_fs empty_collection 1)) 0 = (Inr (), ex_run_swapped) \<and>
   fst (check_field ex_fs ex_run_swapped ''Y:o'' ''im.d'') = Inr () \<and>
   ''Y:o'' \<in> set (instrument_sources ex_run_swapped) \<and>
   ''Y:o'' \<notin> set (control_sources ex_run_swapped) \<and>
   map_of (source_file_mapping ex_run_swapped) ''Y:o'' = Some [([13, 14], 1), ([10, 11, 12], 0)] \<and>
   index_of ex_fs ex_run_swapped 0 ''Y:o'' (key_group ''im.d'') = Inr ([0, 0, 2], [0, 2, 1]) \<and>
   fst (get_array ex_fs ex_run_swapped ''Y:o'' ''im.d'' (Some [Named ''a''])) = Inl ValueError_Dims \<and>
   ValueError_Dims \<noteq> ValueError_MoreThanOne ''Y:o'' (key_group ''im.d'')"
  by code_simp

lemma get_array_control_branch:
  assumes chk: "check_field fs self source key = (Inr (), self1)"
    and ctl: "source \<in> set (control_sources self)"
    and segs: "map_of (source_file_mapping self) source = Some segs"
  shows "get_array fs self source key extra_dims =
         (case get_array_control fs (data_path ''CONTROL'' source key) extra_dims [] segs of
            Inl e \<Rightarrow> (Inl e, self1)
          | Inr seq_arrays \<Rightarrow> (get_array_result source key seq_arrays, self1))"
proof -
  from check_field_Inr [OF chk] have c: "keys_cached fs self self1" by simp
  note f = keys_cached_fields [OF c]
  with ctl segs chk show ?thesis by (simp add: get_array_def)
qed

lemma get_array_result_all_empty:
  "arrs \<noteq> [] \<Longrightarrow> list_all (\<lambda>a. da_size a = 0) arrs \<Longrightarrow>
   get_array_result source key arrs = Inr (hd arrs)"
  by (cases arrs) (auto simp: get_array_result_def Let_def list_all_iff filter_empty_conv)

lemma get_array_control_length:
  "get_array_control fs path extra acc segs = Inr arrs \<Longrightarrow>
   length arrs = length acc + length segs"
  by (induction fs path extra acc segs rule: get_array_control.induct)
     (auto split: sum.splits prod.splits)

lemma get_array_instrument_length:
  "get_array_instrument fs a source key extra acc segs = (Inr arrs, b) \<Longrightarrow>
   length arrs = length acc + length segs"
  by (induction fs a source key extra acc segs rule: get_array_instrument.induct)
     (auto split: sum.splits prod.splits if_splits)

text \<open>
  Claim C7.  For a source and key that pass \<^verbatim>\<open>_check_field\<close>: when the source has no
  segment, \<^verbatim>\<open>get_array\<close> raises the "Unable to get data" exception; when either loop
  gives one array per segment and every array is empty, \<^verbatim>\<open>get_array\<close> returns the
  first of them.
\<close>

theorem get_array_all_empty:
  assumes chk: "check_field fs self source key = (Inr (), self1)"
    and segs: "map_of (source_file_mapping self) source = Some segs"
  shows "(segs = [] \<longrightarrow>
            fst (get_array fs self source key extra_dims) =
              Inl (Exception_UnableToGetData source key)) \<and>
         (\<forall>arrs. source \<in> set (control_sources self) \<and>
            get_array_control fs (data_path ''CONTROL'' source key) extra_dims [] segs = Inr arrs \<and>
            arrs \<noteq> [] \<and> list_all (\<lambda>a. da_size a = 0) arrs \<longrightarrow>
            fst (get_array fs self source key extra_dims) = Inr (hd arrs) \<and>
            length arrs = length segs) \<and>
         (\<forall>arrs s. source \<notin> set (control_sources self) \<and>
            get_array_instrument fs self1 source key extra_dims [] segs = (Inr arrs, s) \<and>
            arrs \<noteq> [] \<and> list_all (\<lambda>a. da_size a = 0) arrs \<longrightarrow>
            fst (get_array fs self source key extra_dims) = Inr (hd arrs) \<and>
            length arrs = length segs)"
proof (intro conjI allI impI)
  assume e: "segs = []"
  show "fst (get_array fs self source key extra_dims) = Inl (Exception_UnableToGetData source key)"
  proof (cases "source \<in> set (control_sources self)")
    case True
    from get_array_control_branch [OF chk True segs, of extra_dims] e show ?thesis
      by (simp add: get_array_result_def)
  next
    case False
    from get_array_instrument_branch [OF chk False segs, of extra_dims] e show ?thesis
      by (simp add: get_array_result_def)
  qed
next
  fix arrs
  assume a: "source \<in> set (control_sources self) \<and>
            get_array_control fs (data_path ''CONTROL'' source key) extra_dims [] segs = Inr arrs \<and>
            arrs \<noteq> [] \<and> list_all (\<lambda>a. da_size a = 0) arrs"
  then have r: "get_array_result source key arrs = Inr (hd arrs)"
    by (simp add: get_array_result_all_empty)
  from a get_array_control_branch [OF chk _ segs, of extra_dims] r
  show "fst (get_array fs self source key extra_dims) = Inr (hd arrs)" by simp
  from a get_array_control_length show "length arrs = length segs" by fastforce
next
  fix arrs s
  assume a: "source \<notin> set (control_sources self) \<and>
            get_array_instrument fs self1 source key extra_dims [] segs = (Inr arrs, s) \<and>
            arrs \<noteq> [] \<and> list_all (\<lambda>a. da_size a = 0) arrs"
  then have r: "get_array_result source key arrs = Inr (hd arrs)"
    by (simp add: get_array_result_all_empty)
  from a get_array_instrument_branch [OF chk _ segs, of extra_dims] r
  show "fst (get_array fs self source key extra_dims) = Inr (hd arrs)" by simp
  from a get_array_instrument_length show "length arrs = length segs" by fastforce
qed

text \<open>
  The theorem at \<^verbatim>\<open>ex_run.get_array('Z:o', 'im.d')\<close>, where both segments give an empty
  array of shape (0, 2), and at a collection whose source has no segment.
\<close>

theorem get_array_all_empty_witness:
  "check_field ex_fs ex_run ''Z:o'' ''im.d'' =
     (Inr (), ex_run\<lparr>source_keys := [(''Z:o'', KeySet [''im.d''])]\<rparr>) \<and>
   fst (get_array_instrument ex_fs (ex_run\<lparr>source_keys := [(''Z:o'', KeySet [''im.d''])]\<rparr>)
          ''Z:o'' ''im.d'' None [] [([10, 11, 12], 0), ([13, 14], 1)]) =
     Inr [\<lparr>da_dims = [TrainId, Dim 0], da_coords = [], da_rows = [], da_tail = [2]\<rparr>,
          \<lparr>da_dims = [TrainId, Dim 0], da_coords = [], da_rows = [], da_tail = [2]\<rparr>] \<and>
   fst (get_array ex_fs ex_run ''Z:o'' ''im.d'' None) =
     Inr \<lparr>da_dims = [TrainId, Dim 0], da_coords = [], da_rows = [], da_tail = [2]\<rparr> \<and>
   check_field ex_fs ex_no_segments ''Z:o'' ''im.d'' = (Inr (), ex_no_segments) \<and>
   fst (get_array ex_fs ex_no_segments ''Z:o'' ''im.d'' None) =
     Inl (Exception_UnableToGetData ''Z:o'' ''im.d'')"
proof -
  let ?e = "\<lparr>da_dims = [TrainId, Dim 0], da_coords = [], da_rows = [] :: int list list, da_tail = [2]\<rparr>"
  let ?s1 = "ex_run\<lparr>source_keys := [(''Z:o'', KeySet [''im.d''])]\<rparr>"
  let ?s2 = "snd (get_array_instrument ex_fs ?s1 ''Z:o'' ''im.d'' None [] [([10, 11, 12], 0), ([13, 14], 1)])"
  have chk: "check_field ex_fs ex_run ''Z:o'' ''im.d'' = (Inr (), ?s1)" by code_simp
  have segs: "map_of (source_file_mapping ex_run) ''Z:o'' = Some [([10, 11, 12], 0), ([13, 14], 1)]"
    by code_simp
  have l: "fst (get_array_instrument ex_fs ?s1 ''Z:o'' ''im.d'' None [] [([10, 11, 12], 0), ([13, 14], 1)])
      = Inr [?e, ?e]" by code_simp
  then have l': "get_array_instrument ex_fs ?s1 ''Z:o'' ''im.d'' None [] [([10, 11, 12], 0), ([13, 14], 1)]
      = (Inr [?e, ?e], ?s2)" by (simp add: prod_eq_iff)
  have nc: "''Z:o'' \<notin> set (control_sources ex_run)" by code_simp
  have em: "[?e, ?e] \<noteq> [] \<and> list_all (\<lambda>a. da_size a = 0) [?e, ?e]" by (simp add: da_size_def)
  note t = get_array_all_empty [OF chk segs, of None]
  note c1 = t [THEN conjunct2, THEN conjunct2, THEN spec, THEN spec, THEN mp,
      OF conjI [OF nc conjI [OF l' em]], THEN conjunct1]
  have r: "fst (get_array ex_fs ex_run ''Z:o'' ''im.d'' None) = Inr ?e" using c1 by simp
  have chk2: "check_field ex_fs ex_no_segments ''Z:o'' ''im.d'' = (Inr (), ex_no_segments)"
    by code_simp
  have segs2: "map_of (source_file_mapping ex_no_segments) ''Z:o'' = Some []" by code_simp
  note c2 = get_array_all_empty [OF chk2 segs2, of None, THEN conjunct1, THEN mp, OF refl]
  show ?thesis by (intro conjI) (rule chk l r chk2 c2)+
qed

subsection \<open>Iteration over trains\<close>

lemma caches_agree_refl: "caches_agree fs self self"
  by (simp add: caches_agree_def)

lemma caches_agree_find_data:
  "caches_agree fs self a \<Longrightarrow> find_data a s tid = find_data self s tid"
  by (simp add: find_data_def caches_agree_def)

lemma keys_for_source_index_cache:
  "fst (keys_for_source fs (a\<lparr>index_cache := c\<rparr>) s) = fst (keys_for_source fs a s)"
  unfolding keys_for_source_def all_sources_def
  by (auto simp: Let_def split: option.splits list.splits)

lemma caches_agree_keys_step:
  assumes c: "caches_agree fs self a" and k: "keys_for_source fs a s = (r, b)"
  shows "caches_agree fs self b" "r = fst (keys_for_source fs self s)"
proof -
  have kc: "keys_cached fs a b" by (rule keys_for_source_cached [OF keys_cached_refl k])
  note f = keys_cached_fields [OF kc]
  have ks: "fst (keys_for_source fs b s') = fst (keys_for_source fs a s')" for s'
    by (rule keys_cached_same_keys [OF kc])
  have ix: "index_of fs b f' s' g' = index_of fs a f' s' g'" for f' s' g'
    using f by (simp add: index_of_def)
  show "caches_agree fs self b"
    using c f unfolding caches_agree_def by (simp only: ks ix) simp
  from c have "fst (keys_for_source fs a s) = fst (keys_for_source fs self s)"
    by (simp add: caches_agree_def)
  with k show "r = fst (keys_for_source fs self s)" by simp
qed

lemma caches_agree_index_step:
  assumes c: "caches_agree fs self a" and g: "get_index fs a f s grp = (r, b)"
  shows "caches_agree fs self b" "r = index_of fs self f s grp"
proof -
  have ic: "index_cached fs a b" by (rule get_index_cached [OF index_cached_refl g])
  note fl = index_cached_fields [OF ic]
  from ic have b: "b = a\<lparr>index_cache := index_cache b\<rparr>" by (simp add: index_cached_def)
  have ks: "fst (keys_for_source fs b s') = fst (keys_for_source fs a s')" for s'
    by (subst b) (rule keys_for_source_index_cache)
  have ix: "index_of fs b f' s' g' = index_of fs a f' s' g'" for f' s' g'
    using ic by (simp add: index_cached_def)
  show "caches_agree fs self b"
    using c fl unfolding caches_agree_def by (simp only: ks ix) simp
  have "r = index_of fs a f s grp" using get_index_value [of fs a f s grp] g by simp
  with c show "r = index_of fs self f s grp" by (simp add: caches_agree_def)
qed

lemma groups_missing_spec:
  assumes "caches_agree fs self a" "groups_missing fs a fil pos s gs = (r, b)"
  shows "caches_agree fs self b \<and>
         (\<forall>m. r = Inr m \<longrightarrow> (m \<longleftrightarrow> list_ex (count_zero fs self fil pos s) gs))"
  using assms
proof (induction gs arbitrary: a)
  case Nil
  then show ?case by auto
next
  case (Cons g gs)
  obtain r1 a1 where gi: "get_index fs a fil s g = (r1, a1)"
    by (cases "get_index fs a fil s g")
  note st = caches_agree_index_step [OF Cons.prems(1) gi]
  show ?case
  proof (cases r1)
    case (Inl e)
    with Cons.prems(2) gi st(1) show ?thesis by auto
  next
    case (Inr ix)
    obtain fi ci where ix: "ix = (fi, ci)" by (cases ix)
    from st(2) Inr ix have v: "index_of fs self fil s g = Inr (fi, ci)" by simp
    show ?thesis
    proof (cases "length ci \<le> pos")
      case True
      with Cons.prems(2) gi Inr ix st(1) show ?thesis by auto
    next
      case False
      show ?thesis
      proof (cases "ci ! pos = 0")
        case True
        with Cons.prems(2) gi Inr ix False have "r = Inr True" "b = a1" by simp_all
        moreover have "count_zero fs self fil pos s g"
          using v True False by (simp add: count_zero_def)
        ultimately show ?thesis using st(1) by simp
      next
        case nz: False
        with Cons.prems(2) gi Inr ix False
        have l: "groups_missing fs a1 fil pos s gs = (r, b)" by simp
        note ih = Cons.IH [OF st(1) l]
        have ng: "\<not> count_zero fs self fil pos s g"
          using v nz by (simp add: count_zero_def)
        from ih ng show ?thesis by simp
      qed
    qed
  qed
qed

lemma control_missing_spec:
  "control_missing self tid srcs = Inr m \<Longrightarrow> (m \<longleftrightarrow> list_ex (source_absent self tid) srcs)"
  by (induction srcs) (auto simp: source_absent_def split: sum.splits option.splits)

lemma instrument_missing_spec:
  assumes "caches_agree fs self a" "instrument_missing fs a tid srcs = (r, b)"
  shows "caches_agree fs self b \<and>
         (\<forall>m. r = Inr m \<longrightarrow>
            (m \<longleftrightarrow> list_ex (\<lambda>s. source_absent self tid s \<or> group_count_zero fs self tid s) srcs))"
  using assms
proof (induction srcs arbitrary: a)
  case Nil
  then show ?case by auto
next
  case (Cons s srcs)
  note fd = caches_agree_find_data [OF Cons.prems(1), of s tid]
  show ?case
  proof (cases "find_data self s tid")
    case (Inl e)
    with Cons.prems fd show ?thesis by auto
  next
    case (Inr o1)
    show ?thesis
    proof (cases o1)
      case None
      with Inr Cons.prems fd have "r = Inr True" "b = a" by simp_all
      moreover have "source_absent self tid s"
        using Inr None by (simp add: source_absent_def)
      ultimately show ?thesis using Cons.prems(1) by simp
    next
      case (Some fp)
      obtain fil pos where fp: "fp = (fil, pos)" by (cases fp)
      from Inr Some fp fd have fda: "find_data a s tid = Inr (Some (fil, pos))" by simp
      from Inr Some fp have fds: "find_data self s tid = Inr (Some (fil, pos))" by simp
      then have na: "\<not> source_absent self tid s" by (simp add: source_absent_def)
      obtain r1 a1 where k: "keys_for_source fs a s = (r1, a1)" by (cases "keys_for_source fs a s")
      note ks = caches_agree_keys_step [OF Cons.prems(1) k]
      show ?thesis
      proof (cases r1)
        case (Inl e)
        with Cons.prems(2) fda k ks(1) show ?thesis by auto
      next
        case keys: (Inr keys)
        show ?thesis
        proof (cases "pykeys_iter keys")
          case (Inl e)
          with Cons.prems(2) fda k keys ks(1) show ?thesis by auto
        next
          case kl: (Inr kl)
          obtain r2 a2 where gm: "groups_missing fs a1 fil pos s (remdups (map key_group kl)) = (r2, a2)"
            by (cases "groups_missing fs a1 fil pos s (remdups (map key_group kl))")
          from groups_missing_spec [OF ks(1) gm]
          have c2: "caches_agree fs self a2" and
            m2: "\<And>m. r2 = Inr m \<Longrightarrow>
                   (m \<longleftrightarrow> list_ex (count_zero fs self fil pos s) (map key_group kl))"
            by (simp_all add: list_ex_iff)
          have ism: "group_count_zero fs self tid s \<longleftrightarrow>
                list_ex (count_zero fs self fil pos s) (map key_group kl)"
            unfolding group_count_zero_def
            using fds ks(2) [symmetric] keys kl by simp
          show ?thesis
          proof (cases r2)
            case (Inl e)
            with Cons.prems(2) fda k keys kl gm c2 show ?thesis by auto
          next
            case (Inr m)
            show ?thesis
            proof (cases m)
              case True
              with Cons.prems(2) fda k keys kl gm Inr have "r = Inr True" "b = a2" by simp_all
              moreover from m2 [OF Inr] True ism have "group_count_zero fs self tid s" by simp
              ultimately show ?thesis using c2 by simp
            next
              case False
              with Cons.prems(2) fda k keys kl gm Inr
              have l: "instrument_missing fs a2 tid srcs = (r, b)" by simp
              from m2 [OF Inr] False ism have "\<not> group_count_zero fs self tid s" by simp
              with Cons.IH [OF c2 l] na show ?thesis by simp
            qed
          qed
        qed
      qed
    qed
  qed
qed

lemma check_data_missing_spec:
  assumes c: "caches_agree fs self a" and m: "check_data_missing fs a tid = (r, b)"
  shows "caches_agree fs self b" "r = Inr m' \<Longrightarrow> (m' \<longleftrightarrow> train_missing fs self tid)"
proof -
  from c have cs: "control_sources a = control_sources self"
    and ins: "instrument_sources a = instrument_sources self"
    by (simp_all add: caches_agree_def)
  have cm: "control_missing a tid srcs = control_missing self tid srcs" for srcs
    by (induction srcs) (simp_all add: caches_agree_find_data [OF c] split: sum.splits option.splits)
  have both: "caches_agree fs self b \<and> (\<forall>m'. r = Inr m' \<longrightarrow> (m' \<longleftrightarrow> train_missing fs self tid))"
  proof (cases "control_missing self tid (control_sources self)")
    case (Inl e)
    with m cs cm c show ?thesis by (auto simp: check_data_missing_def)
  next
    case (Inr cmv)
    note sp = control_missing_spec [OF Inr]
    show ?thesis
    proof (cases cmv)
      case True
      with m cs cm Inr have "r = Inr True" "b = a" by (simp_all add: check_data_missing_def)
      with c sp True show ?thesis by (simp add: train_missing_def)
    next
      case False
      with m cs cm Inr ins
      have l: "instrument_missing fs a tid (instrument_sources self) = (r, b)"
        by (simp add: check_data_missing_def)
      from instrument_missing_spec [OF c l] sp False show ?thesis
        by (simp add: train_missing_def)
    qed
  qed
  from both show "caches_agree fs self b" by simp
  from both show "r = Inr m' \<Longrightarrow> (m' \<longleftrightarrow> train_missing fs self tid)" by simp
qed

lemma find_segment_None:
  "find_segment segs tid = None \<Longrightarrow> (tids, f) \<in> set segs \<Longrightarrow> list_index tids tid = None"
  by (induction segs) (auto split: option.splits)

lemma find_segment_Some:
  "find_segment segs tid = Some (tids, f, ix) \<Longrightarrow> (tids, f) \<in> set segs"
  by (induction segs) (auto split: option.splits)

lemma source_absent_segs:
  "source_absent self tid s \<Longrightarrow>
   \<exists>segs. map_of (source_file_mapping self) s = Some segs \<and> find_segment segs tid = None"
  by (auto simp: source_absent_def find_data_def split: option.splits)

lemma it_scan_absent:
  assumes "source_file_mapping dc = source_file_mapping self" "source_absent self tid s"
  shows "it_scan fs cache dc s key tid = (Inr None, cache)"
  using source_absent_segs [OF assms(2)] assms(1)
  by (auto simp: it_scan_def Let_def)

lemma it_find_data_absent:
  assumes ok: "cache_ok self cache" and sfm: "source_file_mapping dc = source_file_mapping self"
    and ab: "source_absent self tid s"
  shows "it_find_data fs cache dc s key tid = (Inr None, cache)"
proof (cases "map_of cache (s, key)")
  case None
  then show ?thesis by (simp add: it_find_data_def it_scan_absent [OF sfm ab])
next
  case (Some e)
  obtain tids f ds where e: "e = (tids, f, ds)" by (cases e)
  from source_absent_segs [OF ab] obtain segs where
    segs: "map_of (source_file_mapping self) s = Some segs" "find_segment segs tid = None" by blast
  from ok Some e have "\<exists>segs'. map_of (source_file_mapping self) s = Some segs' \<and> (tids, f) \<in> set segs'"
    unfolding cache_ok_def by blast
  with segs(1) have "(tids, f) \<in> set segs" by auto
  from find_segment_None [OF segs(2) this] have "list_index tids tid = None" .
  with Some e show ?thesis by (simp add: it_find_data_def it_scan_absent [OF sfm ab])
qed

lemma it_scan_cache_ok:
  assumes ok: "cache_ok self cache" and sfm: "source_file_mapping dc = source_file_mapping self"
    and sc: "it_scan fs cache dc s key tid = (r, cache')"
  shows "cache_ok self cache'"
proof (cases "map_of (source_file_mapping self) s")
  case None
  with sc sfm ok show ?thesis by (simp add: it_scan_def Let_def)
next
  case (Some segs)
  show ?thesis
  proof (cases "find_segment segs tid")
    case None
    with sc sfm ok Some show ?thesis by (simp add: it_scan_def Let_def)
  next
    case fs: (Some e)
    obtain tids f ix where e: "e = (tids, f, ix)" by (cases e)
    from fs e have m: "(tids, f) \<in> set segs" by (simp add: find_segment_Some)
    let ?sec = "if s \<in> set (control_sources dc) then ''CONTROL'' else ''INSTRUMENT''"
    show ?thesis
    proof (cases "h5_dataset (fs f) (data_path ?sec s key)")
      case None
      with sc sfm ok Some fs e show ?thesis by (simp add: it_scan_def Let_def)
    next
      case ds: (Some ds)
      with sc sfm Some fs e
      have c': "cache' = AList.update (s, key) (tids, f, ds) cache"
        by (simp add: it_scan_def Let_def)
      show ?thesis
        unfolding cache_ok_def c' update_conv'
        using ok Some m by (auto simp: cache_ok_def)
    qed
  qed
qed

lemma it_find_data_cache_ok:
  assumes ok: "cache_ok self cache" and sfm: "source_file_mapping dc = source_file_mapping self"
    and fd: "it_find_data fs cache dc s key tid = (r, cache')"
  shows "cache_ok self cache'"
proof -
  from fd have "cache' = cache \<or> it_scan fs cache dc s key tid = (r, cache')"
    by (auto simp: it_find_data_def split: option.splits prod.splits)
  then show ?thesis using ok it_scan_cache_ok [OF ok sfm] by blast
qed

lemma control_keys_data_spec:
  assumes "cache_ok self cache" "source_file_mapping dc = source_file_mapping self"
    "control_keys_data fs dc cache s tid sd ks = (r, cache')"
  shows "cache_ok self cache' \<and> (source_absent self tid s \<longrightarrow> r = Inr sd)"
  using assms
proof (induction ks arbitrary: cache sd)
  case Nil
  then show ?case by auto
next
  case (Cons key ks)
  obtain r1 c1 where f: "it_find_data fs cache dc s key tid = (r1, c1)"
    by (cases "it_find_data fs cache dc s key tid")
  note ok1 = it_find_data_cache_ok [OF Cons.prems(1,2) f]
  show ?case
  proof (cases "source_absent self tid s")
    case True
    from it_find_data_absent [OF Cons.prems(1,2) True, of fs key] f
    have "r1 = Inr None" "c1 = cache" by simp_all
    with Cons.prems(3) f have "control_keys_data fs dc cache s tid sd ks = (r, cache')" by simp
    from Cons.IH [OF Cons.prems(1,2) this] show ?thesis .
  next
    case False
    show ?thesis
    proof (cases r1)
      case (Inl e)
      with Cons.prems(3) f ok1 False show ?thesis by auto
    next
      case (Inr o1)
      show ?thesis
      proof (cases o1)
        case None
        with Cons.prems(3) f Inr have "control_keys_data fs dc c1 s tid sd ks = (r, cache')" by simp
        from Cons.IH [OF ok1 Cons.prems(2) this] False show ?thesis by simp
      next
        case (Some t)
        obtain fil pos ds where t: "t = (fil, pos, ds)" by (cases t)
        show ?thesis
        proof (cases "ds_row ds pos")
          case (Inl e)
          with Cons.prems(3) f Inr Some t ok1 False show ?thesis by auto
        next
          case v: (Inr v)
          with Cons.prems(3) f Inr Some t
          have "control_keys_data fs dc c1 s tid (AList.update key v sd) ks = (r, cache')" by simp
          from Cons.IH [OF ok1 Cons.prems(2) this] False show ?thesis by simp
        qed
      qed
    qed
  qed
qed

lemma caches_agree_sfm:
  "caches_agree fs self dc \<Longrightarrow> source_file_mapping dc = source_file_mapping self"
  by (simp add: caches_agree_def)

lemma instrument_keys_data_spec:
  assumes "caches_agree fs self dc" "cache_ok self cache"
    "instrument_keys_data fs dc cache s tid sd ks = (r, dc', cache')"
  shows "caches_agree fs self dc' \<and> cache_ok self cache' \<and>
         (source_absent self tid s \<longrightarrow> r = Inr sd)"
  using assms
proof (induction ks arbitrary: dc cache sd)
  case Nil
  then show ?case by auto
next
  case (Cons key ks)
  note sfm = caches_agree_sfm [OF Cons.prems(1)]
  obtain r1 c1 where f: "it_find_data fs cache dc s key tid = (r1, c1)"
    by (cases "it_find_data fs cache dc s key tid")
  note ok1 = it_find_data_cache_ok [OF Cons.prems(2) sfm f]
  show ?case
  proof (cases "source_absent self tid s")
    case True
    from it_find_data_absent [OF Cons.prems(2) sfm True, of fs key] f
    have "r1 = Inr None" "c1 = cache" by simp_all
    with Cons.prems(3) f have "instrument_keys_data fs dc cache s tid sd ks = (r, dc', cache')"
      by simp
    from Cons.IH [OF Cons.prems(1,2) this] show ?thesis .
  next
    case False
    show ?thesis
    proof (cases r1)
      case (Inl e)
      with Cons.prems(1,3) f ok1 False show ?thesis by auto
    next
      case (Inr o1)
      show ?thesis
      proof (cases o1)
        case None
        with Cons.prems(3) f Inr
        have "instrument_keys_data fs dc c1 s tid sd ks = (r, dc', cache')" by simp
        from Cons.IH [OF Cons.prems(1) ok1 this] False show ?thesis by simp
      next
        case (Some t)
        obtain fil pos ds where t: "t = (fil, pos, ds)" by (cases t)
        obtain r2 d2 where g: "get_index fs dc fil s (key_group key) = (r2, d2)"
          by (cases "get_index fs dc fil s (key_group key)")
        note st = caches_agree_index_step [OF Cons.prems(1) g]
        show ?thesis
        proof (cases r2)
          case (Inl e)
          with Cons.prems(3) f Inr Some t g st(1) ok1 False show ?thesis by auto
        next
          case ix: (Inr ix)
          obtain firsts counts where fc: "ix = (firsts, counts)" by (cases ix)
          show ?thesis
          proof (cases "pos \<ge> length firsts \<or> pos \<ge> length counts")
            case True
            with Cons.prems(3) f Inr Some t g ix fc st(1) ok1 False show ?thesis by auto
          next
            case inb: False
            show ?thesis
            proof (cases "counts ! pos = 1")
              case one: True
              show ?thesis
              proof (cases "ds_row ds (unat (firsts ! pos))")
                case (Inl e)
                with Cons.prems(3) f Inr Some t g ix fc st(1) ok1 False inb one
                show ?thesis by auto
              next
                case v: (Inr v)
                with Cons.prems(3) f Inr Some t g ix fc inb one
                have "instrument_keys_data fs d2 c1 s tid (AList.update key v sd) ks = (r, dc', cache')"
                  by simp
                from Cons.IH [OF st(1) ok1 this] False show ?thesis by simp
              qed
            next
              case False
              with Cons.prems(3) f Inr Some t g ix fc inb
              have "instrument_keys_data fs d2 c1 s tid
                      (AList.update key (ds_block ds (firsts ! pos) (counts ! pos)) sd) ks =
                    (r, dc', cache')"
                by simp
              from Cons.IH [OF st(1) ok1 this] \<open>\<not> source_absent self tid s\<close> show ?thesis by simp
            qed
          qed
        qed
      qed
    qed
  qed
qed

lemma assemble_control_spec:
  assumes "caches_agree fs self dc" "cache_ok self cache"
    "assemble_control fs dc cache tid res srcs = (r, dc', cache')"
  shows "caches_agree fs self dc' \<and> cache_ok self cache' \<and>
         (\<forall>res'. r = Inr res' \<longrightarrow>
            (\<forall>s. source_absent self tid s \<and> (s \<in> set srcs \<or> map_of res s = Some []) \<longrightarrow>
                 map_of res' s = Some []))"
  using assms
proof (induction srcs arbitrary: dc cache res)
  case Nil
  then show ?case by auto
next
  case (Cons x srcs)
  obtain r1 d1 where k: "keys_for_source fs dc x = (r1, d1)" by (cases "keys_for_source fs dc x")
  note ks = caches_agree_keys_step [OF Cons.prems(1) k]
  show ?case
  proof (cases r1)
    case (Inl e)
    with Cons.prems(2,3) k ks(1) show ?thesis by auto
  next
    case keys: (Inr keys)
    show ?thesis
    proof (cases "pykeys_iter keys")
      case (Inl e)
      with Cons.prems(2,3) k keys ks(1) show ?thesis by auto
    next
      case kl: (Inr kl)
      obtain r2 c2 where kd: "control_keys_data fs d1 cache x tid [] kl = (r2, c2)"
        by (cases "control_keys_data fs d1 cache x tid [] kl")
      from control_keys_data_spec [OF Cons.prems(2) caches_agree_sfm [OF ks(1)] kd]
      have ok2: "cache_ok self c2" and ab: "source_absent self tid x \<Longrightarrow> r2 = Inr []"
        by simp_all
      show ?thesis
      proof (cases r2)
        case (Inl e)
        with Cons.prems(3) k keys kl kd ks(1) ok2 show ?thesis by auto
      next
        case sd: (Inr sd)
        with Cons.prems(3) k keys kl kd
        have l: "assemble_control fs d1 c2 tid (AList.update x sd res) srcs = (r, dc', cache')"
          by simp
        note ih = Cons.IH [OF ks(1) ok2 l]
        have step: "s \<in> set srcs \<or> map_of (AList.update x sd res) s = Some []"
          if "source_absent self tid s" "s \<in> set (x # srcs) \<or> map_of res s = Some []" for s
        proof (cases "s = x")
          case True
          with that(1) ab sd have "sd = []" by simp
          with True show ?thesis by (simp add: update_conv')
        next
          case False
          with that(2) show ?thesis by (auto simp: update_conv')
        qed
        from ih step show ?thesis by blast
      qed
    qed
  qed
qed

lemma assemble_instrument_spec:
  assumes "caches_agree fs self dc" "cache_ok self cache"
    "assemble_instrument fs dc cache tid res srcs = (r, dc', cache')"
  shows "caches_agree fs self dc' \<and> cache_ok self cache' \<and>
         (\<forall>res'. r = Inr res' \<longrightarrow>
            (\<forall>s. source_absent self tid s \<and> (s \<in> set srcs \<or> map_of res s = Some []) \<longrightarrow>
                 map_of res' s = Some []))"
  using assms
proof (induction srcs arbitrary: dc cache res)
  case Nil
  then show ?case by auto
next
  case (Cons x srcs)
  obtain r1 d1 where k: "keys_for_source fs dc x = (r1, d1)" by (cases "keys_for_source fs dc x")
  note ks = caches_agree_keys_step [OF Cons.prems(1) k]
  show ?case
  proof (cases r1)
    case (Inl e)
    with Cons.prems(2,3) k ks(1) show ?thesis by auto
  next
    case keys: (Inr keys)
    show ?thesis
    proof (cases "pykeys_iter keys")
      case (Inl e)
      with Cons.prems(2,3) k keys ks(1) show ?thesis by auto
    next
      case kl: (Inr kl)
      obtain r2 d2 c2 where kd: "instrument_keys_data fs d1 cache x tid [] kl = (r2, d2, c2)"
        by (cases "instrument_keys_data fs d1 cache x tid [] kl")
      from instrument_keys_data_spec [OF ks(1) Cons.prems(2) kd]
      have ag2: "caches_agree fs self d2" and ok2: "cache_ok self c2"
        and ab: "source_absent self tid x \<Longrightarrow> r2 = Inr []"
        by simp_all
      show ?thesis
      proof (cases r2)
        case (Inl e)
        with Cons.prems(3) k keys kl kd ag2 ok2 show ?thesis by auto
      next
        case sd: (Inr sd)
        with Cons.prems(3) k keys kl kd
        have l: "assemble_instrument fs d2 c2 tid (AList.update x sd res) srcs = (r, dc', cache')"
          by simp
        note ih = Cons.IH [OF ag2 ok2 l]
        have step: "s \<in> set srcs \<or> map_of (AList.update x sd res) s = Some []"
          if "source_absent self tid s" "s \<in> set (x # srcs) \<or> map_of res s = Some []" for s
        proof (cases "s = x")
          case True
          with that(1) ab sd have "sd = []" by simp
          with True show ?thesis by (simp add: update_conv')
        next
          case False
          with that(2) show ?thesis by (auto simp: update_conv')
        qed
        from ih step show ?thesis by blast
      qed
    qed
  qed
qed

lemma assemble_data_spec:
  assumes ag: "caches_agree fs self dc" and ok: "cache_ok self cache"
    and a: "assemble_data fs dc cache tid = (r, dc', cache')"
  shows "caches_agree fs self dc' \<and> cache_ok self cache' \<and>
         (\<forall>res'. r = Inr res' \<longrightarrow>
            (\<forall>s. source_absent self tid s \<and> s \<in> set (all_sources self) \<longrightarrow>
                 map_of res' s = Some []))"
proof -
  obtain r1 d1 c1 where ac: "assemble_control fs dc cache tid [] (control_sources dc) = (r1, d1, c1)"
    by (cases "assemble_control fs dc cache tid [] (control_sources dc)")
  from assemble_control_spec [OF ag ok ac]
  have ag1: "caches_agree fs self d1" and ok1: "cache_ok self c1"
    and p1: "\<And>res' s. r1 = Inr res' \<Longrightarrow> source_absent self tid s \<Longrightarrow>
               s \<in> set (control_sources dc) \<Longrightarrow> map_of res' s = Some []"
    by simp_all
  from ag have cs: "control_sources dc = control_sources self" by (simp add: caches_agree_def)
  from ag1 have ins: "instrument_sources d1 = instrument_sources self" by (simp add: caches_agree_def)
  show ?thesis
  proof (cases r1)
    case (Inl e)
    with a ac ag1 ok1 show ?thesis by (auto simp: assemble_data_def)
  next
    case (Inr res1)
    with a ac ins
    have ai: "assemble_instrument fs d1 c1 tid res1 (instrument_sources self) = (r, dc', cache')"
      by (simp add: assemble_data_def)
    from assemble_instrument_spec [OF ag1 ok1 ai]
    have ag2: "caches_agree fs self dc'" and ok2: "cache_ok self cache'"
      and p2: "\<And>res' s. r = Inr res' \<Longrightarrow> source_absent self tid s \<Longrightarrow>
               s \<in> set (instrument_sources self) \<or> map_of res1 s = Some [] \<Longrightarrow>
               map_of res' s = Some []"
      by simp_all
    have "map_of res' s = Some []"
      if "r = Inr res'" "source_absent self tid s" "s \<in> set (all_sources self)" for res' s
    proof -
      from that(3) have "s \<in> set (control_sources self) \<or> s \<in> set (instrument_sources self)"
        by (auto simp: all_sources_set)
      then have "s \<in> set (instrument_sources self) \<or> map_of res1 s = Some []"
        using p1 [OF Inr that(2)] cs by auto
      from p2 [OF that(1,2) this] show ?thesis .
    qed
    with ag2 ok2 show ?thesis by blast
  qed
qed

lemma iter_trains_spec:
  assumes "caches_agree fs self (data it)" "cache_ok self (datasets_cache it)"
    "iter_trains fs it tids = (yielded, err)"
  shows "prefix (map fst yielded)
           (if require_all it then filter (\<lambda>t. \<not> train_missing fs self t) tids else tids) \<and>
         (err = None \<longrightarrow>
            map fst yielded =
              (if require_all it then filter (\<lambda>t. \<not> train_missing fs self t) tids else tids)) \<and>
         (\<forall>tid res s. (tid, res) \<in> set yielded \<and> source_absent self tid s \<and>
                       s \<in> set (all_sources self) \<longrightarrow> map_of res s = Some [])"
  using assms
proof (induction tids arbitrary: it yielded err)
  case Nil
  then show ?case by simp
next
  case (Cons tid tids)
  let ?chk = "if require_all it then check_data_missing fs (data it) tid else (Inr False, data it)"
  obtain r1 d1 where c: "?chk = (r1, d1)" by (cases ?chk)
  have ag1: "caches_agree fs self d1"
    and m1: "\<And>m. r1 = Inr m \<Longrightarrow> (m \<longleftrightarrow> require_all it \<and> train_missing fs self tid)"
  proof -
    show "caches_agree fs self d1"
    proof (cases "require_all it")
      case True
      with c have "check_data_missing fs (data it) tid = (r1, d1)" by simp
      from check_data_missing_spec(1) [OF Cons.prems(1) this] show ?thesis .
    next
      case False
      with c Cons.prems(1) show ?thesis by simp
    qed
    fix m assume r: "r1 = Inr m"
    show "m \<longleftrightarrow> require_all it \<and> train_missing fs self tid"
    proof (cases "require_all it")
      case True
      with c have "check_data_missing fs (data it) tid = (r1, d1)" by simp
      from check_data_missing_spec(2) [OF Cons.prems(1) this r] True show ?thesis by simp
    next
      case False
      with c r show ?thesis by simp
    qed
  qed
  show ?case
  proof (cases r1)
    case (Inl e)
    with Cons.prems(3) c have "yielded = []" "err = Some e" by auto
    then show ?thesis by simp
  next
    case (Inr m)
    show ?thesis
    proof (cases m)
      case True
      with Cons.prems(3) c Inr
      have l: "iter_trains fs (it\<lparr>data := d1\<rparr>) tids = (yielded, err)" by simp
      have a1: "caches_agree fs self (data (it\<lparr>data := d1\<rparr>))" using ag1 by simp
      have a2: "cache_ok self (datasets_cache (it\<lparr>data := d1\<rparr>))" using Cons.prems(2) by simp
      have ra: "require_all (it\<lparr>data := d1\<rparr>) = require_all it" by simp
      note ih = Cons.IH [OF a1 a2 l, unfolded ra]
      from m1 [OF Inr] True have sk: "require_all it" "train_missing fs self tid" by simp_all
      from ih have i1: "prefix (map fst yielded)
           (if require_all it then filter (\<lambda>t. \<not> train_missing fs self t) tids else tids)"
        and i2: "err = None \<longrightarrow> map fst yielded =
              (if require_all it then filter (\<lambda>t. \<not> train_missing fs self t) tids else tids)"
        and i3: "\<forall>tid res s. (tid, res) \<in> set yielded \<and> source_absent self tid s \<and>
                       s \<in> set (all_sources self) \<longrightarrow> map_of res s = Some []"
        by blast+
      show ?thesis
      proof (intro conjI)
        from i1 sk show "prefix (map fst yielded)
           (if require_all it then filter (\<lambda>t. \<not> train_missing fs self t) (tid # tids)
            else tid # tids)" by simp
        from i2 sk show "err = None \<longrightarrow> map fst yielded =
           (if require_all it then filter (\<lambda>t. \<not> train_missing fs self t) (tid # tids)
            else tid # tids)" by simp
        from i3 show "\<forall>tid res s. (tid, res) \<in> set yielded \<and> source_absent self tid s \<and>
                       s \<in> set (all_sources self) \<longrightarrow> map_of res s = Some []" .
      qed
    next
      case False
      with m1 [OF Inr] have keep: "\<not> (require_all it \<and> train_missing fs self tid)" by simp
      obtain r2 d2 c2 where a: "assemble_data fs d1 (datasets_cache it) tid = (r2, d2, c2)"
        by (cases "assemble_data fs d1 (datasets_cache it) tid")
      from assemble_data_spec [OF ag1 Cons.prems(2) a]
      have ag2: "caches_agree fs self d2" and ok2: "cache_ok self c2"
        and p: "\<And>res' s. r2 = Inr res' \<Longrightarrow> source_absent self tid s \<Longrightarrow>
                   s \<in> set (all_sources self) \<Longrightarrow> map_of res' s = Some []"
        by simp_all
      show ?thesis
      proof (cases r2)
        case (Inl e)
        with Cons.prems(3) c Inr False a have "yielded = []" "err = Some e" by simp_all
        then show ?thesis by simp
      next
        case res: (Inr res)
        obtain ys err' where l: "iter_trains fs (it\<lparr>data := d2, datasets_cache := c2\<rparr>) tids = (ys, err')"
          by (cases "iter_trains fs (it\<lparr>data := d2, datasets_cache := c2\<rparr>) tids")
        with Cons.prems(3) c Inr False a res
        have y: "yielded = (tid, res) # ys" and e: "err = err'" by simp_all
        have a1: "caches_agree fs self (data (it\<lparr>data := d2, datasets_cache := c2\<rparr>))"
          using ag2 by simp
        have a2: "cache_ok self (datasets_cache (it\<lparr>data := d2, datasets_cache := c2\<rparr>))"
          using ok2 by simp
        have ra: "require_all (it\<lparr>data := d2, datasets_cache := c2\<rparr>) = require_all it" by simp
        note ih = Cons.IH [OF a1 a2 l, unfolded ra]
        from ih have i1: "prefix (map fst ys)
           (if require_all it then filter (\<lambda>t. \<not> train_missing fs self t) tids else tids)"
          and i2: "err' = None \<longrightarrow> map fst ys =
              (if require_all it then filter (\<lambda>t. \<not> train_missing fs self t) tids else tids)"
          and i3: "\<forall>tid res s. (tid, res) \<in> set ys \<and> source_absent self tid s \<and>
                       s \<in> set (all_sources self) \<longrightarrow> map_of res s = Some []"
          by blast+
        show ?thesis
        proof (intro conjI)
          from i1 keep y show "prefix (map fst yielded)
             (if require_all it then filter (\<lambda>t. \<not> train_missing fs self t) (tid # tids)
              else tid # tids)" by auto
          from i2 keep y e show "err = None \<longrightarrow> map fst yielded =
             (if require_all it then filter (\<lambda>t. \<not> train_missing fs self t) (tid # tids)
              else tid # tids)" by auto
          from i3 y p [OF res]
          show "\<forall>tid res s. (tid, res) \<in> set yielded \<and> source_absent self tid s \<and>
                       s \<in> set (all_sources self) \<longrightarrow> map_of res s = Some []" by auto
        qed
      qed
    qed
  qed
qed





end
